theory Spec2Isabelle
  imports Main "HOL-Library.List_Lexorder" "HOL-Library.Char_ord" "HOL-Library.Code_Target_Numeral"
begin

unbundle bit_operations_syntax

section \<open>Values of the host language\<close>

text \<open>
  Property bags hold arbitrary JavaScript values. Numbers are the integers the interval
  code passes around (positions, sequence numbers, flags). \<open>JBackRef\<close> is the weak
  reference an endpoint keeps to its owning interval: it carries the owner's id value.
\<close>

datatype jsval =
    JUndefined
  | JNull
  | JBool bool
  | JNum int
  | JStr string
  | JArr "jsval list"
  | JBackRef jsval

definition digitChar :: "nat \<Rightarrow> char" where
  "digitChar d = ''0123456789'' ! d"

function showNat :: "nat \<Rightarrow> string" where
  "showNat n = (if n < 10 then [digitChar n] else showNat (n div 10) @ [digitChar (n mod 10)])"
  by pat_completeness auto
termination
  by (relation "measure id") auto

declare showNat.simps [simp del]

text \<open>The decimal digits of an integer.\<close>

definition showInt :: "int \<Rightarrow> string" where
  "showInt i = (if i < 0 then CHR ''-'' # showNat (nat (- i)) else showNat (nat i))"

text \<open>
  A number of the host language is a double. An integer of the model stands for the
  double nearest to it, ties going to the even mantissa (what reading a number literal
  gives); up to \<open>2 ^ 53\<close> that is the integer itself, and from \<open>2 ^ 1024\<close> on it is
  \<^verbatim>\<open>Infinity\<close>.
\<close>

function bitLength :: "nat \<Rightarrow> nat" where
  "bitLength n = (if n = 0 then 0 else Suc (bitLength (n div 2)))"
  by pat_completeness auto
termination
  by (relation "measure id") auto

declare bitLength.simps [simp del]

definition toDouble :: "int \<Rightarrow> int" where
  "toDouble x =
     (let a = nat \<bar>x\<bar> in
      if a \<le> 2 ^ 53 then x
      else
        (let sh = bitLength a - 53;
             q = a div 2 ^ sh;
             r = a mod 2 ^ sh;
             half = 2 ^ (sh - 1);
             q' = (if r > half \<or> (r = half \<and> odd q) then q + 1 else q)
         in sgn x * int (q' * 2 ^ sh)))"

text \<open>
  The string conversion of a number, as a template literal does it (\<^verbatim>\<open>Number::toString\<close> of
  the language): with \<open>s\<close> the shortest digits that read back as the same double (the
  closest to it when several do) and \<open>n\<close> the place of the decimal point, the digits
  followed by zeros when \<open>n \<le> 21\<close>, the exponent form \<^verbatim>\<open>d.ddde+x\<close> otherwise.
  \<open>shortestDigits d nd k\<close> looks for \<open>s\<close> among the numbers of \<open>k\<close> digits and more,
  for a double \<open>d\<close> of \<open>nd\<close> decimal digits, and gives \<open>s\<close> with the number of zeros
  that follow it.
\<close>

function shortestDigits :: "nat \<Rightarrow> nat \<Rightarrow> nat \<Rightarrow> nat \<times> nat" where
  "shortestDigits d nd k =
     (if nd \<le> k then (d, 0)
      else if toDouble (int ((d div 10 ^ (nd - k)) * 10 ^ (nd - k))) = int d
              \<and> d div 10 ^ (nd - k) + 1 < 10 ^ k
              \<and> toDouble (int ((d div 10 ^ (nd - k) + 1) * 10 ^ (nd - k))) = int d
      then (if d - (d div 10 ^ (nd - k)) * 10 ^ (nd - k)
                 \<le> (d div 10 ^ (nd - k) + 1) * 10 ^ (nd - k) - d
            then (d div 10 ^ (nd - k), nd - k)
            else (d div 10 ^ (nd - k) + 1, nd - k))
      else if toDouble (int ((d div 10 ^ (nd - k)) * 10 ^ (nd - k))) = int d
      then (d div 10 ^ (nd - k), nd - k)
      else if d div 10 ^ (nd - k) + 1 < 10 ^ k
              \<and> toDouble (int ((d div 10 ^ (nd - k) + 1) * 10 ^ (nd - k))) = int d
      then (d div 10 ^ (nd - k) + 1, nd - k)
      else shortestDigits d nd (Suc k))"
  by pat_completeness auto
termination
  by (relation "measure (\<lambda>(d, nd, k). nd - k)") auto

declare shortestDigits.simps [simp del]

definition positiveToString :: "nat \<Rightarrow> string" where
  "positiveToString d =
     (if d \<le> 2 ^ 53 then showNat d
      else if 2 ^ 1024 \<le> d then ''Infinity''
      else
        (let nd = length (showNat d);
             sp = (if toDouble (int (10 ^ nd)) = int d then (1, nd) else shortestDigits d nd 1);
             digits = showNat (fst sp);
             k = length digits;
             n = snd sp + k
         in if n \<le> 21 then digits @ replicate (snd sp) CHR ''0''
            else if k = 1 then digits @ ''e+'' @ showNat (n - 1)
            else hd digits # ''.'' @ tl digits @ ''e+'' @ showNat (n - 1)))"

definition numberToString :: "int \<Rightarrow> string" where
  "numberToString x =
     (let d = toDouble x
      in if d < 0 then CHR ''-'' # positiveToString (nat (- d)) else positiveToString (nat d))"

fun joinWith :: "string \<Rightarrow> string list \<Rightarrow> string" where
  "joinWith sep [] = []"
| "joinWith sep [x] = x"
| "joinWith sep (x # y # ys) = x @ sep @ joinWith sep (y # ys)"

text \<open>\<^verbatim>\<open>`${v}`\<close>: the string conversion of a template literal.\<close>

fun jsToString :: "jsval \<Rightarrow> string" where
  "jsToString JUndefined = ''undefined''"
| "jsToString JNull = ''null''"
| "jsToString (JBool b) = (if b then ''true'' else ''false'')"
| "jsToString (JNum n) = numberToString n"
| "jsToString (JStr s) = s"
| "jsToString (JArr xs) =
     joinWith '','' (map (\<lambda>x. if x = JUndefined \<or> x = JNull then [] else jsToString x) xs)"
| "jsToString (JBackRef v) = ''[object Object]''"

section \<open>Property sets\<close>

text \<open>
  A \<open>PropertySet\<close> is a JavaScript object used as a string-keyed bag. \<open>vals\<close> are its own
  enumerable properties (a key may be present with the value \<open>JUndefined\<close>),
  \<open>nonWritable\<close> the keys that \<^verbatim>\<open>Object.defineProperty\<close> has made
  \<^verbatim>\<open>writable: false, configurable: false\<close>.
\<close>

record PropertySet =
  vals :: "string \<rightharpoonup> jsval"
  nonWritable :: "string set"

definition reservedIntervalIdKey :: string where
  "reservedIntervalIdKey = ''intervalId''"

text \<open>
  Modelled from the spec: the reserved property key \<open>rangeLabels\<close> of the sequence CRDT
  (\<^verbatim>\<open>reservedRangeLabelsKey\<close>, imported from the merge-tree package; the comment in
  \<^verbatim>\<open>compressInterval\<close> spells it \<^verbatim>\<open>referenceRangeLabels\<close>).
\<close>

definition reservedRangeLabelsKey :: string where
  "reservedRangeLabelsKey = ''referenceRangeLabels''"

text \<open>\<^verbatim>\<open>{}\<close> and \<^verbatim>\<open>createMap()\<close>: a fresh object without properties.\<close>

definition emptyProps :: PropertySet where
  "emptyProps = \<lparr> vals = Map.empty, nonWritable = {} \<rparr>"

text \<open>\<^verbatim>\<open>props?.[key]\<close>: reading a key of a possibly absent object.\<close>

definition getProp :: "PropertySet option \<Rightarrow> string \<Rightarrow> jsval" where
  "getProp props k =
     (case props of
        None \<Rightarrow> JUndefined
      | Some p \<Rightarrow> (case vals p k of None \<Rightarrow> JUndefined | Some v \<Rightarrow> v))"

text \<open>\<^verbatim>\<open>{ ...props, [k]: v }\<close>: a fresh object with the spread entries and one more.\<close>

definition spreadWith :: "PropertySet option \<Rightarrow> string \<Rightarrow> jsval \<Rightarrow> PropertySet" where
  "spreadWith props k v =
     \<lparr> vals = (case props of None \<Rightarrow> Map.empty | Some p \<Rightarrow> vals p)(k \<mapsto> v), nonWritable = {} \<rparr>"

text \<open>
  \<^verbatim>\<open>Object.defineProperty(obj, key, { configurable: false, enumerable: true, writable: false })\<close>
\<close>

definition defineNonWritable :: "PropertySet \<Rightarrow> string \<Rightarrow> PropertySet" where
  "defineNonWritable p k = p\<lparr> nonWritable := insert k (nonWritable p) \<rparr>"

text \<open>
  Modelled from the spec: \<^verbatim>\<open>addProperties(oldProps, newProps)\<close> of the merge-tree
  package, which "writes it into properties": shallow merging between the existing
  properties and the new ones, \<^verbatim>\<open>{ ...oldProps, ...props }\<close>, in place when the old
  object exists and into a fresh map otherwise.
\<close>

definition addProperties :: "PropertySet option \<Rightarrow> PropertySet \<Rightarrow> PropertySet" where
  "addProperties oldProps newProps =
     (case oldProps of
        None \<Rightarrow> \<lparr> vals = vals newProps, nonWritable = {} \<rparr>
      | Some p \<Rightarrow> p\<lparr> vals := vals p ++ vals newProps \<rparr>)"

section \<open>Interval types, stickiness and serialized forms\<close>

text \<open>\<^verbatim>\<open>enum IntervalType\<close>: a bit mask carried as a number.\<close>

definition IntervalType_Simple :: int where "IntervalType_Simple = 0"
definition IntervalType_Nest :: int where "IntervalType_Nest = 1"
definition IntervalType_SlideOnRemove :: int where "IntervalType_SlideOnRemove = 2"
definition IntervalType_Transient :: int where "IntervalType_Transient = 4"

text \<open>\<^verbatim>\<open>IntervalStickiness\<close>: the four values \<open>0b00\<close>, \<open>0b01\<close>, \<open>0b10\<close>, \<open>0b11\<close>.\<close>

datatype IntervalStickiness = NONE | START | END | FULL

fun stickinessBits :: "IntervalStickiness \<Rightarrow> int" where
  "stickinessBits NONE = 0"
| "stickinessBits START = 1"
| "stickinessBits END = 2"
| "stickinessBits FULL = 3"

record ISerializedInterval =
  si_sequenceNumber :: int
  si_start :: int
  si_end :: int
  si_intervalType :: int
  si_stickiness :: "IntervalStickiness option"
  si_properties :: "PropertySet option"

text \<open>
  \<^verbatim>\<open>CompressedSerializedInterval\<close>:
  \<^verbatim>\<open>[start, end, sequenceNumber, intervalType, properties, stickiness?]\<close>; the last
  component is \<open>None\<close> for the five-element form.
\<close>

type_synonym CompressedSerializedInterval =
  "int \<times> int \<times> int \<times> int \<times> PropertySet \<times> IntervalStickiness option"

text \<open>\<^verbatim>\<open>[label]\<close> for an optional label.\<close>

definition labelArray :: "string option \<Rightarrow> jsval" where
  "labelArray label = JArr [case label of None \<Rightarrow> JUndefined | Some l \<Rightarrow> JStr l]"

definition decompressInterval ::
  "CompressedSerializedInterval \<Rightarrow> string option \<Rightarrow> ISerializedInterval" where
  "decompressInterval interval label =
     (case interval of (i0, i1, i2, i3, i4, i5) \<Rightarrow>
        \<lparr> si_sequenceNumber = i2,
          si_start = i0,
          si_end = i1,
          si_intervalType = i3,
          si_stickiness = i5,
          si_properties = Some (spreadWith (Some i4) reservedRangeLabelsKey (labelArray label)) \<rparr>)"

definition compressInterval :: "ISerializedInterval \<Rightarrow> CompressedSerializedInterval" where
  "compressInterval interval =
     (si_start interval, si_end interval, si_sequenceNumber interval, si_intervalType interval,
      spreadWith (si_properties interval) reservedRangeLabelsKey JUndefined,
      (if si_stickiness interval \<noteq> None \<and> si_stickiness interval \<noteq> Some END
       then si_stickiness interval else None))"

section \<open>Sliding preference of the endpoints\<close>

datatype SlidingPreference = BACKWARD | FORWARD

definition startReferenceSlidingPreference :: "IntervalStickiness \<Rightarrow> SlidingPreference" where
  "startReferenceSlidingPreference stickiness =
     (if (stickinessBits stickiness AND stickinessBits START) \<noteq> 0 then BACKWARD else FORWARD)"

definition endReferenceSlidingPreference :: "IntervalStickiness \<Rightarrow> SlidingPreference" where
  "endReferenceSlidingPreference stickiness =
     (if (stickinessBits stickiness AND stickinessBits END) \<noteq> 0 then FORWARD else BACKWARD)"

section \<open>Legacy ids\<close>

text \<open>\<^verbatim>\<open>createLegacyId\<close>: the template literal \<^verbatim>\<open>`${legacyIdPrefix}${start}-${end}`\<close>.\<close>

definition legacyIdPrefix :: string where
  "legacyIdPrefix = ''legacy''"

definition createLegacyId :: "int \<Rightarrow> int \<Rightarrow> string" where
  "createLegacyId start end' = legacyIdPrefix @ numberToString start @ ''-'' @ numberToString end'"

text \<open>
  \<^verbatim>\<open>ensureSerializedId\<close> mutates the serialized interval it is given; the model returns
  the id together with the record after the call.
\<close>

definition ensureSerializedId :: "ISerializedInterval \<Rightarrow> jsval \<times> ISerializedInterval" where
  "ensureSerializedId serializedInterval =
     (let id = getProp (si_properties serializedInterval) reservedIntervalIdKey in
      if id = JUndefined then
        (let id' = JStr (createLegacyId (si_start serializedInterval) (si_end serializedInterval));
             newProps = \<lparr> vals = [reservedIntervalIdKey \<mapsto> id'], nonWritable = {} \<rparr>;
             props = addProperties (si_properties serializedInterval) newProps
         in (id', serializedInterval\<lparr> si_properties :=
                    Some (defineNonWritable props reservedIntervalIdKey) \<rparr>))
      else
        (id, serializedInterval\<lparr> si_properties :=
               map_option (\<lambda>p. defineNonWritable p reservedIntervalIdKey)
                 (si_properties serializedInterval) \<rparr>))"

section \<open>Errors\<close>

text \<open>
  Every \<^verbatim>\<open>throw\<close> and every failed \<^verbatim>\<open>assert\<close> of the source is a value: the two
  error classes the file throws, a failed assertion with its hexadecimal code, and the
  \<^verbatim>\<open>TypeError\<close> of the runtime for a method call on \<^verbatim>\<open>undefined\<close>.
\<close>

datatype error =
    LoggingError string
  | UsageError string
  | AssertionError string
  | TypeError string

definition bindE :: "error + 'a \<Rightarrow> ('a \<Rightarrow> error + 'b) \<Rightarrow> error + 'b" where
  "bindE m f = (case m of Inl e \<Rightarrow> Inl e | Inr x \<Rightarrow> f x)"

section \<open>The sequence client\<close>

text \<open>
  Modelled from the spec: the reference-type flags of a position reference (RangeBegin,
  RangeEnd, NestBegin, NestEnd, SlideOnRemove, StayOnRemove, Transient). The merge-tree
  package gives each flag one bit of a number; a reference type is the set of its flags,
  so \<^verbatim>\<open>t |= F\<close> is \<open>insert F t\<close>, \<^verbatim>\<open>t &= ~F\<close> is \<open>t - {F}\<close> and
  \<^verbatim>\<open>(t & F) !== 0\<close> is \<open>F \<in> t\<close>.
\<close>

datatype ReferenceType =
  NestBegin | NestEnd | RangeBegin | RangeEnd | SlideOnRemove | StayOnRemove | Transient

definition refTypeIncludesFlag :: "ReferenceType set \<Rightarrow> ReferenceType \<Rightarrow> bool" where
  "refTypeIncludesFlag refType flag = (flag \<in> refType)"

text \<open>
  Modelled from the spec: a segment is "an opaque unit of the underlying sequence". The
  model keeps what this file reads of it: an identity, its place in the order of the
  sequence and \<^verbatim>\<open>cachedLength\<close>.
\<close>

record ISegment =
  segId :: nat
  ordinal :: nat
  cachedLength :: int

record Segoff =
  so_segment :: "ISegment option"
  so_offset :: "int option"

record ISequencedDocumentMessage =
  referenceSequenceNumber :: int
  clientId :: string
  sequenceNumber :: int

text \<open>The perspective \<^verbatim>\<open>{ referenceSequenceNumber, clientId }\<close> of a position lookup.\<close>

record Perspective =
  p_referenceSequenceNumber :: int
  p_clientId :: string

text \<open>
  A local reference position: its segment (\<open>None\<close> once detached), the offset in the
  segment, the reference type, the sliding preference, the property bag, and whether
  \<^verbatim>\<open>callbacks\<close> (the before/after slide hooks) are set.
\<close>

record LocalReferencePosition =
  lr_segment :: "ISegment option"
  lr_offset :: int
  lr_refType :: "ReferenceType set"
  lr_slidingPreference :: SlidingPreference
  lr_properties :: "PropertySet option"
  lr_callbacks :: bool

text \<open>
  Modelled from the spec: "Create(segment, offset, refType, slidingPreference) \<rightarrow> Reference.
  Binds a reference to a live segment." A reference created without a sliding preference
  slides forward, the preference of the default stickiness.
\<close>

definition createLocalReferencePosition ::
  "ISegment \<Rightarrow> int option \<Rightarrow> ReferenceType set \<Rightarrow> PropertySet option \<Rightarrow>
   SlidingPreference option \<Rightarrow> LocalReferencePosition" where
  "createLocalReferencePosition seg off refType props slidingPreference =
     \<lparr> lr_segment = Some seg,
       lr_offset = (case off of None \<Rightarrow> 0 | Some n \<Rightarrow> n),
       lr_refType = refType,
       lr_slidingPreference = (case slidingPreference of None \<Rightarrow> FORWARD | Some p \<Rightarrow> p),
       lr_properties = props,
       lr_callbacks = False \<rparr>"

text \<open>
  Modelled from the spec: "CreateDetached(refType) \<rightarrow> Reference. For references whose
  anchor segment has vanished."
\<close>

definition createDetachedLocalReferencePosition ::
  "ReferenceType set \<Rightarrow> LocalReferencePosition" where
  "createDetachedLocalReferencePosition refType =
     \<lparr> lr_segment = None, lr_offset = 0, lr_refType = refType,
       lr_slidingPreference = FORWARD, lr_properties = None, lr_callbacks = False \<rparr>"

text \<open>\<^verbatim>\<open>ref.addProperties(props)\<close> of a reference.\<close>

definition refAddProperties :: "LocalReferencePosition \<Rightarrow> PropertySet \<Rightarrow> LocalReferencePosition" where
  "refAddProperties ref props = ref\<lparr> lr_properties := Some (addProperties (lr_properties ref) props) \<rparr>"

text \<open>
  Modelled from the spec: "Compare(a, b) \<rightarrow> {-1,0,+1}. Stable total order reflecting
  sequence position and tie-breakers within a segment." A detached reference comes before
  every attached one.
\<close>

definition compareReferencePositions ::
  "LocalReferencePosition \<Rightarrow> LocalReferencePosition \<Rightarrow> int" where
  "compareReferencePositions a b =
     (case (lr_segment a, lr_segment b) of
        (None, None) \<Rightarrow> sgn (lr_offset a - lr_offset b)
      | (None, Some sb) \<Rightarrow> - 1
      | (Some sa, None) \<Rightarrow> 1
      | (Some sa, Some sb) \<Rightarrow>
          (if sa = sb then sgn (lr_offset a - lr_offset b)
           else if ordinal sa < ordinal sb then - 1 else 1))"

text \<open>
  Modelled from the spec: the sentinel \<open>DetachedPosition\<close> that \<open>Resolve\<close> returns for a
  detached reference and that "never overlaps any live range"
  (\<^verbatim>\<open>DetachedReferencePosition\<close> of the merge-tree package).
\<close>

definition DetachedReferencePosition :: int where
  "DetachedReferencePosition = - 1"

text \<open>
  Modelled from the spec: the sequence number of a local change that is "waiting for an
  ack" (\<^verbatim>\<open>UnassignedSequenceNumber\<close> of the merge-tree package).
\<close>

definition UnassignedSequenceNumber :: int where
  "UnassignedSequenceNumber = - 1"

text \<open>
  The consumed surface of the sequence client. Its functions are the merge-tree's own
  and are taken as they are given; \<open>collabWindow_localSeq\<close> is the mutable counter of
  \<^verbatim>\<open>getCollabWindow()\<close>.
\<close>

record Client =
  getCurrentSeq :: int
  collabWindow_localSeq :: int
  collabWindow_clientId :: int
  getLongClientId :: "int \<Rightarrow> string"
  getContainingSegment :: "int \<Rightarrow> Perspective option \<Rightarrow> int option \<Rightarrow> Segoff"
  getSlideToSegment :: "Segoff \<Rightarrow> Segoff"
  findReconnectionPosition :: "ISegment \<Rightarrow> int \<Rightarrow> int"
  localReferencePositionToPosition :: "LocalReferencePosition \<Rightarrow> int"

section \<open>Creating position references\<close>

text \<open>\<^verbatim>\<open>!n\<close> for an optional number: absent or zero.\<close>

definition falsyNumber :: "int option \<Rightarrow> bool" where
  "falsyNumber n = (n = None \<or> n = Some 0)"

definition createPositionReferenceFromSegoff ::
  "Client \<Rightarrow> Segoff \<Rightarrow> ReferenceType set \<Rightarrow> ISequencedDocumentMessage option \<Rightarrow>
   int option \<Rightarrow> bool option \<Rightarrow> SlidingPreference option \<Rightarrow> error + LocalReferencePosition" where
  "createPositionReferenceFromSegoff client segoff refType op' localSeq fromSnapshot slidingPreference =
     (case so_segment segoff of
        Some seg \<Rightarrow>
          Inr (createLocalReferencePosition seg (so_offset segoff) refType None slidingPreference)
      | None \<Rightarrow>
          if op' = None \<and> falsyNumber localSeq \<and> fromSnapshot \<noteq> Some True
             \<and> \<not> refTypeIncludesFlag refType Transient
          then Inl (UsageError ''Non-transient references need segment'')
          else Inr (createDetachedLocalReferencePosition refType))"

definition createPositionReference ::
  "Client \<Rightarrow> int \<Rightarrow> ReferenceType set \<Rightarrow> ISequencedDocumentMessage option \<Rightarrow>
   bool option \<Rightarrow> int option \<Rightarrow> SlidingPreference option \<Rightarrow> error + LocalReferencePosition" where
  "createPositionReference client pos refType op' fromSnapshot localSeq slidingPreference =
     (case op' of
        Some m \<Rightarrow>
          if SlideOnRemove \<notin> refType then Inl (AssertionError ''0x2f5'')
          else
            (let segoff = getContainingSegment client pos
                            (Some \<lparr> p_referenceSequenceNumber = referenceSequenceNumber m,
                                    p_clientId = clientId m \<rparr>) None;
                 segoff' = getSlideToSegment client segoff
             in createPositionReferenceFromSegoff client segoff' refType op' localSeq
                  fromSnapshot slidingPreference)
      | None \<Rightarrow>
          if \<not> (SlideOnRemove \<notin> refType \<or> fromSnapshot = Some True)
          then Inl (AssertionError ''0x2f6'')
          else
            (let segoff = getContainingSegment client pos None localSeq
             in createPositionReferenceFromSegoff client segoff refType op' localSeq
                  fromSnapshot slidingPreference))"

section \<open>Property managers\<close>

text \<open>
  Modelled from the spec: the property manager "tracks pending property annotations by
  sequence number". It counts, per key, the local annotations that wait for their ack.
\<close>

type_synonym PropertiesManager = "string \<rightharpoonup> nat"

definition newPropertiesManager :: PropertiesManager where
  "newPropertiesManager = Map.empty"

text \<open>
  Modelled from the spec: \<^verbatim>\<open>PropertiesManager.addProperties(oldProps, newProps, op, seq,
  collaborating)\<close>. "Shallow merging is used between any existing properties and
  \<^verbatim>\<open>prop\<close>"; a local annotation (sequence number Unassigned) is counted as pending on
  each key it writes, and an annotation of a sequenced op leaves alone a key with pending
  local annotations. The result is the manager, the property set and the deltas (the
  previous values of the written keys).
\<close>

definition pmAddProperties ::
  "PropertiesManager \<Rightarrow> PropertySet \<Rightarrow> PropertySet \<Rightarrow> int option \<Rightarrow> bool \<Rightarrow>
   PropertiesManager \<times> PropertySet \<times> PropertySet" where
  "pmAddProperties pm oldProps newProps seq collaborating =
     (let localPending = (collaborating \<and> seq = Some UnassignedSequenceNumber);
          writes = (\<lambda>k. vals newProps k \<noteq> None
                         \<and> (\<not> collaborating \<or> localPending \<or> pm k = None));
          pm' = (if localPending
                 then (\<lambda>k. if vals newProps k \<noteq> None
                            then Some (case pm k of None \<Rightarrow> 1 | Some n \<Rightarrow> Suc n)
                            else pm k)
                 else pm);
          props' = oldProps\<lparr> vals := (\<lambda>k. if writes k then vals newProps k else vals oldProps k) \<rparr>;
          deltas = \<lparr> vals = (\<lambda>k. if writes k
                                  then Some (case vals oldProps k of None \<Rightarrow> JNull | Some v \<Rightarrow> v)
                                  else None),
                     nonWritable = {} \<rparr>
      in (pm', props', deltas))"

text \<open>
  Modelled from the spec: \<^verbatim>\<open>copyTo(oldProps, newProps, newManager)\<close>: "Properties and
  property-manager state are copied."
\<close>

definition pmCopyTo ::
  "PropertiesManager \<Rightarrow> PropertySet \<Rightarrow> PropertySet \<Rightarrow> PropertySet \<times> PropertiesManager" where
  "pmCopyTo pm oldProps newProps = (newProps\<lparr> vals := vals newProps ++ vals oldProps \<rparr>, pm)"

text \<open>
  Modelled from the spec: \<^verbatim>\<open>ackPendingProperties\<close>, which lets the manager "prune its
  pending change-properties set": one pending annotation less on each acked key.
\<close>

definition ackPendingProperties :: "PropertiesManager \<Rightarrow> PropertySet \<Rightarrow> PropertiesManager" where
  "ackPendingProperties pm props =
     (\<lambda>k. if vals props k \<noteq> None
           then (case pm k of None \<Rightarrow> None | Some n \<Rightarrow> if n \<le> 1 then None else Some (n - 1))
           else pm k)"

section \<open>Intervals\<close>

subsection \<open>Numeric intervals\<close>

text \<open>
  \<open>iv_forceCompare\<close> is the comparison override that the range indexes put on their
  probe intervals under a private symbol.
\<close>

record Interval =
  iv_start :: int
  iv_end :: int
  iv_properties :: PropertySet
  iv_auxProps :: "PropertySet list option"
  iv_propertyManager :: PropertiesManager
  iv_forceCompare :: "int option"

text \<open>\<^verbatim>\<open>Interval.addProperties(newProps, collaborating = false, seq?)\<close>\<close>

definition Interval_addProperties ::
  "Interval \<Rightarrow> PropertySet option \<Rightarrow> bool \<Rightarrow> int option \<Rightarrow> Interval \<times> PropertySet option" where
  "Interval_addProperties this newProps collaborating seq =
     (case newProps of
        None \<Rightarrow> (this, None)
      | Some np \<Rightarrow>
          (case pmAddProperties (iv_propertyManager this) (iv_properties this) np seq collaborating of
             (pm', props', deltas) \<Rightarrow>
               (this\<lparr> iv_properties := props', iv_propertyManager := pm' \<rparr>, Some deltas)))"

text \<open>\<^verbatim>\<open>new Interval(start, end, props?)\<close>\<close>

definition Interval_new :: "int \<Rightarrow> int \<Rightarrow> PropertySet option \<Rightarrow> Interval" where
  "Interval_new start end' props =
     fst (Interval_addProperties
            \<lparr> iv_start = start, iv_end = end', iv_properties = emptyProps, iv_auxProps = None,
              iv_propertyManager = newPropertiesManager, iv_forceCompare = None \<rparr>
            props False None)"

definition Interval_getIntervalId :: "Interval \<Rightarrow> error + string" where
  "Interval_getIntervalId this =
     (let id = getProp (Some (iv_properties this)) reservedIntervalIdKey in
      if id = JUndefined then Inl (AssertionError ''0x5e1'') else Inr (jsToString id))"

text \<open>
  The serialized interval of an op may lack start, end and properties
  (\<^verbatim>\<open>SerializedIntervalDelta\<close>); \<open>asDelta\<close> is a serialized interval read at that type.
\<close>

record SerializedIntervalDelta =
  sd_sequenceNumber :: int
  sd_start :: "int option"
  sd_end :: "int option"
  sd_intervalType :: int
  sd_stickiness :: "IntervalStickiness option"
  sd_properties :: "PropertySet option"

definition asDelta :: "ISerializedInterval \<Rightarrow> SerializedIntervalDelta" where
  "asDelta serializedInterval =
     \<lparr> sd_sequenceNumber = si_sequenceNumber serializedInterval,
       sd_start = Some (si_start serializedInterval), sd_end = Some (si_end serializedInterval),
       sd_intervalType = si_intervalType serializedInterval,
       sd_stickiness = si_stickiness serializedInterval,
       sd_properties = si_properties serializedInterval \<rparr>"

text \<open>\<^verbatim>\<open>Interval.serialize()\<close>\<close>

definition Interval_serialize :: "Interval \<Rightarrow> ISerializedInterval" where
  "Interval_serialize this =
     \<lparr> si_sequenceNumber = 0, si_start = iv_start this, si_end = iv_end this,
       si_intervalType = 0, si_stickiness = None, si_properties = Some (iv_properties this) \<rparr>"

definition Interval_clone :: "Interval \<Rightarrow> Interval" where
  "Interval_clone this = Interval_new (iv_start this) (iv_end this) (Some (iv_properties this))"

definition Interval_compareStart :: "Interval \<Rightarrow> Interval \<Rightarrow> int" where
  "Interval_compareStart this b = iv_start this - iv_start b"

definition Interval_compareEnd :: "Interval \<Rightarrow> Interval \<Rightarrow> int" where
  "Interval_compareEnd this b = iv_end this - iv_end b"

text \<open>
  The tie-break on ids of \<^verbatim>\<open>compare\<close>: ids are compared as strings, and an empty id
  counts as absent.
\<close>

definition compareIds :: "string \<Rightarrow> string \<Rightarrow> int" where
  "compareIds thisId bId =
     (if thisId \<noteq> [] then
        (if bId \<noteq> [] then (if thisId > bId then 1 else if thisId < bId then - 1 else 0) else 0)
      else 0)"

definition Interval_compare :: "Interval \<Rightarrow> Interval \<Rightarrow> error + int" where
  "Interval_compare this b =
     (let startResult = Interval_compareStart this b in
      if startResult = 0 then
        (let endResult = Interval_compareEnd this b in
         if endResult = 0 then
           bindE (Interval_getIntervalId this) (\<lambda>thisId.
             if thisId \<noteq> [] then
               bindE (Interval_getIntervalId b) (\<lambda>bId. Inr (compareIds thisId bId))
             else Inr 0)
         else Inr endResult)
      else Inr startResult)"

definition Interval_overlaps :: "Interval \<Rightarrow> Interval \<Rightarrow> bool" where
  "Interval_overlaps this b = (iv_start this \<le> iv_end b \<and> iv_end this \<ge> iv_start b)"

text \<open>
  \<^verbatim>\<open>Interval.modify(label, start, end, op?)\<close>: \<open>None\<close> is the \<^verbatim>\<open>undefined\<close> that
  says no change is necessary.
\<close>

definition Interval_modify ::
  "Interval \<Rightarrow> string \<Rightarrow> int option \<Rightarrow> int option \<Rightarrow> ISequencedDocumentMessage option \<Rightarrow>
   Interval option" where
  "Interval_modify this label start end' op' =
     (let startPos = (case start of None \<Rightarrow> iv_start this | Some s \<Rightarrow> s);
          endPos = (case end' of None \<Rightarrow> iv_end this | Some e \<Rightarrow> e)
      in if iv_start this = startPos \<and> iv_end this = endPos then None
         else
           (let newInterval = Interval_new startPos endPos None in
            case pmCopyTo (iv_propertyManager this) (iv_properties this) (iv_properties newInterval) of
              (props', pm') \<Rightarrow>
                Some (newInterval\<lparr> iv_properties := props', iv_propertyManager := pm' \<rparr>)))"

text \<open>\<^verbatim>\<open>createInterval(label, start, end, client, intervalType?, op?, fromSnapshot?)\<close>\<close>

definition createInterval :: "string \<Rightarrow> int \<Rightarrow> int \<Rightarrow> Interval" where
  "createInterval label start end' =
     (let rangeProp = (if label \<noteq> [] then
                         \<lparr> vals = [reservedRangeLabelsKey \<mapsto> JArr [JStr label]], nonWritable = {} \<rparr>
                       else emptyProps)
      in Interval_new start end' (Some rangeProp))"

subsection \<open>Sequence intervals\<close>

text \<open>
  The client of a sequence interval is the one client of its collection; the operations
  below take it as an argument. \<open>sq_callbacks\<close> says whether the position change
  listeners are subscribed.
\<close>

record SequenceInterval =
  sq_start :: LocalReferencePosition
  sq_end :: LocalReferencePosition
  sq_intervalType :: int
  sq_properties :: PropertySet
  sq_propertyManager :: PropertiesManager
  sq_stickiness :: IntervalStickiness
  sq_callbacks :: bool
  sq_forceCompare :: "int option"

text \<open>\<^verbatim>\<open>SequenceInterval.addProperties(newProps, collab = false, seq?)\<close>\<close>

definition SequenceInterval_addProperties ::
  "SequenceInterval \<Rightarrow> PropertySet \<Rightarrow> bool \<Rightarrow> int option \<Rightarrow> SequenceInterval \<times> PropertySet option" where
  "SequenceInterval_addProperties this newProps collab seq =
     (case pmAddProperties (sq_propertyManager this) (sq_properties this) newProps seq collab of
        (pm', props', deltas) \<Rightarrow>
          (this\<lparr> sq_properties := props', sq_propertyManager := pm' \<rparr>, Some deltas))"

text \<open>
  \<^verbatim>\<open>new SequenceInterval(client, start, end, intervalType, props?, stickiness =
  IntervalStickiness.END)\<close>
\<close>

definition SequenceInterval_new ::
  "LocalReferencePosition \<Rightarrow> LocalReferencePosition \<Rightarrow> int \<Rightarrow> PropertySet option \<Rightarrow>
   IntervalStickiness option \<Rightarrow> SequenceInterval" where
  "SequenceInterval_new start end' intervalType props stickiness =
     (let this = \<lparr> sq_start = start, sq_end = end', sq_intervalType = intervalType,
                   sq_properties = emptyProps, sq_propertyManager = newPropertiesManager,
                   sq_stickiness = (case stickiness of None \<Rightarrow> END | Some s \<Rightarrow> s),
                   sq_callbacks = False, sq_forceCompare = None \<rparr>
      in case props of
           None \<Rightarrow> this
         | Some p \<Rightarrow> fst (SequenceInterval_addProperties this p False None))"

text \<open>\<^verbatim>\<open>addPositionChangeListeners\<close> and \<^verbatim>\<open>removePositionChangeListeners\<close>\<close>

definition addPositionChangeListeners :: "SequenceInterval \<Rightarrow> SequenceInterval" where
  "addPositionChangeListeners this =
     (if \<not> sq_callbacks this then
        this\<lparr> sq_callbacks := True,
              sq_start := (sq_start this)\<lparr> lr_callbacks := True \<rparr>,
              sq_end := (sq_end this)\<lparr> lr_callbacks := True \<rparr> \<rparr>
      else this)"

definition removePositionChangeListeners :: "SequenceInterval \<Rightarrow> SequenceInterval" where
  "removePositionChangeListeners this =
     (if sq_callbacks this then
        this\<lparr> sq_callbacks := False,
              sq_start := (sq_start this)\<lparr> lr_callbacks := False \<rparr>,
              sq_end := (sq_end this)\<lparr> lr_callbacks := False \<rparr> \<rparr>
      else this)"

text \<open>\<^verbatim>\<open>SequenceInterval.serialize()\<close>\<close>

definition SequenceInterval_serialize :: "Client \<Rightarrow> SequenceInterval \<Rightarrow> ISerializedInterval" where
  "SequenceInterval_serialize client this =
     \<lparr> si_sequenceNumber = getCurrentSeq client,
       si_start = localReferencePositionToPosition client (sq_start this),
       si_end = localReferencePositionToPosition client (sq_end this),
       si_intervalType = sq_intervalType this,
       si_stickiness = (if sq_stickiness this \<noteq> END then Some (sq_stickiness this) else None),
       si_properties = Some (sq_properties this) \<rparr>"

definition SequenceInterval_clone :: "SequenceInterval \<Rightarrow> SequenceInterval" where
  "SequenceInterval_clone this =
     SequenceInterval_new (sq_start this) (sq_end this) (sq_intervalType this)
       (Some (sq_properties this)) (Some (sq_stickiness this))"

definition SequenceInterval_compareStart :: "SequenceInterval \<Rightarrow> SequenceInterval \<Rightarrow> int" where
  "SequenceInterval_compareStart this b = compareReferencePositions (sq_start this) (sq_start b)"

definition SequenceInterval_compareEnd :: "SequenceInterval \<Rightarrow> SequenceInterval \<Rightarrow> int" where
  "SequenceInterval_compareEnd this b = compareReferencePositions (sq_end this) (sq_end b)"

definition SequenceInterval_getIntervalId :: "SequenceInterval \<Rightarrow> error + string" where
  "SequenceInterval_getIntervalId this =
     (let id = getProp (Some (sq_properties this)) reservedIntervalIdKey in
      if id = JUndefined then Inl (AssertionError ''0x5e2'') else Inr (jsToString id))"

definition SequenceInterval_compare :: "SequenceInterval \<Rightarrow> SequenceInterval \<Rightarrow> error + int" where
  "SequenceInterval_compare this b =
     (let startResult = SequenceInterval_compareStart this b in
      if startResult = 0 then
        (let endResult = SequenceInterval_compareEnd this b in
         if endResult = 0 then
           bindE (SequenceInterval_getIntervalId this) (\<lambda>thisId.
             if thisId \<noteq> [] then
               bindE (SequenceInterval_getIntervalId b) (\<lambda>bId. Inr (compareIds thisId bId))
             else Inr 0)
         else Inr endResult)
      else Inr startResult)"

definition SequenceInterval_overlaps :: "SequenceInterval \<Rightarrow> SequenceInterval \<Rightarrow> bool" where
  "SequenceInterval_overlaps this b =
     (compareReferencePositions (sq_start this) (sq_end b) \<le> 0
      \<and> compareReferencePositions (sq_end this) (sq_start b) \<ge> 0)"

text \<open>The local function \<^verbatim>\<open>getRefType\<close> of \<^verbatim>\<open>SequenceInterval.modify\<close>.\<close>

definition getRefType ::
  "ISequencedDocumentMessage option \<Rightarrow> ReferenceType set \<Rightarrow> ReferenceType set" where
  "getRefType op' baseType =
     (if op' = None then insert StayOnRemove (baseType - {SlideOnRemove}) else baseType)"

text \<open>
  \<^verbatim>\<open>SequenceInterval.modify(label, start, end, op?, localSeq?, stickiness =
  IntervalStickiness.END)\<close>
\<close>

definition SequenceInterval_modify ::
  "Client \<Rightarrow> SequenceInterval \<Rightarrow> string \<Rightarrow> int option \<Rightarrow> int option \<Rightarrow>
   ISequencedDocumentMessage option \<Rightarrow> int option \<Rightarrow> IntervalStickiness option \<Rightarrow>
   error + SequenceInterval" where
  "SequenceInterval_modify client this label start end' op' localSeq stickinessArg =
     (let stickiness = (case stickinessArg of None \<Rightarrow> END | Some s \<Rightarrow> s) in
      bindE
        (case start of
           None \<Rightarrow> Inr (sq_start this)
         | Some s \<Rightarrow>
             bindE (createPositionReference client s (getRefType op' (lr_refType (sq_start this)))
                      op' None localSeq (Some (startReferenceSlidingPreference stickiness)))
               (\<lambda>startRef.
                  Inr (case lr_properties (sq_start this) of
                         None \<Rightarrow> startRef
                       | Some p \<Rightarrow> refAddProperties startRef p)))
        (\<lambda>startRef.
      bindE
        (case end' of
           None \<Rightarrow> Inr (sq_end this)
         | Some e \<Rightarrow>
             bindE (createPositionReference client e (getRefType op' (lr_refType (sq_end this)))
                      op' None localSeq (Some (endReferenceSlidingPreference stickiness)))
               (\<lambda>endRef.
                  Inr (case lr_properties (sq_end this) of
                         None \<Rightarrow> endRef
                       | Some p \<Rightarrow> refAddProperties endRef p)))
        (\<lambda>endRef.
           let newInterval = SequenceInterval_new startRef endRef (sq_intervalType this) None None in
           case pmCopyTo (sq_propertyManager this) (sq_properties this) (sq_properties newInterval) of
             (props', pm') \<Rightarrow>
               Inr (newInterval\<lparr> sq_properties := props', sq_propertyManager := pm' \<rparr>))))"

text \<open>
  \<^verbatim>\<open>createSequenceInterval(label, start, end, client, intervalType, op?, fromSnapshot?,
  stickiness = IntervalStickiness.END)\<close>
\<close>

definition createSequenceInterval ::
  "string \<Rightarrow> int \<Rightarrow> int \<Rightarrow> Client \<Rightarrow> int \<Rightarrow> ISequencedDocumentMessage option \<Rightarrow>
   bool option \<Rightarrow> IntervalStickiness option \<Rightarrow> error + SequenceInterval" where
  "createSequenceInterval label start end' client intervalType op' fromSnapshot stickinessArg =
     (let stickiness = (case stickinessArg of None \<Rightarrow> END | Some s \<Rightarrow> s);
          refTypes =
            (if intervalType = IntervalType_Transient then ({Transient}, {Transient})
             else
               (let base = (if intervalType = IntervalType_Nest then ({NestBegin}, {NestEnd})
                            else ({RangeBegin}, {RangeEnd}))
                in if op' \<noteq> None \<or> fromSnapshot = Some True
                   then (insert SlideOnRemove (fst base), insert SlideOnRemove (snd base))
                   else (insert StayOnRemove (fst base), insert StayOnRemove (snd base))));
          beginRefType = fst refTypes;
          endRefType = snd refTypes
      in
      bindE (createPositionReference client start beginRefType op' fromSnapshot None
               (Some (startReferenceSlidingPreference stickiness)))
        (\<lambda>startLref.
      bindE (createPositionReference client end' endRefType op' fromSnapshot None
               (Some (endReferenceSlidingPreference stickiness)))
        (\<lambda>endLref.
           let rangeProp = \<lparr> vals = [reservedRangeLabelsKey \<mapsto> JArr [JStr label]],
                             nonWritable = {} \<rparr>
           in Inr (SequenceInterval_new (refAddProperties startLref rangeProp)
                     (refAddProperties endLref rangeProp) intervalType (Some rangeProp)
                     (Some stickiness)))))"

subsection \<open>The interval of a collection\<close>

text \<open>
  A collection is generic in its interval class; the two classes are the two variants of
  one type, and every place that tests \<^verbatim>\<open>instanceof SequenceInterval\<close> matches on the
  variant.
\<close>

datatype TInterval = NumericInterval Interval | SeqInterval SequenceInterval

definition getIntervalId :: "TInterval \<Rightarrow> error + string" where
  "getIntervalId interval =
     (case interval of
        NumericInterval i \<Rightarrow> Interval_getIntervalId i
      | SeqInterval s \<Rightarrow> SequenceInterval_getIntervalId s)"

definition intervalProperties :: "TInterval \<Rightarrow> PropertySet" where
  "intervalProperties interval =
     (case interval of
        NumericInterval i \<Rightarrow> iv_properties i
      | SeqInterval s \<Rightarrow> sq_properties s)"

definition setIntervalProperties :: "TInterval \<Rightarrow> PropertySet \<Rightarrow> TInterval" where
  "setIntervalProperties interval props =
     (case interval of
        NumericInterval i \<Rightarrow> NumericInterval (i\<lparr> iv_properties := props \<rparr>)
      | SeqInterval s \<Rightarrow> SeqInterval (s\<lparr> sq_properties := props \<rparr>))"

definition intervalPropertyManager :: "TInterval \<Rightarrow> PropertiesManager" where
  "intervalPropertyManager interval =
     (case interval of
        NumericInterval i \<Rightarrow> iv_propertyManager i
      | SeqInterval s \<Rightarrow> sq_propertyManager s)"

definition setIntervalPropertyManager :: "TInterval \<Rightarrow> PropertiesManager \<Rightarrow> TInterval" where
  "setIntervalPropertyManager interval pm =
     (case interval of
        NumericInterval i \<Rightarrow> NumericInterval (i\<lparr> iv_propertyManager := pm \<rparr>)
      | SeqInterval s \<Rightarrow> SeqInterval (s\<lparr> sq_propertyManager := pm \<rparr>))"

text \<open>\<^verbatim>\<open>interval.addProperties(props, collaborating, seq)\<close>\<close>

definition intervalAddProperties ::
  "TInterval \<Rightarrow> PropertySet \<Rightarrow> bool \<Rightarrow> int option \<Rightarrow> TInterval \<times> PropertySet option" where
  "intervalAddProperties interval props collaborating seq =
     (case interval of
        NumericInterval i \<Rightarrow>
          (case Interval_addProperties i (Some props) collaborating seq of
             (i', deltas) \<Rightarrow> (NumericInterval i', deltas))
      | SeqInterval s \<Rightarrow>
          (case SequenceInterval_addProperties s props collaborating seq of
             (s', deltas) \<Rightarrow> (SeqInterval s', deltas)))"

text \<open>\<^verbatim>\<open>interval.compare(b)\<close>, between two intervals of the same class.\<close>

definition intervalCompare :: "TInterval \<Rightarrow> TInterval \<Rightarrow> error + int" where
  "intervalCompare a b =
     (case (a, b) of
        (NumericInterval x, NumericInterval y) \<Rightarrow> Interval_compare x y
      | (SeqInterval x, SeqInterval y) \<Rightarrow> SequenceInterval_compare x y
      | _ \<Rightarrow> Inl (TypeError ''compare''))"

text \<open>\<^verbatim>\<open>interval.serialize()\<close>\<close>

definition intervalSerialize :: "Client option \<Rightarrow> TInterval \<Rightarrow> error + ISerializedInterval" where
  "intervalSerialize client interval =
     (case interval of
        NumericInterval i \<Rightarrow> Inr (Interval_serialize i)
      | SeqInterval s \<Rightarrow>
          (case client of
             None \<Rightarrow> Inl (TypeError ''client'')
           | Some c \<Rightarrow> Inr (SequenceInterval_serialize c s)))"

text \<open>\<^verbatim>\<open>interval.modify(label, start, end, op, localSeq)\<close>, as the collections call it.\<close>

definition intervalModify ::
  "Client option \<Rightarrow> TInterval \<Rightarrow> string \<Rightarrow> int option \<Rightarrow> int option \<Rightarrow>
   ISequencedDocumentMessage option \<Rightarrow> int option \<Rightarrow> error + TInterval option" where
  "intervalModify client interval label start end' op' localSeq =
     (case interval of
        NumericInterval i \<Rightarrow> Inr (map_option NumericInterval (Interval_modify i label start end' op'))
      | SeqInterval s \<Rightarrow>
          (case client of
             None \<Rightarrow> Inl (TypeError ''client'')
           | Some c \<Rightarrow>
               bindE (SequenceInterval_modify c s label start end' op' localSeq None)
                 (\<lambda>n. Inr (Some (SeqInterval n)))))"

subsection \<open>Helpers\<close>

record IIntervalHelpers =
  compareEnds :: "TInterval \<Rightarrow> TInterval \<Rightarrow> int"
  compareStarts :: "(TInterval \<Rightarrow> TInterval \<Rightarrow> int) option"
  create :: "string \<Rightarrow> int \<Rightarrow> int \<Rightarrow> Client option \<Rightarrow> int \<Rightarrow> ISequencedDocumentMessage option \<Rightarrow>
             bool option \<Rightarrow> IntervalStickiness option \<Rightarrow> error + TInterval"

text \<open>
  The comparators of the helpers are typed for one interval class; the collection never
  hands them intervals of the other class.
\<close>

definition compareSequenceIntervalEnds :: "TInterval \<Rightarrow> TInterval \<Rightarrow> int" where
  "compareSequenceIntervalEnds a b =
     (case (a, b) of
        (SeqInterval x, SeqInterval y) \<Rightarrow> compareReferencePositions (sq_end x) (sq_end y)
      | _ \<Rightarrow> 0)"

definition compareSequenceIntervalStarts :: "TInterval \<Rightarrow> TInterval \<Rightarrow> int" where
  "compareSequenceIntervalStarts a b =
     (case (a, b) of
        (SeqInterval x, SeqInterval y) \<Rightarrow> compareReferencePositions (sq_start x) (sq_start y)
      | _ \<Rightarrow> 0)"

definition compareIntervalEnds :: "TInterval \<Rightarrow> TInterval \<Rightarrow> int" where
  "compareIntervalEnds a b =
     (case (a, b) of
        (NumericInterval x, NumericInterval y) \<Rightarrow> iv_end x - iv_end y
      | _ \<Rightarrow> 0)"

definition compareIntervalStarts :: "TInterval \<Rightarrow> TInterval \<Rightarrow> int" where
  "compareIntervalStarts a b =
     (case (a, b) of
        (NumericInterval x, NumericInterval y) \<Rightarrow> iv_start x - iv_start y
      | _ \<Rightarrow> 0)"

definition sequenceIntervalHelpers :: IIntervalHelpers where
  "sequenceIntervalHelpers =
     \<lparr> compareEnds = compareSequenceIntervalEnds,
       compareStarts = Some compareSequenceIntervalStarts,
       create = (\<lambda>label start end' client intervalType op' fromSnapshot stickiness.
                   case client of
                     None \<Rightarrow> Inl (TypeError ''client'')
                   | Some c \<Rightarrow>
                       bindE (createSequenceInterval label start end' c intervalType op'
                                fromSnapshot stickiness)
                         (\<lambda>s. Inr (SeqInterval s))) \<rparr>"

definition intervalHelpers :: IIntervalHelpers where
  "intervalHelpers =
     \<lparr> compareEnds = compareIntervalEnds,
       compareStarts = Some compareIntervalStarts,
       create = (\<lambda>label start end' client intervalType op' fromSnapshot stickiness.
                   Inr (NumericInterval (createInterval label start end'))) \<rparr>"

text \<open>The helpers of \<^verbatim>\<open>IntervalCollectionFactory.load\<close> and \<^verbatim>\<open>createIntervalIndex\<close>.\<close>

definition intervalFactoryHelpers :: IIntervalHelpers where
  "intervalFactoryHelpers =
     \<lparr> compareEnds = compareIntervalEnds,
       compareStarts = None,
       create = (\<lambda>label start end' client intervalType op' fromSnapshot stickiness.
                   Inr (NumericInterval (createInterval label start end'))) \<rparr>"

section \<open>Indexes\<close>

subsection \<open>The ordered tree\<close>

text \<open>
  Modelled from the spec: the red-black tree of the merge-tree package, an ordered map
  that holds one entry per key of the comparator it is built with ("red-black tree keyed
  by \<open>compareEnds\<close>"). The model keeps the entries in ascending order: \<open>rbRemove\<close> takes
  out the entry of the key, \<open>rbPut\<close> replaces it, \<open>rbMapRange\<close> visits the entries
  from \<open>lo\<close> to \<open>hi\<close>. A comparator that throws makes the operation throw.
\<close>

fun rbRemove :: "('a \<Rightarrow> 'a \<Rightarrow> error + int) \<Rightarrow> 'a \<Rightarrow> 'a list \<Rightarrow> error + 'a list" where
  "rbRemove cmp k [] = Inr []"
| "rbRemove cmp k (x # xs) =
     bindE (cmp k x) (\<lambda>c.
       bindE (rbRemove cmp k xs) (\<lambda>r. Inr (if c = 0 then r else x # r)))"

fun rbInsert :: "('a \<Rightarrow> 'a \<Rightarrow> error + int) \<Rightarrow> 'a \<Rightarrow> 'a list \<Rightarrow> error + 'a list" where
  "rbInsert cmp k [] = Inr [k]"
| "rbInsert cmp k (x # xs) =
     bindE (cmp k x) (\<lambda>c.
       if c < 0 then Inr (k # x # xs)
       else bindE (rbInsert cmp k xs) (\<lambda>r. Inr (x # r)))"

definition rbPut :: "('a \<Rightarrow> 'a \<Rightarrow> error + int) \<Rightarrow> 'a \<Rightarrow> 'a list \<Rightarrow> error + 'a list" where
  "rbPut cmp k xs = bindE (rbRemove cmp k xs) (rbInsert cmp k)"

fun rbMapRange ::
  "('a \<Rightarrow> 'a \<Rightarrow> error + int) \<Rightarrow> 'a \<Rightarrow> 'a \<Rightarrow> 'a list \<Rightarrow> error + 'a list" where
  "rbMapRange cmp lo hi [] = Inr []"
| "rbMapRange cmp lo hi (x # xs) =
     bindE (cmp lo x) (\<lambda>c1.
       bindE (cmp x hi) (\<lambda>c2.
         bindE (rbMapRange cmp lo hi xs) (\<lambda>r.
           Inr (if c1 \<le> 0 \<and> c2 \<le> 0 then x # r else r))))"

subsection \<open>Id index\<close>

text \<open>
  The \<^verbatim>\<open>Map\<close> from id to interval. \<open>add\<close> makes the id property of the interval it is
  given non-writable: the interval after the call is part of the result.
\<close>

type_synonym IdIntervalIndex = "string \<rightharpoonup> TInterval"

definition IdIntervalIndex_add ::
  "TInterval \<Rightarrow> IdIntervalIndex \<Rightarrow> error + (TInterval \<times> IdIntervalIndex)" where
  "IdIntervalIndex_add interval intervalIdMap =
     bindE (getIntervalId interval) (\<lambda>id.
       let interval' = setIntervalProperties interval
                         (defineNonWritable (intervalProperties interval) reservedIntervalIdKey)
       in Inr (interval', intervalIdMap(id \<mapsto> interval')))"

definition IdIntervalIndex_remove :: "TInterval \<Rightarrow> IdIntervalIndex \<Rightarrow> error + IdIntervalIndex" where
  "IdIntervalIndex_remove interval intervalIdMap =
     bindE (getIntervalId interval) (\<lambda>id. Inr (intervalIdMap(id := None)))"

text \<open>\<^verbatim>\<open>getIntervalById(id)\<close>: the keys of the map are strings, \<open>id\<close> is any value.\<close>

definition IdIntervalIndex_getIntervalById :: "IdIntervalIndex \<Rightarrow> jsval \<Rightarrow> TInterval option" where
  "IdIntervalIndex_getIntervalById intervalIdMap id' =
     (case id' of JStr s \<Rightarrow> intervalIdMap s | _ \<Rightarrow> None)"

subsection \<open>Endpoint index\<close>

definition EndpointIndex_add ::
  "IIntervalHelpers \<Rightarrow> TInterval \<Rightarrow> TInterval list \<Rightarrow> error + TInterval list" where
  "EndpointIndex_add helpers interval endIntervalTree =
     rbPut (\<lambda>a b. Inr (compareEnds helpers a b)) interval endIntervalTree"

definition EndpointIndex_remove ::
  "IIntervalHelpers \<Rightarrow> TInterval \<Rightarrow> TInterval list \<Rightarrow> error + TInterval list" where
  "EndpointIndex_remove helpers interval endIntervalTree =
     rbRemove (\<lambda>a b. Inr (compareEnds helpers a b)) interval endIntervalTree"

subsection \<open>Overlapping intervals index\<close>

text \<open>
  Modelled from the spec: the overlap index made by \<^verbatim>\<open>createOverlappingIntervalsIndex\<close>, an
  "interval-tree keyed by (start, end)" with the id as tie-break: its key order is the
  \<^verbatim>\<open>compare\<close> method of the intervals.
\<close>

definition OverlappingIntervalsIndex_add :: "TInterval \<Rightarrow> TInterval list \<Rightarrow> error + TInterval list" where
  "OverlappingIntervalsIndex_add interval intervalTree = rbPut intervalCompare interval intervalTree"

definition OverlappingIntervalsIndex_remove ::
  "TInterval \<Rightarrow> TInterval list \<Rightarrow> error + TInterval list" where
  "OverlappingIntervalsIndex_remove interval intervalTree = rbRemove intervalCompare interval intervalTree"

subsection \<open>Endpoint-in-range and startpoint-in-range indexes\<close>

definition intervalForceCompare :: "TInterval \<Rightarrow> int option" where
  "intervalForceCompare interval =
     (case interval of
        NumericInterval i \<Rightarrow> iv_forceCompare i
      | SeqInterval s \<Rightarrow> sq_forceCompare s)"

definition setForceCompare :: "TInterval \<Rightarrow> int \<Rightarrow> TInterval" where
  "setForceCompare interval v =
     (case interval of
        NumericInterval i \<Rightarrow> NumericInterval (i\<lparr> iv_forceCompare := Some v \<rparr>)
      | SeqInterval s \<Rightarrow> SeqInterval (s\<lparr> sq_forceCompare := Some v \<rparr>))"

definition compareOverrideables :: "TInterval \<Rightarrow> TInterval \<Rightarrow> int" where
  "compareOverrideables a b =
     (let forceCompareA = (case intervalForceCompare a of None \<Rightarrow> 0 | Some v \<Rightarrow> v);
          forceCompareB = (case intervalForceCompare b of None \<Rightarrow> 0 | Some v \<Rightarrow> v)
      in forceCompareA - forceCompareB)"

text \<open>
  Modelled from the spec: \<^verbatim>\<open>aId.localeCompare(bId)\<close>, the "id lexicographic ordering"
  that is the last tie-break of the range indexes.
\<close>

definition localeCompare :: "string \<Rightarrow> string \<Rightarrow> int" where
  "localeCompare a b = (if a < b then - 1 else if a = b then 0 else 1)"

definition EndpointInRangeIndex_compare ::
  "IIntervalHelpers \<Rightarrow> TInterval \<Rightarrow> TInterval \<Rightarrow> error + int" where
  "EndpointInRangeIndex_compare helpers a b =
     (let compareEndsResult = compareEnds helpers a b in
      if compareEndsResult \<noteq> 0 then Inr compareEndsResult
      else
        (let overrideablesComparison = compareOverrideables a b in
         if overrideablesComparison \<noteq> 0 then Inr overrideablesComparison
         else
           bindE (getIntervalId a) (\<lambda>aId.
             bindE (getIntervalId b) (\<lambda>bId. Inr (localeCompare aId bId)))))"

definition StartpointInRangeIndex_compare ::
  "IIntervalHelpers \<Rightarrow> TInterval \<Rightarrow> TInterval \<Rightarrow> error + int" where
  "StartpointInRangeIndex_compare helpers a b =
     (case compareStarts helpers of
        None \<Rightarrow> Inl (AssertionError ''0x6d1'')
      | Some compareStarts' \<Rightarrow>
          (let compareStartsResult = compareStarts' a b in
           if compareStartsResult \<noteq> 0 then Inr compareStartsResult
           else
             (let overrideablesComparison = compareOverrideables a b in
              if overrideablesComparison \<noteq> 0 then Inr overrideablesComparison
              else
                bindE (getIntervalId a) (\<lambda>aId.
                  bindE (getIntervalId b) (\<lambda>bId. Inr (localeCompare aId bId))))))"

text \<open>
  The range queries. The result is the array of intervals together with the number of
  traversals of the tree (calls of \<^verbatim>\<open>mapRange\<close>) the query has made.
\<close>

definition findIntervalsWithEndpointInRange ::
  "IIntervalHelpers \<Rightarrow> Client option \<Rightarrow> TInterval list \<Rightarrow> int \<Rightarrow> int \<Rightarrow>
   error + (TInterval list \<times> nat)" where
  "findIntervalsWithEndpointInRange helpers client intervalTree start end' =
     (if start \<le> 0 \<or> start > end' \<or> intervalTree = [] then Inr ([], 0)
      else
        bindE (create helpers ''transient'' start start client IntervalType_Transient None None None)
          (\<lambda>transientStartInterval.
        bindE (create helpers ''transient'' end' end' client IntervalType_Transient None None None)
          (\<lambda>transientEndInterval.
        bindE (rbMapRange (EndpointInRangeIndex_compare helpers)
                 (setForceCompare transientStartInterval (- 1))
                 (setForceCompare transientEndInterval 1) intervalTree)
          (\<lambda>results. Inr (results, 1)))))"

definition findIntervalsWithStartpointInRange ::
  "IIntervalHelpers \<Rightarrow> Client option \<Rightarrow> TInterval list \<Rightarrow> int \<Rightarrow> int \<Rightarrow>
   error + (TInterval list \<times> nat)" where
  "findIntervalsWithStartpointInRange helpers client intervalTree start end' =
     (if start \<le> 0 \<or> start > end' \<or> intervalTree = [] then Inr ([], 0)
      else
        bindE (create helpers ''transient'' start start client IntervalType_Transient None None None)
          (\<lambda>transientStartInterval.
        bindE (create helpers ''transient'' end' end' client IntervalType_Transient None None None)
          (\<lambda>transientEndInterval.
        bindE (rbMapRange (StartpointInRangeIndex_compare helpers)
                 (setForceCompare transientStartInterval (- 1))
                 (setForceCompare transientEndInterval 1) intervalTree)
          (\<lambda>results. Inr (results, 1)))))"

text \<open>
  The indexes an application attaches to a collection: the two implementations of
  \<^verbatim>\<open>IntervalIndex\<close> that this file offers, each with its tree.
\<close>

datatype AttachedIndex =
    EndpointInRangeIndex "TInterval list"
  | StartpointInRangeIndex "TInterval list"

definition AttachedIndex_entries :: "AttachedIndex \<Rightarrow> TInterval list" where
  "AttachedIndex_entries index = (case index of EndpointInRangeIndex t \<Rightarrow> t | StartpointInRangeIndex t \<Rightarrow> t)"

definition AttachedIndex_add ::
  "IIntervalHelpers \<Rightarrow> TInterval \<Rightarrow> AttachedIndex \<Rightarrow> error + AttachedIndex" where
  "AttachedIndex_add helpers interval index =
     (case index of
        EndpointInRangeIndex t \<Rightarrow>
          bindE (rbPut (EndpointInRangeIndex_compare helpers) interval t)
            (\<lambda>t'. Inr (EndpointInRangeIndex t'))
      | StartpointInRangeIndex t \<Rightarrow>
          bindE (rbPut (StartpointInRangeIndex_compare helpers) interval t)
            (\<lambda>t'. Inr (StartpointInRangeIndex t')))"

definition AttachedIndex_remove ::
  "IIntervalHelpers \<Rightarrow> TInterval \<Rightarrow> AttachedIndex \<Rightarrow> error + AttachedIndex" where
  "AttachedIndex_remove helpers interval index =
     (case index of
        EndpointInRangeIndex t \<Rightarrow>
          bindE (rbRemove (EndpointInRangeIndex_compare helpers) interval t)
            (\<lambda>t'. Inr (EndpointInRangeIndex t'))
      | StartpointInRangeIndex t \<Rightarrow>
          bindE (rbRemove (StartpointInRangeIndex_compare helpers) interval t)
            (\<lambda>t'. Inr (StartpointInRangeIndex t')))"

text \<open>A loop over the attached indexes that stops at the first exception.\<close>

fun mapE :: "('a \<Rightarrow> error + 'b) \<Rightarrow> 'a list \<Rightarrow> error + 'b list" where
  "mapE f [] = Inr []"
| "mapE f (x # xs) = bindE (f x) (\<lambda>y. bindE (mapE f xs) (\<lambda>ys. Inr (y # ys)))"

section \<open>The local interval collection\<close>

text \<open>
  \<open>lc_attachedIndexes\<close> are the indexes appended to the three built-in ones, in the order
  of the \<^verbatim>\<open>indexes\<close> set. \<open>lc_onPositionChange\<close> says whether the collection was given
  the callback; \<open>lc_positionChanges\<close> lists its invocations, oldest first. The client is
  the one of the owning collection and is passed to the operations that use it.
\<close>

record LocalIntervalCollection =
  lc_label :: string
  lc_helpers :: IIntervalHelpers
  lc_overlappingIntervalsIndex :: "TInterval list"
  lc_idIntervalIndex :: IdIntervalIndex
  lc_endIntervalIndex :: "TInterval list"
  lc_attachedIndexes :: "AttachedIndex list"
  lc_onPositionChange :: bool
  lc_positionChanges :: "(TInterval \<times> TInterval) list"

definition newLocalIntervalCollection ::
  "string \<Rightarrow> IIntervalHelpers \<Rightarrow> bool \<Rightarrow> LocalIntervalCollection" where
  "newLocalIntervalCollection label helpers onPositionChange =
     \<lparr> lc_label = label, lc_helpers = helpers, lc_overlappingIntervalsIndex = [],
       lc_idIntervalIndex = Map.empty, lc_endIntervalIndex = [], lc_attachedIndexes = [],
       lc_onPositionChange = onPositionChange, lc_positionChanges = [] \<rparr>"

text \<open>
  An interval is one object that every index refers to. When the source changes that
  object in place while the indexes hold it, the model writes the new value of the
  object back to where the old value is stored.
\<close>

definition replaceObject :: "'a \<Rightarrow> 'a \<Rightarrow> 'a list \<Rightarrow> 'a list" where
  "replaceObject old new xs = map (\<lambda>e. if e = old then new else e) xs"

definition AttachedIndex_writeBack :: "TInterval \<Rightarrow> TInterval \<Rightarrow> AttachedIndex \<Rightarrow> AttachedIndex" where
  "AttachedIndex_writeBack old new index =
     (case index of
        EndpointInRangeIndex t \<Rightarrow> EndpointInRangeIndex (replaceObject old new t)
      | StartpointInRangeIndex t \<Rightarrow> StartpointInRangeIndex (replaceObject old new t))"

definition writeBack ::
  "TInterval \<Rightarrow> TInterval \<Rightarrow> LocalIntervalCollection \<Rightarrow> LocalIntervalCollection" where
  "writeBack old new lc =
     lc\<lparr> lc_overlappingIntervalsIndex := replaceObject old new (lc_overlappingIntervalsIndex lc),
         lc_idIntervalIndex := (\<lambda>k. map_option (\<lambda>e. if e = old then new else e) (lc_idIntervalIndex lc k)),
         lc_endIntervalIndex := replaceObject old new (lc_endIntervalIndex lc),
         lc_attachedIndexes := map (AttachedIndex_writeBack old new) (lc_attachedIndexes lc) \<rparr>"

definition removeIntervalFromIndexes ::
  "LocalIntervalCollection \<Rightarrow> TInterval \<Rightarrow> error + LocalIntervalCollection" where
  "removeIntervalFromIndexes lc interval =
     bindE (OverlappingIntervalsIndex_remove interval (lc_overlappingIntervalsIndex lc)) (\<lambda>ov.
     bindE (IdIntervalIndex_remove interval (lc_idIntervalIndex lc)) (\<lambda>idm.
     bindE (EndpointIndex_remove (lc_helpers lc) interval (lc_endIntervalIndex lc)) (\<lambda>en.
     bindE (mapE (AttachedIndex_remove (lc_helpers lc) interval) (lc_attachedIndexes lc)) (\<lambda>att.
       Inr (lc\<lparr> lc_overlappingIntervalsIndex := ov, lc_idIntervalIndex := idm,
                 lc_endIntervalIndex := en, lc_attachedIndexes := att \<rparr>)))))"

definition appendIndex :: "LocalIntervalCollection \<Rightarrow> AttachedIndex \<Rightarrow> LocalIntervalCollection" where
  "appendIndex lc index = lc\<lparr> lc_attachedIndexes := lc_attachedIndexes lc @ [index] \<rparr>"

definition removeIntervalListeners :: "TInterval \<Rightarrow> TInterval" where
  "removeIntervalListeners interval =
     (case interval of
        SeqInterval s \<Rightarrow> SeqInterval (removePositionChangeListeners s)
      | NumericInterval i \<Rightarrow> interval)"

text \<open>
  \<^verbatim>\<open>removeExistingInterval\<close>: the result is the interval after the call (its listeners
  are gone) and the collection.
\<close>

definition removeExistingInterval ::
  "LocalIntervalCollection \<Rightarrow> TInterval \<Rightarrow> error + (TInterval \<times> LocalIntervalCollection)" where
  "removeExistingInterval lc interval =
     bindE (removeIntervalFromIndexes lc interval) (\<lambda>lc'.
       Inr (removeIntervalListeners interval, lc'))"

definition LocalIntervalCollection_createInterval ::
  "Client option \<Rightarrow> LocalIntervalCollection \<Rightarrow> int \<Rightarrow> int \<Rightarrow> int \<Rightarrow>
   ISequencedDocumentMessage option \<Rightarrow> IntervalStickiness option \<Rightarrow> error + TInterval" where
  "LocalIntervalCollection_createInterval client lc start end' intervalType op' stickinessArg =
     (let stickiness = (case stickinessArg of None \<Rightarrow> END | Some s \<Rightarrow> s) in
      create (lc_helpers lc) (lc_label lc) start end' client intervalType op' None (Some stickiness))"

definition linkEndpointsToInterval :: "TInterval \<Rightarrow> TInterval" where
  "linkEndpointsToInterval interval =
     (case interval of
        SeqInterval s \<Rightarrow>
          (let backRef = \<lparr> vals = [''interval'' \<mapsto>
                               JBackRef (getProp (Some (sq_properties s)) reservedIntervalIdKey)],
                           nonWritable = {} \<rparr>
           in SeqInterval (s\<lparr> sq_start := refAddProperties (sq_start s) backRef,
                                sq_end := refAddProperties (sq_end s) backRef \<rparr>))
      | NumericInterval i \<Rightarrow> interval)"

text \<open>
  \<^verbatim>\<open>addIntervalToIndexes\<close>: the loop over the \<^verbatim>\<open>indexes\<close> set, in its order (overlapping,
  id, endpoint, then the attached ones). The id index marks the id of the interval
  non-writable; the result is the interval after the loop and the collection.
\<close>

definition addIntervalToIndexes ::
  "LocalIntervalCollection \<Rightarrow> TInterval \<Rightarrow> error + (TInterval \<times> LocalIntervalCollection)" where
  "addIntervalToIndexes lc interval =
     bindE (OverlappingIntervalsIndex_add interval (lc_overlappingIntervalsIndex lc)) (\<lambda>ov.
     bindE (IdIntervalIndex_add interval (lc_idIntervalIndex lc)) (\<lambda>(interval', idm).
     bindE (EndpointIndex_add (lc_helpers lc) interval' (lc_endIntervalIndex lc)) (\<lambda>en.
     bindE (mapE (AttachedIndex_add (lc_helpers lc) interval') (lc_attachedIndexes lc)) (\<lambda>att.
       Inr (interval',
            lc\<lparr> lc_overlappingIntervalsIndex := replaceObject interval interval' ov,
                lc_idIntervalIndex := idm, lc_endIntervalIndex := en,
                lc_attachedIndexes := att \<rparr>)))))"

definition addIntervalListeners :: "TInterval \<Rightarrow> TInterval" where
  "addIntervalListeners interval =
     (case interval of
        SeqInterval s \<Rightarrow> SeqInterval (addPositionChangeListeners s)
      | NumericInterval i \<Rightarrow> interval)"

text \<open>\<^verbatim>\<open>LocalIntervalCollection.add(interval)\<close>\<close>

definition LocalIntervalCollection_add ::
  "LocalIntervalCollection \<Rightarrow> TInterval \<Rightarrow> error + (TInterval \<times> LocalIntervalCollection)" where
  "LocalIntervalCollection_add lc interval =
     (let linked = linkEndpointsToInterval interval in
      bindE (addIntervalToIndexes lc linked) (\<lambda>(indexed, lc1).
        let listened = addIntervalListeners indexed
        in Inr (listened, writeBack indexed listened lc1)))"

text \<open>\<^verbatim>\<open>v[0]\<close> for a value \<open>v\<close> that is not \<^verbatim>\<open>undefined\<close>.\<close>

definition jsIndex0 :: "jsval \<Rightarrow> error + jsval" where
  "jsIndex0 v =
     (case v of
        JArr (x # xs) \<Rightarrow> Inr x
      | JStr (c # cs) \<Rightarrow> Inr (JStr [c])
      | JNull \<Rightarrow> Inl (TypeError ''null'')
      | JUndefined \<Rightarrow> Inl (TypeError ''undefined'')
      | _ \<Rightarrow> Inr JUndefined)"

text \<open>
  \<^verbatim>\<open>addInterval(start, end, intervalType, props?, op?, stickiness = END)\<close>; \<open>uuid\<close> is
  the string that \<^verbatim>\<open>uuid()\<close> would draw.
\<close>

definition LocalIntervalCollection_addInterval ::
  "Client option \<Rightarrow> LocalIntervalCollection \<Rightarrow> int \<Rightarrow> int \<Rightarrow> int \<Rightarrow> PropertySet option \<Rightarrow>
   ISequencedDocumentMessage option \<Rightarrow> IntervalStickiness option \<Rightarrow> string \<Rightarrow>
   error + (TInterval \<times> LocalIntervalCollection)" where
  "LocalIntervalCollection_addInterval client lc start end' intervalType props op' stickinessArg uuid =
     (let stickiness = (case stickinessArg of None \<Rightarrow> END | Some s \<Rightarrow> s) in
      bindE (LocalIntervalCollection_createInterval client lc start end' intervalType op'
               (Some stickiness)) (\<lambda>interval.
      bindE (case props of
               None \<Rightarrow> Inr interval
             | Some p \<Rightarrow>
                 (let labels = getProp (Some p) reservedRangeLabelsKey in
                  bindE (if labels \<noteq> JUndefined
                         then bindE (jsIndex0 labels) (\<lambda>first. Inr (first \<noteq> JStr (lc_label lc)))
                         else Inr False) (\<lambda>otherCollection.
                    if otherCollection then
                      Inl (LoggingError
                        ''Adding an interval that belongs to another interval collection is not permitted'')
                    else Inr (fst (intervalAddProperties interval p False None))))) (\<lambda>interval1.
        let id = getProp (Some (intervalProperties interval1)) reservedIntervalIdKey;
            interval2 = (if id = JUndefined \<or> id = JNull
                         then setIntervalProperties interval1
                                ((intervalProperties interval1)
                                   \<lparr> vals := (vals (intervalProperties interval1))
                                               (reservedIntervalIdKey \<mapsto> JStr uuid) \<rparr>)
                         else interval1)
        in LocalIntervalCollection_add lc interval2)))"

text \<open>
  \<^verbatim>\<open>changeInterval(interval, start, end, op?, localSeq?)\<close>: the result is what the
  method returns (\<open>None\<close> for \<^verbatim>\<open>undefined\<close>) and the collection after the call.
\<close>

definition changeInterval ::
  "Client option \<Rightarrow> LocalIntervalCollection \<Rightarrow> TInterval \<Rightarrow> int option \<Rightarrow> int option \<Rightarrow>
   ISequencedDocumentMessage option \<Rightarrow> int option \<Rightarrow>
   error + (TInterval option \<times> LocalIntervalCollection)" where
  "changeInterval client lc interval start end' op' localSeq =
     bindE (intervalModify client interval (lc_label lc) start end' op' localSeq) (\<lambda>newInterval.
       case newInterval of
         None \<Rightarrow> Inr (None, lc)
       | Some n \<Rightarrow>
           bindE (removeExistingInterval lc interval) (\<lambda>(removed, lc1).
             bindE (LocalIntervalCollection_add lc1 n) (\<lambda>(n', lc2). Inr (Some n', lc2))))"

subsection \<open>Slide listeners\<close>

text \<open>
  \<^verbatim>\<open>addIntervalListeners\<close> gives a sequence interval two closures that share the
  variables \<^verbatim>\<open>previousInterval\<close> and \<^verbatim>\<open>pendingChanges\<close> and refer to the interval.
  \<open>SlideListener\<close> is that shared state: the interval as it is now, and the two variables.
\<close>

record SlideListener =
  ls_interval :: SequenceInterval
  ls_previousInterval :: "SequenceInterval option"
  ls_pendingChanges :: int

definition newSlideListener :: "SequenceInterval \<Rightarrow> SlideListener" where
  "newSlideListener interval =
     \<lparr> ls_interval = interval, ls_previousInterval = None, ls_pendingChanges = 0 \<rparr>"

definition cloneRef :: "LocalReferencePosition \<Rightarrow> LocalReferencePosition" where
  "cloneRef ref =
     (case lr_segment ref of
        None \<Rightarrow> ref
      | Some seg \<Rightarrow>
          createLocalReferencePosition seg (Some (lr_offset ref)) {Transient} (lr_properties ref)
            (Some (lr_slidingPreference ref)))"

text \<open>The first closure, \<^verbatim>\<open>beforePositionChange\<close>.\<close>

definition beforePositionChange ::
  "LocalIntervalCollection \<Rightarrow> SlideListener \<Rightarrow> error + (LocalIntervalCollection \<times> SlideListener)" where
  "beforePositionChange lc ls =
     (let ls1 = ls\<lparr> ls_pendingChanges := ls_pendingChanges ls + 1 \<rparr> in
      if ls_previousInterval ls1 = None then
        (let clone = SequenceInterval_clone (ls_interval ls1);
             previousInterval = clone\<lparr> sq_start := cloneRef (sq_start clone),
                                       sq_end := cloneRef (sq_end clone) \<rparr>
         in bindE (removeIntervalFromIndexes lc (SeqInterval (ls_interval ls1))) (\<lambda>lc'.
              Inr (lc', ls1\<lparr> ls_previousInterval := Some previousInterval \<rparr>)))
      else Inr (lc, ls1))"

text \<open>The second closure, \<^verbatim>\<open>afterPositionChange\<close>.\<close>

definition afterPositionChange ::
  "LocalIntervalCollection \<Rightarrow> SlideListener \<Rightarrow> error + (LocalIntervalCollection \<times> SlideListener)" where
  "afterPositionChange lc ls =
     (case ls_previousInterval ls of
        None \<Rightarrow> Inl (AssertionError ''0x3fa'')
      | Some previousInterval \<Rightarrow>
          (let ls1 = ls\<lparr> ls_pendingChanges := ls_pendingChanges ls - 1 \<rparr> in
           if ls_pendingChanges ls1 = 0 then
             bindE (addIntervalToIndexes lc (SeqInterval (ls_interval ls1))) (\<lambda>(interval', lc1).
               let lc2 = (if lc_onPositionChange lc1
                          then lc1\<lparr> lc_positionChanges :=
                                     lc_positionChanges lc1 @ [(interval', SeqInterval previousInterval)] \<rparr>
                          else lc1)
               in Inr (lc2, ls1\<lparr> ls_interval := (case interval' of SeqInterval s \<Rightarrow> s
                                                     | NumericInterval i \<Rightarrow> ls_interval ls1),
                                   ls_previousInterval := None \<rparr>))
           else Inr (lc, ls1)))"

text \<open>
  Modelled from the spec: the slide protocol of the sequence CRDT. "Before the slide the
  reference's \<open>beforeSlide\<close> callback fires; after the new segment is assigned its
  \<open>afterSlide\<close> fires", and "both start and end may slide in one merge-tree operation".
  A slide is a list of steps: a callback of either endpoint, or the assignment of a new
  segment and offset to the start or the end reference.
\<close>

datatype SlideStep =
    BeforeSlide
  | AssignStart "ISegment option" int
  | AssignEnd "ISegment option" int
  | AfterSlide

definition assignSegment ::
  "LocalReferencePosition \<Rightarrow> ISegment option \<Rightarrow> int \<Rightarrow> LocalReferencePosition" where
  "assignSegment ref seg off = ref\<lparr> lr_segment := seg, lr_offset := off \<rparr>"

fun slideStep ::
  "LocalIntervalCollection \<Rightarrow> SlideListener \<Rightarrow> SlideStep \<Rightarrow>
   error + (LocalIntervalCollection \<times> SlideListener)" where
  "slideStep lc ls BeforeSlide = beforePositionChange lc ls"
| "slideStep lc ls AfterSlide = afterPositionChange lc ls"
| "slideStep lc ls (AssignStart seg off) =
     Inr (lc, ls\<lparr> ls_interval := (ls_interval ls)
                     \<lparr> sq_start := assignSegment (sq_start (ls_interval ls)) seg off \<rparr> \<rparr>)"
| "slideStep lc ls (AssignEnd seg off) =
     Inr (lc, ls\<lparr> ls_interval := (ls_interval ls)
                     \<lparr> sq_end := assignSegment (sq_end (ls_interval ls)) seg off \<rparr> \<rparr>)"

fun runSlide ::
  "LocalIntervalCollection \<Rightarrow> SlideListener \<Rightarrow> SlideStep list \<Rightarrow>
   error + (LocalIntervalCollection \<times> SlideListener)" where
  "runSlide lc ls [] = Inr (lc, ls)"
| "runSlide lc ls (step # steps) =
     bindE (slideStep lc ls step) (\<lambda>(lc', ls'). runSlide lc' ls' steps)"

section \<open>The interval collection\<close>

text \<open>
  What the collection sends out: the ops given to the emitter
  (\<^verbatim>\<open>emitter.emit(opName, undefined, value, { localSeq })\<close>) and the events given to
  the listeners, with the calls of the deserializer among them.
\<close>

type_synonym EmittedOp = "string \<times> SerializedIntervalDelta \<times> int"

datatype CollectionEvent =
    AddIntervalEvent TInterval bool "ISequencedDocumentMessage option"
  | ChangeIntervalEvent TInterval TInterval bool "ISequencedDocumentMessage option" bool
  | PropertyChangedEvent TInterval "PropertySet option" bool "ISequencedDocumentMessage option"
  | DeserializeCall TInterval

record IntervalCollection =
  ic_localCollection :: "LocalIntervalCollection option"
  ic_onDeserialize :: bool
  ic_client :: "Client option"
  ic_localSeqToSerializedInterval :: "int \<rightharpoonup> SerializedIntervalDelta"
  ic_localSeqToRebasedInterval :: "int \<rightharpoonup> SerializedIntervalDelta"
  ic_pendingChangesStart :: "jsval \<rightharpoonup> SerializedIntervalDelta list"
  ic_pendingChangesEnd :: "jsval \<rightharpoonup> SerializedIntervalDelta list"
  ic_helpers :: IIntervalHelpers
  ic_requiresClient :: bool
  ic_intervalStickinessEnabled :: "bool option"
  ic_emitted :: "EmittedOp list"
  ic_events :: "CollectionEvent list"

text \<open>
  A method of the collection returns its outcome (the exception, or the value) together
  with the collection as it is when the method is left.
\<close>

type_synonym 'r outcome = "(error + 'r) \<times> IntervalCollection"

definition attached :: "IntervalCollection \<Rightarrow> bool" where
  "attached this = (ic_localCollection this \<noteq> None)"

definition getNextLocalSeq :: "IntervalCollection \<Rightarrow> int \<times> IntervalCollection" where
  "getNextLocalSeq this =
     (case ic_client this of
        Some c \<Rightarrow>
          (collabWindow_localSeq c + 1,
           this\<lparr> ic_client := Some (c\<lparr> collabWindow_localSeq := collabWindow_localSeq c + 1 \<rparr>) \<rparr>)
      | None \<Rightarrow> (0, this))"

text \<open>
  \<^verbatim>\<open>emitChange\<close>: the listeners see the previous interval with transient endpoint
  references; the reference types are restored after the emission.
\<close>

definition emitChange ::
  "IntervalCollection \<Rightarrow> TInterval \<Rightarrow> TInterval \<Rightarrow> bool \<Rightarrow> bool \<Rightarrow>
   ISequencedDocumentMessage option \<Rightarrow> IntervalCollection" where
  "emitChange this interval previousInterval local slide op' =
     (let shown = (case previousInterval of
                     SeqInterval p \<Rightarrow>
                       SeqInterval (p\<lparr> sq_start := (sq_start p)\<lparr> lr_refType := {Transient} \<rparr>,
                                        sq_end := (sq_end p)\<lparr> lr_refType := {Transient} \<rparr> \<rparr>)
                   | NumericInterval i \<Rightarrow> previousInterval)
      in this\<lparr> ic_events := ic_events this @ [ChangeIntervalEvent interval shown local op' slide] \<rparr>)"

definition IntervalCollection_getIntervalById ::
  "IntervalCollection \<Rightarrow> jsval \<Rightarrow> error + TInterval option" where
  "IntervalCollection_getIntervalById this id' =
     (case ic_localCollection this of
        None \<Rightarrow> Inl (LoggingError ''attach must be called before accessing intervals'')
      | Some lc \<Rightarrow> Inr (IdIntervalIndex_getIntervalById (lc_idIntervalIndex lc) id'))"

text \<open>
  \<^verbatim>\<open>add(start, end, intervalType, props?, stickiness = IntervalStickiness.END)\<close>; \<open>uuid\<close>
  is the string that \<^verbatim>\<open>uuid()\<close> would draw for the new interval.
\<close>

definition IntervalCollection_add ::
  "IntervalCollection \<Rightarrow> int \<Rightarrow> int \<Rightarrow> int \<Rightarrow> PropertySet option \<Rightarrow> IntervalStickiness option \<Rightarrow>
   string \<Rightarrow> TInterval outcome" where
  "IntervalCollection_add this start end' intervalType props stickinessArg uuid =
     (let stickiness = (case stickinessArg of None \<Rightarrow> END | Some s \<Rightarrow> s) in
      case ic_localCollection this of
        None \<Rightarrow> (Inl (LoggingError ''attach must be called prior to adding intervals''), this)
      | Some lc \<Rightarrow>
          if (intervalType AND IntervalType_Transient) \<noteq> 0
          then (Inl (LoggingError ''Can not add transient intervals''), this)
          else if stickiness \<noteq> END \<and> ic_intervalStickinessEnabled this \<noteq> Some True
          then (Inl (UsageError
                  ''attempted to set interval stickiness without enabling `intervalStickinessEnabled` feature flag''),
                this)
          else
            (case LocalIntervalCollection_addInterval (ic_client this) lc start end' intervalType
                    props None (Some stickiness) uuid of
               Inl e \<Rightarrow> (Inl e, this)
             | Inr (interval, lc') \<Rightarrow>
                 (let this1 = this\<lparr> ic_localCollection := Some lc' \<rparr>;
                      serializedInterval =
                        \<lparr> sd_sequenceNumber = (case ic_client this1 of None \<Rightarrow> 0
                                                | Some c \<Rightarrow> getCurrentSeq c),
                          sd_start = Some start, sd_end = Some end',
                          sd_intervalType = intervalType, sd_stickiness = Some stickiness,
                          sd_properties = Some (intervalProperties interval) \<rparr>
                  in case getNextLocalSeq this1 of
                       (localSeq, this2) \<Rightarrow>
                         (Inr interval,
                          this2\<lparr> ic_localSeqToSerializedInterval :=
                                    (ic_localSeqToSerializedInterval this2)(localSeq \<mapsto> serializedInterval),
                                  ic_emitted := ic_emitted this2 @ [(''add'', serializedInterval, localSeq)],
                                  ic_events := ic_events this2 @ [AddIntervalEvent interval True None] \<rparr>))))"

subsection \<open>Pending changes\<close>

definition addPendingChangeHelper ::
  "jsval \<Rightarrow> (jsval \<rightharpoonup> SerializedIntervalDelta list) \<Rightarrow> SerializedIntervalDelta \<Rightarrow>
   (jsval \<rightharpoonup> SerializedIntervalDelta list)" where
  "addPendingChangeHelper id' pendingChanges serializedInterval =
     pendingChanges(id' \<mapsto>
       (case pendingChanges id' of None \<Rightarrow> [] | Some entries \<Rightarrow> entries) @ [serializedInterval])"

definition addPendingChange ::
  "IntervalCollection \<Rightarrow> jsval \<Rightarrow> SerializedIntervalDelta \<Rightarrow> IntervalCollection" where
  "addPendingChange this id' serializedInterval =
     (let this1 = (if sd_start serializedInterval \<noteq> None
                   then this\<lparr> ic_pendingChangesStart :=
                                addPendingChangeHelper id' (ic_pendingChangesStart this) serializedInterval \<rparr>
                   else this)
      in if sd_end serializedInterval \<noteq> None
         then this1\<lparr> ic_pendingChangesEnd :=
                       addPendingChangeHelper id' (ic_pendingChangesEnd this1) serializedInterval \<rparr>
         else this1)"

text \<open>
  \<^verbatim>\<open>removePendingChangeHelper\<close>: the map after the call, and whether the call throws
  "Mismatch in pending changes".
\<close>

definition removePendingChangeHelper ::
  "jsval \<Rightarrow> (jsval \<rightharpoonup> SerializedIntervalDelta list) \<Rightarrow> SerializedIntervalDelta \<Rightarrow>
   bool \<times> (jsval \<rightharpoonup> SerializedIntervalDelta list)" where
  "removePendingChangeHelper id' pendingChanges serializedInterval =
     (case pendingChanges id' of
        None \<Rightarrow> (False, pendingChanges)
      | Some entries \<Rightarrow>
          (let pendingChange = (case entries of [] \<Rightarrow> None | x # xs \<Rightarrow> Some x);
               rest = tl entries;
               pendingChanges' = (if rest = [] then pendingChanges(id' := None)
                                  else pendingChanges(id' \<mapsto> rest));
               mismatch =
                 ((case pendingChange of None \<Rightarrow> None | Some p \<Rightarrow> sd_start p)
                    \<noteq> sd_start serializedInterval
                  \<or> (case pendingChange of None \<Rightarrow> None | Some p \<Rightarrow> sd_end p)
                    \<noteq> sd_end serializedInterval)
           in (mismatch, pendingChanges')))"

definition removePendingChange ::
  "IntervalCollection \<Rightarrow> SerializedIntervalDelta \<Rightarrow> error option \<times> IntervalCollection" where
  "removePendingChange this serializedInterval =
     (let id = getProp (sd_properties serializedInterval) reservedIntervalIdKey;
          r1 = (if sd_start serializedInterval \<noteq> None
                then (case removePendingChangeHelper id (ic_pendingChangesStart this) serializedInterval of
                        (mismatch, m) \<Rightarrow> (mismatch, this\<lparr> ic_pendingChangesStart := m \<rparr>))
                else (False, this))
      in if fst r1 then (Some (LoggingError ''Mismatch in pending changes''), snd r1)
         else if sd_end serializedInterval \<noteq> None
         then (case removePendingChangeHelper id (ic_pendingChangesEnd (snd r1)) serializedInterval of
                 (mismatch, m) \<Rightarrow>
                   (if mismatch then Some (LoggingError ''Mismatch in pending changes'') else None,
                    (snd r1)\<lparr> ic_pendingChangesEnd := m \<rparr>))
         else (None, snd r1))"

definition hasPendingChangeStart :: "IntervalCollection \<Rightarrow> jsval \<Rightarrow> bool" where
  "hasPendingChangeStart this id' =
     (case ic_pendingChangesStart this id' of None \<Rightarrow> False | Some entries \<Rightarrow> entries \<noteq> [])"

definition hasPendingChangeEnd :: "IntervalCollection \<Rightarrow> jsval \<Rightarrow> bool" where
  "hasPendingChangeEnd this id' =
     (case ic_pendingChangesEnd this id' of None \<Rightarrow> False | Some entries \<Rightarrow> entries \<noteq> [])"

subsection \<open>Local changes\<close>

text \<open>\<^verbatim>\<open>change(id, start?, end?)\<close>; the id is whatever value the caller passes.\<close>

definition IntervalCollection_change ::
  "IntervalCollection \<Rightarrow> jsval \<Rightarrow> int option \<Rightarrow> int option \<Rightarrow> TInterval option outcome" where
  "IntervalCollection_change this id' start end' =
     (case ic_localCollection this of
        None \<Rightarrow> (Inl (LoggingError ''Attach must be called before accessing intervals''), this)
      | Some lc \<Rightarrow>
          (case id' of
             JStr idString \<Rightarrow>
               (case IdIntervalIndex_getIntervalById (lc_idIntervalIndex lc) id' of
                  None \<Rightarrow> (Inr None, this)
                | Some interval \<Rightarrow>
                    (case changeInterval (ic_client this) lc interval start end' None None of
                       Inl e \<Rightarrow> (Inl e, this)
                     | Inr (None, lc') \<Rightarrow> (Inr None, this\<lparr> ic_localCollection := Some lc' \<rparr>)
                     | Inr (Some newInterval, lc') \<Rightarrow>
                         (let this1 = this\<lparr> ic_localCollection := Some lc' \<rparr> in
                          case intervalSerialize (ic_client this1) interval of
                            Inl e \<Rightarrow> (Inl e, this1)
                          | Inr serialized \<Rightarrow>
                              (case getIntervalId interval of
                                 Inl e \<Rightarrow> (Inl e, this1)
                               | Inr intervalId \<Rightarrow>
                                   (let serializedInterval =
                                          (asDelta serialized)\<lparr> sd_start := start, sd_end := end',
                                            sd_properties :=
                                              Some \<lparr> vals = [reservedIntervalIdKey \<mapsto> JStr intervalId],
                                                     nonWritable = {} \<rparr> \<rparr>
                                    in case getNextLocalSeq this1 of
                                         (localSeq, this2) \<Rightarrow>
                                           (let this3 =
                                                  this2\<lparr> ic_localSeqToSerializedInterval :=
                                                            (ic_localSeqToSerializedInterval this2)
                                                              (localSeq \<mapsto> serializedInterval),
                                                          ic_emitted := ic_emitted this2 @
                                                            [(''change'', serializedInterval, localSeq)] \<rparr>;
                                                this4 = addPendingChange this3 id' serializedInterval
                                            in (Inr (Some newInterval),
                                                emitChange this4 newInterval interval True False None)))))))
           | _ \<Rightarrow> (Inl (LoggingError ''Change API requires an ID that is a string''), this)))"

subsection \<open>Acknowledgement\<close>

text \<open>
  Modelled from the spec: the numbers of the enumeration \<^verbatim>\<open>SlidingPreference\<close> of the
  merge-tree package, which \<^verbatim>\<open>ackInterval\<close> passes where a local sequence number is
  expected.
\<close>

definition slidingPreferenceNumber :: "SlidingPreference \<Rightarrow> int" where
  "slidingPreferenceNumber p = (case p of BACKWARD \<Rightarrow> 0 | FORWARD \<Rightarrow> 1)"

text \<open>
  The private \<^verbatim>\<open>getSlideToSegment(lref)\<close>. A reference that has a segment is among the
  local references of that segment.
\<close>

definition IntervalCollection_getSlideToSegment ::
  "IntervalCollection \<Rightarrow> LocalReferencePosition \<Rightarrow> error + Segoff option" where
  "IntervalCollection_getSlideToSegment this lref =
     (case ic_client this of
        None \<Rightarrow> Inl (LoggingError ''client does not exist'')
      | Some c \<Rightarrow>
          (let segoff = \<lparr> so_segment = lr_segment lref, so_offset = Some (lr_offset lref) \<rparr> in
           if so_segment segoff = None then Inr None
           else
             (let newSegoff = getSlideToSegment c segoff in
              Inr (if so_segment segoff = so_segment newSegoff \<and> so_offset segoff = so_offset newSegoff
                   then None else Some newSegoff))))"

definition setSlideOnRemove :: "LocalReferencePosition \<Rightarrow> LocalReferencePosition" where
  "setSlideOnRemove lref =
     lref\<lparr> lr_refType := insert SlideOnRemove (lr_refType lref - {StayOnRemove}) \<rparr>"

text \<open>
  \<^verbatim>\<open>ackInterval(interval, op)\<close>. The interval is changed in place while the indexes
  hold it; where the source does not take it out of the indexes first, the model writes
  its new value back.
\<close>

definition ackInterval ::
  "IntervalCollection \<Rightarrow> TInterval \<Rightarrow> ISequencedDocumentMessage \<Rightarrow> unit outcome" where
  "ackInterval this interval op' =
     (case interval of
        NumericInterval i \<Rightarrow> (Inr (), this)
      | SeqInterval s \<Rightarrow>
          if \<not> refTypeIncludesFlag (lr_refType (sq_start s)) StayOnRemove
             \<and> \<not> refTypeIncludesFlag (lr_refType (sq_end s)) StayOnRemove
          then (Inr (), this)
          else
            (case IntervalCollection_getSlideToSegment this (sq_start s) of
               Inl e \<Rightarrow> (Inl e, this)
             | Inr newStart \<Rightarrow>
            (case IntervalCollection_getSlideToSegment this (sq_end s) of
               Inl e \<Rightarrow> (Inl e, this)
             | Inr newEnd \<Rightarrow>
               (let id = getProp (Some (sq_properties s)) reservedIntervalIdKey;
                    hasPendingStartChange = hasPendingChangeStart this id;
                    hasPendingEndChange = hasPendingChangeEnd this id;
                    s1 = (if \<not> hasPendingStartChange
                          then s\<lparr> sq_start := setSlideOnRemove (sq_start s) \<rparr> else s);
                    s2 = (if \<not> hasPendingEndChange
                          then s1\<lparr> sq_end := setSlideOnRemove (sq_end s1) \<rparr> else s1);
                    this1 = this\<lparr> ic_localCollection :=
                                     map_option (writeBack interval (SeqInterval s2))
                                       (ic_localCollection this) \<rparr>;
                    needsStartUpdate = (newStart \<noteq> None \<and> \<not> hasPendingStartChange);
                    needsEndUpdate = (newEnd \<noteq> None \<and> \<not> hasPendingEndChange)
                in
                if needsStartUpdate \<or> needsEndUpdate then
                  (case ic_localCollection this1 of
                     None \<Rightarrow>
                       (Inl (LoggingError ''Attach must be called before accessing intervals''), this1)
                   | Some lc \<Rightarrow>
                       (let oldInterval = SequenceInterval_clone s2 in
                        case removeExistingInterval lc (SeqInterval s2) of
                          Inl e \<Rightarrow> (Inl e, this1)
                        | Inr (removed, lc1) \<Rightarrow>
                            (let this2 = this1\<lparr> ic_localCollection := Some lc1 \<rparr>;
                                 s3 = (case removed of SeqInterval r \<Rightarrow> r | NumericInterval n \<Rightarrow> s2)
                             in
                             case ic_client this2 of
                               None \<Rightarrow> (Inl (LoggingError ''client does not exist''), this2)
                             | Some c \<Rightarrow>
                                 (case (if needsStartUpdate then
                                          bindE (createPositionReferenceFromSegoff c
                                                   (case newStart of Some segoff \<Rightarrow> segoff
                                                    | None \<Rightarrow> \<lparr> so_segment = None, so_offset = None \<rparr>)
                                                   (lr_refType (sq_start s3)) (Some op')
                                                   (Some (slidingPreferenceNumber
                                                      (startReferenceSlidingPreference (sq_stickiness s3))))
                                                   None None)
                                            (\<lambda>ref. Inr
                                               (s3\<lparr> sq_start := (case lr_properties (sq_start s3) of
                                                                    None \<Rightarrow> ref
                                                                  | Some props \<Rightarrow> refAddProperties ref props) \<rparr>,
                                                oldInterval\<lparr> sq_start :=
                                                  (sq_start oldInterval)\<lparr> lr_refType := {Transient} \<rparr> \<rparr>))
                                        else Inr (s3, oldInterval)) of
                                    Inl e \<Rightarrow> (Inl e, this2)
                                  | Inr (s4, old1) \<Rightarrow>
                                 (case (if needsEndUpdate then
                                          bindE (createPositionReferenceFromSegoff c
                                                   (case newEnd of Some segoff \<Rightarrow> segoff
                                                    | None \<Rightarrow> \<lparr> so_segment = None, so_offset = None \<rparr>)
                                                   (lr_refType (sq_end s4)) (Some op')
                                                   (Some (slidingPreferenceNumber
                                                      (endReferenceSlidingPreference (sq_stickiness s4))))
                                                   None None)
                                            (\<lambda>ref. Inr
                                               (s4\<lparr> sq_end := (case lr_properties (sq_end s4) of
                                                                  None \<Rightarrow> ref
                                                                | Some props \<Rightarrow> refAddProperties ref props) \<rparr>,
                                                old1\<lparr> sq_end :=
                                                  (sq_end old1)\<lparr> lr_refType := {Transient} \<rparr> \<rparr>))
                                        else Inr (s4, old1)) of
                                    Inl e \<Rightarrow> (Inl e, this2)
                                  | Inr (s5, old2) \<Rightarrow>
                                      (case LocalIntervalCollection_add lc1 (SeqInterval s5) of
                                         Inl e \<Rightarrow> (Inl e, this2)
                                       | Inr (added, lc2) \<Rightarrow>
                                           (Inr (),
                                            emitChange (this2\<lparr> ic_localCollection := Some lc2 \<rparr>)
                                              added (SeqInterval old2) True True (Some op'))))))))
                else (Inr (), this1)))))"

text \<open>
  \<^verbatim>\<open>ackChange(serializedInterval, local, op, localOpMetadata)\<close>; the metadata of a local
  op is its local sequence number. The serialized interval of a change op may lack start
  and end.
\<close>

definition ackChange ::
  "IntervalCollection \<Rightarrow> SerializedIntervalDelta \<Rightarrow> bool \<Rightarrow> ISequencedDocumentMessage \<Rightarrow>
   int option \<Rightarrow> unit outcome" where
  "ackChange this serializedInterval local op' localOpMetadata =
     (case ic_localCollection this of
        None \<Rightarrow> (Inl (LoggingError ''Attach must be called before accessing intervals''), this)
      | Some lc0 \<Rightarrow>
          (case (if local then
                   (case localOpMetadata of
                      None \<Rightarrow> (Some (AssertionError ''0x552''), this)
                    | Some localSeq \<Rightarrow>
                        removePendingChange
                          (this\<lparr> ic_localSeqToSerializedInterval :=
                                   (ic_localSeqToSerializedInterval this)(localSeq := None) \<rparr>)
                          serializedInterval)
                 else (None, this)) of
             (Some e, this1) \<Rightarrow> (Inl e, this1)
           | (None, this1) \<Rightarrow>
               (let props = (case sd_properties serializedInterval of None \<Rightarrow> emptyProps | Some p \<Rightarrow> p);
                    id = getProp (Some props) reservedIntervalIdKey;
                    newProps = \<lparr> vals = (vals props)(reservedIntervalIdKey := None), nonWritable = {} \<rparr>
                in
                if id = JUndefined then (Inl (AssertionError ''0x3fe''), this1)
                else
                  (case IdIntervalIndex_getIntervalById (lc_idIntervalIndex lc0) id of
                     None \<Rightarrow> (Inr (), this1)
                   | Some interval \<Rightarrow>
                       if local then
                         (let acked = setIntervalPropertyManager interval
                                        (ackPendingProperties (intervalPropertyManager interval) props);
                              this2 = this1\<lparr> ic_localCollection := Some (writeBack interval acked lc0) \<rparr>
                          in ackInterval this2 acked op')
                       else
                         (let start = (if \<not> hasPendingChangeStart this1 id
                                       then sd_start serializedInterval else None);
                              end' = (if \<not> hasPendingChangeEnd this1 id
                                      then sd_end serializedInterval else None)
                          in
                          case (if start \<noteq> None \<or> end' \<noteq> None
                                then changeInterval (ic_client this1) lc0 interval start end' (Some op') None
                                else Inr (None, lc0)) of
                            Inl e \<Rightarrow> (Inl e, this1)
                          | Inr (changed, lc1) \<Rightarrow>
                              (let newInterval = (case changed of None \<Rightarrow> interval | Some n \<Rightarrow> n) in
                               case intervalAddProperties newInterval newProps True (Some (sequenceNumber op')) of
                                 (newInterval', deltaProps) \<Rightarrow>
                                   (let this2 = this1\<lparr> ic_localCollection :=
                                                         Some (writeBack newInterval newInterval' lc1) \<rparr>;
                                        this3 = (if ic_onDeserialize this2
                                                 then this2\<lparr> ic_events := ic_events this2 @
                                                                [DeserializeCall newInterval'] \<rparr>
                                                 else this2);
                                        this4 = (if changed \<noteq> None
                                                 then emitChange this3 newInterval' interval local False (Some op')
                                                 else this3);
                                        changedProperties = (dom (vals newProps) \<noteq> {})
                                    in (Inr (),
                                        if changedProperties
                                        then this4\<lparr> ic_events := ic_events this4 @
                                                      [PropertyChangedEvent
                                                         (if changed \<noteq> None then interval else newInterval')
                                                         deltaProps local (Some op')] \<rparr>
                                        else this4))))))))"

subsection \<open>Rebasing\<close>

definition rebasePositionWithSegmentSlide ::
  "IntervalCollection \<Rightarrow> int \<Rightarrow> int \<Rightarrow> int \<Rightarrow> error + int" where
  "rebasePositionWithSegmentSlide this pos seqNumberFrom localSeq =
     (case ic_client this of
        None \<Rightarrow> Inl (LoggingError ''mergeTree client must exist'')
      | Some c \<Rightarrow>
          (let segoff0 = getContainingSegment c pos
                           (Some \<lparr> p_referenceSequenceNumber = seqNumberFrom,
                                   p_clientId = getLongClientId c (collabWindow_clientId c) \<rparr>)
                           (Some localSeq)
           in case so_segment segoff0 of
                None \<Rightarrow> Inl (AssertionError ''0x54e'')
              | Some seg \<Rightarrow>
                  (let segoff = getSlideToSegment c segoff0 in
                   case (so_segment segoff, so_offset segoff) of
                     (Some seg', Some off') \<Rightarrow>
                       (case so_offset segoff0 of
                          None \<Rightarrow> Inl (AssertionError ''0x54f'')
                        | Some off \<Rightarrow>
                            if 0 \<le> off \<and> off < cachedLength seg
                            then Inr (findReconnectionPosition c seg' localSeq + off')
                            else Inl (AssertionError ''0x54f''))
                   | _ \<Rightarrow> Inr DetachedReferencePosition)))"

definition computeRebasedPositions ::
  "IntervalCollection \<Rightarrow> int \<Rightarrow> error + SerializedIntervalDelta" where
  "computeRebasedPositions this localSeq =
     (if ic_client this = None then Inl (AssertionError ''0x550'')
      else
        (case ic_localSeqToSerializedInterval this localSeq of
           None \<Rightarrow> Inl (AssertionError ''0x551'')
         | Some original \<Rightarrow>
             bindE (case sd_start original of
                      None \<Rightarrow> Inr original
                    | Some start \<Rightarrow>
                        bindE (rebasePositionWithSegmentSlide this start (sd_sequenceNumber original) localSeq)
                          (\<lambda>p. Inr (original\<lparr> sd_start := Some p \<rparr>))) (\<lambda>rebased.
               case sd_end original of
                 None \<Rightarrow> Inr rebased
               | Some end' \<Rightarrow>
                   bindE (rebasePositionWithSegmentSlide this end' (sd_sequenceNumber original) localSeq)
                     (\<lambda>p. Inr (rebased\<lparr> sd_end := Some p \<rparr>)))))"

text \<open>
  \<^verbatim>\<open>rebaseLocalInterval(opName, serializedInterval, localSeq)\<close>: \<open>None\<close> is the
  \<^verbatim>\<open>undefined\<close> that drops the op.
\<close>

definition rebaseLocalInterval ::
  "IntervalCollection \<Rightarrow> string \<Rightarrow> SerializedIntervalDelta \<Rightarrow> int \<Rightarrow>
   SerializedIntervalDelta option outcome" where
  "rebaseLocalInterval this opName serializedInterval localSeq =
     (case ic_client this of
        None \<Rightarrow> (Inr (Some serializedInterval), this)
      | Some c \<Rightarrow>
          (case ic_localCollection this of
             None \<Rightarrow> (Inl (LoggingError ''attachSequence must be called''), this)
           | Some lc \<Rightarrow>
               (case (case ic_localSeqToRebasedInterval this localSeq of
                        Some r \<Rightarrow> Inr r
                      | None \<Rightarrow> computeRebasedPositions this localSeq) of
                  Inl e \<Rightarrow> (Inl e, this)
                | Inr positions \<Rightarrow>
                    (let startRebased = sd_start positions;
                         endRebased = sd_end positions;
                         intervalId = getProp (sd_properties serializedInterval) reservedIntervalIdKey;
                         localInterval = IdIntervalIndex_getIntervalById (lc_idIntervalIndex lc) intervalId;
                         rebased = \<lparr> sd_sequenceNumber = getCurrentSeq c,
                                     sd_start = startRebased, sd_end = endRebased,
                                     sd_intervalType = sd_intervalType serializedInterval,
                                     sd_stickiness = None,
                                     sd_properties = sd_properties serializedInterval \<rparr>
                     in
                     case (if opName = ''change''
                              \<and> (hasPendingChangeStart this intervalId \<or> hasPendingChangeEnd this intervalId)
                           then (case removePendingChange this serializedInterval of
                                   (Some e, this1) \<Rightarrow> (Some e, this1)
                                 | (None, this1) \<Rightarrow> (None, addPendingChange this1 intervalId rebased))
                           else (None, this)) of
                       (Some e, this1) \<Rightarrow> (Inl e, this1)
                     | (None, this1) \<Rightarrow>
                         if startRebased = Some DetachedReferencePosition
                            \<or> endRebased = Some DetachedReferencePosition
                         then
                           (case localInterval of
                              None \<Rightarrow> (Inr None, this1)
                            | Some interval \<Rightarrow>
                                (case removeExistingInterval lc interval of
                                   Inl e \<Rightarrow> (Inl e, this1)
                                 | Inr (removed, lc') \<Rightarrow>
                                     (Inr None, this1\<lparr> ic_localCollection := Some lc' \<rparr>)))
                         else
                           (case localInterval of
                              None \<Rightarrow> (Inr (Some rebased), this1)
                            | Some interval \<Rightarrow>
                                (case interval of
                                   NumericInterval i \<Rightarrow> (Inl (AssertionError ''0x3a0''), this1)
                                 | SeqInterval s \<Rightarrow>
                                     (case changeInterval (ic_client this1) lc interval startRebased
                                             endRebased None (Some localSeq) of
                                        Inl e \<Rightarrow> (Inl e, this1)
                                      | Inr (changed, lc') \<Rightarrow>
                                          (Inr (Some rebased),
                                           this1\<lparr> ic_localCollection := Some lc' \<rparr>))))))))"

section \<open>Observations and a small document\<close>

text \<open>
  The sliding preferences that the stickiness of a sequence interval asks of its two
  endpoints.
\<close>

definition slidingPreferencesFollowStickiness :: "SequenceInterval \<Rightarrow> bool" where
  "slidingPreferencesFollowStickiness s =
     (lr_slidingPreference (sq_start s) = startReferenceSlidingPreference (sq_stickiness s)
      \<and> lr_slidingPreference (sq_end s) = endReferenceSlidingPreference (sq_stickiness s))"

text \<open>
  What holds of a collection between two operations: its helpers are those of its
  interval class, every interval in a tree of an index is of that class and has an id, the
  id index keeps each interval under the interval's own id, and a startpoint index is
  attached only when the helpers compare starts.
\<close>

definition hasId :: "TInterval \<Rightarrow> bool" where
  "hasId interval =
     (getProp (Some (intervalProperties interval)) reservedIntervalIdKey \<noteq> JUndefined)"

definition isSequenceInterval :: "TInterval \<Rightarrow> bool" where
  "isSequenceInterval interval = (case interval of SeqInterval s \<Rightarrow> True | NumericInterval i \<Rightarrow> False)"

definition isStartpointIndex :: "AttachedIndex \<Rightarrow> bool" where
  "isStartpointIndex index =
     (case index of StartpointInRangeIndex t \<Rightarrow> True | EndpointInRangeIndex t \<Rightarrow> False)"

definition treeEntries :: "LocalIntervalCollection \<Rightarrow> TInterval list" where
  "treeEntries lc =
     lc_overlappingIntervalsIndex lc @ lc_endIntervalIndex lc
       @ concat (map AttachedIndex_entries (lc_attachedIndexes lc))"

definition ofClass :: "bool \<Rightarrow> TInterval \<Rightarrow> bool" where
  "ofClass sequence interval = (hasId interval \<and> isSequenceInterval interval = sequence)"

definition knownHelpers :: "bool \<Rightarrow> IIntervalHelpers \<Rightarrow> bool" where
  "knownHelpers sequence helpers =
     (if sequence then helpers = sequenceIntervalHelpers
      else helpers = intervalHelpers \<or> helpers = intervalFactoryHelpers)"

definition collectionOf :: "bool \<Rightarrow> LocalIntervalCollection \<Rightarrow> bool" where
  "collectionOf sequence lc =
     (knownHelpers sequence (lc_helpers lc)
      \<and> (\<forall>x \<in> set (treeEntries lc). ofClass sequence x)
      \<and> (\<forall>k v. lc_idIntervalIndex lc k = Some v \<longrightarrow>
             getIntervalId v = Inr k \<and> isSequenceInterval v = sequence)
      \<and> (compareStarts (lc_helpers lc) = None \<longrightarrow>
           (\<forall>index \<in> set (lc_attachedIndexes lc). \<not> isStartpointIndex index)))"

text \<open>
  Two values of an interval that the comparators of the indexes cannot tell apart: the
  same endpoints, the same id and the same comparison override.
\<close>

definition sameKeys :: "TInterval \<Rightarrow> TInterval \<Rightarrow> bool" where
  "sameKeys a b =
     (case (a, b) of
        (NumericInterval x, NumericInterval y) \<Rightarrow>
          iv_start x = iv_start y \<and> iv_end x = iv_end y
          \<and> vals (iv_properties x) reservedIntervalIdKey = vals (iv_properties y) reservedIntervalIdKey
          \<and> iv_forceCompare x = iv_forceCompare y
      | (SeqInterval x, SeqInterval y) \<Rightarrow>
          lr_segment (sq_start x) = lr_segment (sq_start y)
          \<and> lr_offset (sq_start x) = lr_offset (sq_start y)
          \<and> lr_segment (sq_end x) = lr_segment (sq_end y)
          \<and> lr_offset (sq_end x) = lr_offset (sq_end y)
          \<and> vals (sq_properties x) reservedIntervalIdKey = vals (sq_properties y) reservedIntervalIdKey
          \<and> sq_forceCompare x = sq_forceCompare y
      | _ \<Rightarrow> False)"

text \<open>An interval is in no index, or in every index, exactly once in each.\<close>

definition inNoIndex :: "LocalIntervalCollection \<Rightarrow> TInterval \<Rightarrow> bool" where
  "inNoIndex lc interval =
     (interval \<notin> set (treeEntries lc)
      \<and> (\<forall>k. lc_idIntervalIndex lc k \<noteq> Some interval)
      \<and> (\<forall>k. getIntervalId interval = Inr k \<longrightarrow> lc_idIntervalIndex lc k = None))"

definition allTrees :: "(TInterval list \<Rightarrow> bool) \<Rightarrow> LocalIntervalCollection \<Rightarrow> bool" where
  "allTrees P lc =
     (P (lc_overlappingIntervalsIndex lc) \<and> P (lc_endIntervalIndex lc)
      \<and> (\<forall>index \<in> set (lc_attachedIndexes lc). P (AttachedIndex_entries index)))"

definition inEveryIndexOnce :: "LocalIntervalCollection \<Rightarrow> TInterval \<Rightarrow> bool" where
  "inEveryIndexOnce lc interval =
     (allTrees (\<lambda>entries. count_list entries interval = 1) lc
      \<and> (\<exists>k. getIntervalId interval = Inr k \<and> {k'. lc_idIntervalIndex lc k' = Some interval} = {k}))"

text \<open>
  In a tree, \<open>w\<close> is there once and no other value with the keys of \<open>w\<close> is there.
\<close>

definition once :: "TInterval list \<Rightarrow> TInterval \<Rightarrow> bool" where
  "once entries w =
     (count_list entries w = 1 \<and> (\<forall>v. sameKeys w v \<and> v \<noteq> w \<longrightarrow> count_list entries v = 0))"

text \<open>The interval as the id index leaves it: its id is non-writable.\<close>

definition withIdNonWritable :: "TInterval \<Rightarrow> TInterval" where
  "withIdNonWritable interval =
     setIntervalProperties interval
       (defineNonWritable (intervalProperties interval) reservedIntervalIdKey)"

text \<open>
  Where an endpoint of an interval is: the number of a numeric interval, the segment and
  offset of the reference of a sequence interval.
\<close>

definition startPosition :: "TInterval \<Rightarrow> ISegment option \<times> int" where
  "startPosition interval =
     (case interval of
        NumericInterval i \<Rightarrow> (None, iv_start i)
      | SeqInterval s \<Rightarrow> (lr_segment (sq_start s), lr_offset (sq_start s)))"

definition endPosition :: "TInterval \<Rightarrow> ISegment option \<times> int" where
  "endPosition interval =
     (case interval of
        NumericInterval i \<Rightarrow> (None, iv_end i)
      | SeqInterval s \<Rightarrow> (lr_segment (sq_end s), lr_offset (sq_end s)))"

text \<open>
  The position \<open>p\<close> is the one that the value \<open>v\<close> of a sequenced op \<open>op'\<close> gives to
  an endpoint: the number itself for a numeric interval, the place of the reference that
  \<open>createPositionReference\<close> makes for \<open>v\<close> at the op for a sequence interval
  (\<open>refType\<close> is the reference type of the endpoint that is replaced).
\<close>

definition appliedPosition ::
  "Client option \<Rightarrow> bool \<Rightarrow> ReferenceType set \<Rightarrow> ISequencedDocumentMessage \<Rightarrow> int \<Rightarrow>
   ISegment option \<times> int \<Rightarrow> bool" where
  "appliedPosition client sequence refType op' v p =
     (if sequence then
        (case client of
           None \<Rightarrow> False
         | Some c \<Rightarrow>
             (case createPositionReference c v refType (Some op') None None (Some FORWARD) of
                Inl e \<Rightarrow> False
              | Inr ref \<Rightarrow> p = (lr_segment ref, lr_offset ref)))
      else p = (None, v))"

definition startRefType :: "TInterval \<Rightarrow> ReferenceType set" where
  "startRefType interval =
     (case interval of NumericInterval i \<Rightarrow> {} | SeqInterval s \<Rightarrow> lr_refType (sq_start s))"

definition endRefType :: "TInterval \<Rightarrow> ReferenceType set" where
  "endRefType interval =
     (case interval of NumericInterval i \<Rightarrow> {} | SeqInterval s \<Rightarrow> lr_refType (sq_end s))"

text \<open>
  The interval as \<^verbatim>\<open>LocalIntervalCollection.add\<close> leaves it: linked to its endpoints,
  with its id non-writable and with its listeners subscribed.
\<close>

definition asAdded :: "TInterval \<Rightarrow> TInterval" where
  "asAdded interval =
     (let linked = linkEndpointsToInterval interval
      in addIntervalListeners
           (setIntervalProperties linked
              (defineNonWritable (intervalProperties linked) reservedIntervalIdKey)))"

text \<open>
  A slide burst: the steps from a first \<open>BeforeSlide\<close> to the \<open>AfterSlide\<close> that brings
  the number of after-calls up to the number of before-calls; \<open>burstFrom n\<close> are the
  steps that remain when \<open>n\<close> before-calls are not yet matched. References are assigned
  their new segments only inside the burst.
\<close>

fun burstFrom :: "nat \<Rightarrow> SlideStep list \<Rightarrow> bool" where
  "burstFrom n [] = False"
| "burstFrom n (BeforeSlide # steps) = burstFrom (Suc n) steps"
| "burstFrom n (AfterSlide # steps) =
     (case n of 0 \<Rightarrow> False | Suc m \<Rightarrow> (if m = 0 then steps = [] else burstFrom m steps))"
| "burstFrom n (AssignStart seg off # steps) = (n \<noteq> 0 \<and> burstFrom n steps)"
| "burstFrom n (AssignEnd seg off # steps) = (n \<noteq> 0 \<and> burstFrom n steps)"

definition slideBurst :: "SlideStep list \<Rightarrow> bool" where
  "slideBurst steps = burstFrom 0 steps"

text \<open>
  The interval after the assignments of a list of steps, and the value that the first
  closure keeps in \<^verbatim>\<open>previousInterval\<close>: a clone whose endpoints are transient copies of
  the references.
\<close>

fun slidInterval :: "SequenceInterval \<Rightarrow> SlideStep list \<Rightarrow> SequenceInterval" where
  "slidInterval s [] = s"
| "slidInterval s (AssignStart seg off # steps) =
     slidInterval (s\<lparr> sq_start := assignSegment (sq_start s) seg off \<rparr>) steps"
| "slidInterval s (AssignEnd seg off # steps) =
     slidInterval (s\<lparr> sq_end := assignSegment (sq_end s) seg off \<rparr>) steps"
| "slidInterval s (BeforeSlide # steps) = slidInterval s steps"
| "slidInterval s (AfterSlide # steps) = slidInterval s steps"

definition previousIntervalOf :: "SequenceInterval \<Rightarrow> SequenceInterval" where
  "previousIntervalOf interval =
     (let clone = SequenceInterval_clone interval
      in clone\<lparr> sq_start := cloneRef (sq_start clone), sq_end := cloneRef (sq_end clone) \<rparr>)"

text \<open>
  A client over a document of one segment of ten characters, at sequence number 7, on
  which nothing has been removed: a position lies in the segment at the same offset, and
  no reference has to slide.
\<close>

definition demoSegment :: ISegment where
  "demoSegment = \<lparr> segId = 0, ordinal = 0, cachedLength = 10 \<rparr>"

definition demoClient :: Client where
  "demoClient =
     \<lparr> getCurrentSeq = 7,
       collabWindow_localSeq = 0,
       collabWindow_clientId = 1,
       getLongClientId = (\<lambda>n. ''A''),
       getContainingSegment =
         (\<lambda>pos perspective localSeq.
            if 0 \<le> pos \<and> pos < 10
            then \<lparr> so_segment = Some demoSegment, so_offset = Some pos \<rparr>
            else \<lparr> so_segment = None, so_offset = None \<rparr>),
       getSlideToSegment = (\<lambda>segoff. segoff),
       findReconnectionPosition = (\<lambda>seg localSeq. 0),
       localReferencePositionToPosition =
         (\<lambda>ref. case lr_segment ref of None \<Rightarrow> DetachedReferencePosition | Some seg \<Rightarrow> lr_offset ref) \<rparr>"

text \<open>The same client after the whole text has been removed: every slide ends nowhere.\<close>

definition removedTextClient :: Client where
  "removedTextClient =
     demoClient\<lparr> getSlideToSegment := (\<lambda>segoff. \<lparr> so_segment = None, so_offset = None \<rparr>) \<rparr>"

text \<open>
  An attached collection of sequence intervals named \<open>comments\<close> over that document,
  still empty; and the same collection with the stickiness option switched on.
\<close>

definition emptySequenceCollection :: IntervalCollection where
  "emptySequenceCollection =
     \<lparr> ic_localCollection = Some (newLocalIntervalCollection ''comments'' sequenceIntervalHelpers True),
       ic_onDeserialize = False,
       ic_client = Some demoClient,
       ic_localSeqToSerializedInterval = Map.empty,
       ic_localSeqToRebasedInterval = Map.empty,
       ic_pendingChangesStart = Map.empty,
       ic_pendingChangesEnd = Map.empty,
       ic_helpers = sequenceIntervalHelpers,
       ic_requiresClient = True,
       ic_intervalStickinessEnabled = None,
       ic_emitted = [],
       ic_events = [] \<rparr>"

definition stickyCollection :: IntervalCollection where
  "stickyCollection = emptySequenceCollection\<lparr> ic_intervalStickinessEnabled := Some True \<rparr>"

text \<open>An attached collection of numeric intervals, as the factory loads it, still empty.\<close>

definition emptyNumericCollection :: IntervalCollection where
  "emptyNumericCollection =
     \<lparr> ic_localCollection = Some (newLocalIntervalCollection [] intervalFactoryHelpers True),
       ic_onDeserialize = False,
       ic_client = None,
       ic_localSeqToSerializedInterval = Map.empty,
       ic_localSeqToRebasedInterval = Map.empty,
       ic_pendingChangesStart = Map.empty,
       ic_pendingChangesEnd = Map.empty,
       ic_helpers = intervalFactoryHelpers,
       ic_requiresClient = False,
       ic_intervalStickinessEnabled = None,
       ic_emitted = [],
       ic_events = [] \<rparr>"

text \<open>
  That collection after the local call \<^verbatim>\<open>add(1, 3, IntervalType.SlideOnRemove, undefined,
  IntervalStickiness.START)\<close>, for which \<^verbatim>\<open>uuid()\<close> drew the id \<open>a\<close>.
\<close>

definition startStickyCollection :: IntervalCollection where
  "startStickyCollection =
     snd (IntervalCollection_add stickyCollection 1 3 IntervalType_SlideOnRemove None (Some START) ''a'')"

text \<open>
  The local collection of sequence intervals after
  \<^verbatim>\<open>addInterval(1, 3, IntervalType.SlideOnRemove, undefined, undefined, IntervalStickiness.START)\<close>
  with the id \<open>a\<close>, and the interval it holds; the local collection of numeric intervals
  after \<^verbatim>\<open>addInterval(1, 3, IntervalType.Simple)\<close> with the id \<open>n\<close>, and its interval.
\<close>

definition sequenceAdded :: "error + TInterval \<times> LocalIntervalCollection" where
  "sequenceAdded =
     LocalIntervalCollection_addInterval (Some demoClient)
       (newLocalIntervalCollection ''comments'' sequenceIntervalHelpers True)
       1 3 IntervalType_SlideOnRemove None None (Some START) ''a''"

definition demoInterval :: TInterval where
  "demoInterval = fst (projr sequenceAdded)"

definition demoLocal :: LocalIntervalCollection where
  "demoLocal = snd (projr sequenceAdded)"

definition numericAdded :: "error + TInterval \<times> LocalIntervalCollection" where
  "numericAdded =
     LocalIntervalCollection_addInterval None
       (newLocalIntervalCollection [] intervalFactoryHelpers True)
       1 3 IntervalType_Simple None None None ''n''"

definition numericInterval :: TInterval where
  "numericInterval = fst (projr numericAdded)"

definition numericLocal :: LocalIntervalCollection where
  "numericLocal = snd (projr numericAdded)"

text \<open>
  The collection of numeric intervals after \<^verbatim>\<open>add(1, 3, IntervalType.Simple)\<close> with the id
  \<open>n\<close>, and after the local \<^verbatim>\<open>change("n", 2, undefined)\<close> that is still waiting for its
  ack; and a change op of another client for the same interval, with its message.
\<close>

definition numericCollection :: IntervalCollection where
  "numericCollection =
     snd (IntervalCollection_add emptyNumericCollection 1 3 IntervalType_Simple None None ''n'')"

definition pendingStartCollection :: IntervalCollection where
  "pendingStartCollection = snd (IntervalCollection_change numericCollection (JStr ''n'') (Some 2) None)"

definition remoteChange :: SerializedIntervalDelta where
  "remoteChange =
     \<lparr> sd_sequenceNumber = 8, sd_start = Some 7, sd_end = Some 9, sd_intervalType = IntervalType_Simple,
       sd_stickiness = None,
       sd_properties = Some \<lparr> vals = [reservedIntervalIdKey \<mapsto> JStr ''n''], nonWritable = {} \<rparr> \<rparr>"

definition remoteMessage :: ISequencedDocumentMessage where
  "remoteMessage = \<lparr> referenceSequenceNumber = 7, clientId = ''B'', sequenceNumber = 8 \<rparr>"

text \<open>
  The collection with the sticky interval \<open>a\<close>, whose add op (local sequence number 1) is
  still pending, reconnecting after the text under the interval was removed; and that
  pending add op as it was submitted.
\<close>

definition detachedCollection :: IntervalCollection where
  "detachedCollection =
     startStickyCollection\<lparr> ic_client := Some (removedTextClient\<lparr> collabWindow_localSeq := 1 \<rparr>) \<rparr>"

definition addedOp :: SerializedIntervalDelta where
  "addedOp = fst (snd (hd (ic_emitted startStickyCollection)))"

text \<open>The op that \<^verbatim>\<open>rebaseLocalInterval\<close> builds from the rebased positions.\<close>

definition rebasedOp ::
  "Client \<Rightarrow> SerializedIntervalDelta \<Rightarrow> SerializedIntervalDelta \<Rightarrow> SerializedIntervalDelta" where
  "rebasedOp c serializedInterval positions =
     \<lparr> sd_sequenceNumber = getCurrentSeq c,
       sd_start = sd_start positions, sd_end = sd_end positions,
       sd_intervalType = sd_intervalType serializedInterval,
       sd_stickiness = None,
       sd_properties = sd_properties serializedInterval \<rparr>"

text \<open>
  The collection of sequence intervals after
  \<^verbatim>\<open>add(1, 3, IntervalType.SlideOnRemove, { [reservedRangeLabelsKey]: ["comments", "other"] })\<close>
  with the id \<open>a\<close>, and the record that \<^verbatim>\<open>serialize()\<close> gives for the interval it holds:
  the one \<^verbatim>\<open>LocalIntervalCollection.serialize\<close> hands to \<open>compressInterval\<close>.
\<close>

definition labelledAdded :: "TInterval outcome" where
  "labelledAdded =
     IntervalCollection_add emptySequenceCollection 1 3 IntervalType_SlideOnRemove
       (Some \<lparr> vals = [reservedRangeLabelsKey \<mapsto> JArr [JStr ''comments'', JStr ''other'']],
                nonWritable = {} \<rparr>)
       None ''a''"

definition labelledRecord :: ISerializedInterval where
  "labelledRecord = projr (intervalSerialize (Some demoClient) (projr (fst labelledAdded)))"

section \<open>Legacy ids: results\<close>

lemma toDouble_small: "\<bar>x\<bar> \<le> 2 ^ 53 \<Longrightarrow> toDouble x = x"
  by (auto simp: toDouble_def Let_def)

lemma numberToString_small: "\<bar>x\<bar> \<le> 2 ^ 53 \<Longrightarrow> numberToString x = showInt x"
  by (auto simp: numberToString_def toDouble_def positiveToString_def showInt_def Let_def)

lemma createLegacyId_exponent: "createLegacyId (10 ^ 21) 5 = ''legacy1e+21-5''"
  by (simp add: createLegacyId_def legacyIdPrefix_def numberToString_def toDouble_def
      positiveToString_def Let_def showNat.simps digitChar_def bitLength.simps shortestDigits.simps)

text \<open>
  Claim C8: \<open>ensureSerializedId\<close> returns the \<open>intervalId\<close> property when there is one,
  leaving the properties as they are; otherwise it returns \<open>legacy{start}-{end}\<close>, start
  and end printed as a template literal prints a number (the decimal digits for an integer
  up to \<open>2 ^ 53\<close> in absolute value), and writes it into the properties, leaving the other
  keys; in both cases the \<open>intervalId\<close> property is non-writable afterwards.
\<close>

theorem ensureSerializedId_spec:
  "(getProp (si_properties s) reservedIntervalIdKey \<noteq> JUndefined \<longrightarrow>
      fst (ensureSerializedId s) = getProp (si_properties s) reservedIntervalIdKey
      \<and> (\<forall>k. getProp (si_properties (snd (ensureSerializedId s))) k = getProp (si_properties s) k))
   \<and> (getProp (si_properties s) reservedIntervalIdKey = JUndefined \<longrightarrow>
      fst (ensureSerializedId s)
        = JStr (''legacy'' @ numberToString (si_start s) @ ''-'' @ numberToString (si_end s))
      \<and> getProp (si_properties (snd (ensureSerializedId s))) reservedIntervalIdKey
          = JStr (''legacy'' @ numberToString (si_start s) @ ''-'' @ numberToString (si_end s))
      \<and> (\<forall>k. k \<noteq> reservedIntervalIdKey \<longrightarrow>
            getProp (si_properties (snd (ensureSerializedId s))) k = getProp (si_properties s) k))
   \<and> (\<bar>si_start s\<bar> \<le> 2 ^ 53 \<longrightarrow> numberToString (si_start s) = showInt (si_start s))
   \<and> (\<bar>si_end s\<bar> \<le> 2 ^ 53 \<longrightarrow> numberToString (si_end s) = showInt (si_end s))
   \<and> (\<exists>p. si_properties (snd (ensureSerializedId s)) = Some p \<and> reservedIntervalIdKey \<in> nonWritable p)
   \<and> si_start (snd (ensureSerializedId s)) = si_start s
   \<and> si_end (snd (ensureSerializedId s)) = si_end s"
proof -
  have a: "(getProp (si_properties s) reservedIntervalIdKey \<noteq> JUndefined \<longrightarrow>
      fst (ensureSerializedId s) = getProp (si_properties s) reservedIntervalIdKey
      \<and> (\<forall>k. getProp (si_properties (snd (ensureSerializedId s))) k = getProp (si_properties s) k))
   \<and> (getProp (si_properties s) reservedIntervalIdKey = JUndefined \<longrightarrow>
      fst (ensureSerializedId s)
        = JStr (''legacy'' @ numberToString (si_start s) @ ''-'' @ numberToString (si_end s))
      \<and> getProp (si_properties (snd (ensureSerializedId s))) reservedIntervalIdKey
          = JStr (''legacy'' @ numberToString (si_start s) @ ''-'' @ numberToString (si_end s))
      \<and> (\<forall>k. k \<noteq> reservedIntervalIdKey \<longrightarrow>
            getProp (si_properties (snd (ensureSerializedId s))) k = getProp (si_properties s) k))
   \<and> (\<exists>p. si_properties (snd (ensureSerializedId s)) = Some p \<and> reservedIntervalIdKey \<in> nonWritable p)
   \<and> si_start (snd (ensureSerializedId s)) = si_start s
   \<and> si_end (snd (ensureSerializedId s)) = si_end s"
    by (cases "si_properties s")
       (auto simp: ensureSerializedId_def Let_def getProp_def defineNonWritable_def addProperties_def
          createLegacyId_def legacyIdPrefix_def map_add_def split: option.splits)
  have b: "\<bar>si_start s\<bar> \<le> 2 ^ 53 \<longrightarrow> numberToString (si_start s) = showInt (si_start s)"
    and c: "\<bar>si_end s\<bar> \<le> 2 ^ 53 \<longrightarrow> numberToString (si_end s) = showInt (si_end s)"
    by (simp_all add: numberToString_small)
  from a b c show ?thesis by simp
qed

theorem ensureSerializedId_spec_witness:
  "ensureSerializedId
     \<lparr> si_sequenceNumber = 0, si_start = 3, si_end = 17, si_intervalType = 0,
       si_stickiness = None, si_properties = None \<rparr>
   = (JStr ''legacy3-17'',
      \<lparr> si_sequenceNumber = 0, si_start = 3, si_end = 17, si_intervalType = 0,
        si_stickiness = None,
        si_properties = Some \<lparr> vals = [reservedIntervalIdKey \<mapsto> JStr ''legacy3-17''],
                               nonWritable = {reservedIntervalIdKey} \<rparr> \<rparr>)"
  using ensureSerializedId_spec [of
     "\<lparr> si_sequenceNumber = 0, si_start = 3, si_end = 17, si_intervalType = 0,
       si_stickiness = None, si_properties = None \<rparr>"]
  by (simp add: ensureSerializedId_def Let_def getProp_def defineNonWritable_def addProperties_def
        createLegacyId_def legacyIdPrefix_def showInt_def showNat.simps digitChar_def)

lemma bindE_simps [simp]: "bindE (Inl e) f = Inl e" "bindE (Inr x) f = f x"
  by (simp_all add: bindE_def)

lemma bindE_Inr_iff: "bindE m f = Inr y \<longleftrightarrow> (\<exists>x. m = Inr x \<and> f x = Inr y)"
  by (cases m) auto

section \<open>The ordered tree: lemmas\<close>

lemma count_list_filter: "count_list (filter P xs) y = (if P y then count_list xs y else 0)"
  by (induction xs) auto

lemma rbRemove_ok:
  "\<forall>x\<in>set xs. \<exists>c. cmp k x = Inr c \<Longrightarrow>
   rbRemove cmp k xs = Inr (filter (\<lambda>x. cmp k x \<noteq> Inr 0) xs)"
  by (induction xs) auto

lemma rbInsert_ok:
  "\<forall>x\<in>set xs. \<exists>c. cmp k x = Inr c \<Longrightarrow>
   \<exists>ys. rbInsert cmp k xs = Inr ys \<and> set ys = insert k (set xs)
        \<and> (\<forall>y. count_list ys y = (if y = k then 1 else 0) + count_list xs y)"
proof (induction xs)
  case Nil
  then show ?case by simp
next
  case (Cons x xs)
  then obtain c where c: "cmp k x = Inr c" by auto
  from Cons obtain ys where ys: "rbInsert cmp k xs = Inr ys" "set ys = insert k (set xs)"
      "\<forall>y. count_list ys y = (if y = k then 1 else 0) + count_list xs y"
    by auto
  show ?case
  proof (cases "c < 0")
    case True
    with c show ?thesis by auto
  next
    case False
    with c ys show ?thesis by auto
  qed
qed

lemma rbPut_ok:
  assumes "\<forall>x\<in>set xs. \<exists>c. cmp k x = Inr c"
  shows "\<exists>ys. rbPut cmp k xs = Inr ys
           \<and> set ys = insert k {x \<in> set xs. cmp k x \<noteq> Inr 0}
           \<and> (\<forall>y. count_list ys y = (if y = k then 1 else 0)
                     + (if cmp k y \<noteq> Inr 0 then count_list xs y else 0))"
proof -
  let ?xs' = "filter (\<lambda>x. cmp k x \<noteq> Inr 0) xs"
  have r: "rbRemove cmp k xs = Inr ?xs'" using assms by (rule rbRemove_ok)
  have "\<forall>x\<in>set ?xs'. \<exists>c. cmp k x = Inr c" using assms by auto
  from rbInsert_ok [where cmp=cmp and k=k and xs="?xs'", OF this] obtain ys where ys: "rbInsert cmp k ?xs' = Inr ys"
     "set ys = insert k (set ?xs')"
     "\<forall>y. count_list ys y = (if y = k then 1 else 0) + count_list ?xs' y"
    by blast
  show ?thesis
    using r ys by (auto simp: rbPut_def count_list_filter)
qed

lemma count_replaceObject:
  "count_list (replaceObject a b xs) z =
     (if a = b then count_list xs z
      else if z = b then count_list xs a + count_list xs b
      else if z = a then 0 else count_list xs z)"
  by (induction xs) (auto simp: replaceObject_def)

lemma set_replaceObject:
  "set (replaceObject a b xs) \<subseteq> insert b (set xs)"
  by (auto simp: replaceObject_def)

section \<open>Comparators: lemmas\<close>

lemma hasId_getIntervalId: "hasId a \<Longrightarrow> \<exists>k. getIntervalId a = Inr k"
  by (cases a) (auto simp: hasId_def getIntervalId_def Interval_getIntervalId_def
      SequenceInterval_getIntervalId_def intervalProperties_def Let_def)

lemma getIntervalId_hasId: "getIntervalId a = Inr k \<Longrightarrow> hasId a"
  by (cases a) (auto simp: hasId_def getIntervalId_def Interval_getIntervalId_def
      SequenceInterval_getIntervalId_def intervalProperties_def Let_def split: if_splits)

lemma sameKeys_refl [simp]: "sameKeys a a"
  by (cases a) (auto simp: sameKeys_def)

lemma sameKeys_sym: "sameKeys a b \<Longrightarrow> sameKeys b a"
  by (cases a; cases b) (auto simp: sameKeys_def)

lemma sameKeys_trans: "sameKeys a b \<Longrightarrow> sameKeys b c \<Longrightarrow> sameKeys a c"
  by (cases a; cases b; cases c) (auto simp: sameKeys_def)

lemma sameKeys_getIntervalId: "sameKeys a b \<Longrightarrow> getIntervalId a = getIntervalId b"
  by (cases a; cases b) (auto simp: sameKeys_def getIntervalId_def Interval_getIntervalId_def
      SequenceInterval_getIntervalId_def getProp_def Let_def)

lemma sameKeys_hasId: "sameKeys a b \<Longrightarrow> hasId a = hasId b"
  by (cases a; cases b) (auto simp: sameKeys_def hasId_def intervalProperties_def getProp_def)

lemma sameKeys_class: "sameKeys a b \<Longrightarrow> isSequenceInterval a = isSequenceInterval b"
  by (cases a; cases b) (auto simp: sameKeys_def isSequenceInterval_def)

lemma sameKeys_ofClass: "sameKeys a b \<Longrightarrow> ofClass q a = ofClass q b"
  by (simp add: ofClass_def sameKeys_hasId sameKeys_class)

lemma compareReferencePositions_same:
  "lr_segment a = lr_segment b \<Longrightarrow> lr_offset a = lr_offset b \<Longrightarrow> compareReferencePositions a b = 0"
  by (auto simp: compareReferencePositions_def split: option.splits)

lemma compareIds_refl [simp]: "compareIds k k = 0"
  by (simp add: compareIds_def)

lemma localeCompare_refl [simp]: "localeCompare k k = 0"
  by (simp add: localeCompare_def)

lemma intervalCompare_ok:
  "ofClass q a \<Longrightarrow> ofClass q b \<Longrightarrow> \<exists>c. intervalCompare a b = Inr c"
  by (cases a; cases b)
     (auto simp: ofClass_def hasId_def isSequenceInterval_def intervalProperties_def intervalCompare_def
        Interval_compare_def SequenceInterval_compare_def Interval_getIntervalId_def
        SequenceInterval_getIntervalId_def Let_def)

lemma intervalCompare_same:
  "sameKeys a b \<Longrightarrow> hasId a \<Longrightarrow> intervalCompare a b = Inr 0"
  by (cases a; cases b)
     (auto simp: sameKeys_def hasId_def intervalProperties_def intervalCompare_def
        Interval_compare_def SequenceInterval_compare_def Interval_getIntervalId_def
        SequenceInterval_getIntervalId_def Interval_compareStart_def Interval_compareEnd_def
        SequenceInterval_compareStart_def SequenceInterval_compareEnd_def
        compareReferencePositions_same getProp_def Let_def)

lemma compareEnds_same:
  "knownHelpers q h \<Longrightarrow> sameKeys a b \<Longrightarrow> compareEnds h a b = 0"
  by (cases a; cases b)
     (auto simp: knownHelpers_def sameKeys_def sequenceIntervalHelpers_def intervalHelpers_def
        intervalFactoryHelpers_def compareSequenceIntervalEnds_def compareIntervalEnds_def
        compareReferencePositions_same split: if_splits)

lemma compareStarts_same:
  "knownHelpers q h \<Longrightarrow> compareStarts h = Some cs \<Longrightarrow> sameKeys a b \<Longrightarrow> cs a b = 0"
  by (cases a; cases b)
     (auto simp: knownHelpers_def sameKeys_def sequenceIntervalHelpers_def intervalHelpers_def
        intervalFactoryHelpers_def compareSequenceIntervalStarts_def compareIntervalStarts_def
        compareReferencePositions_same split: if_splits)

lemma compareOverrideables_same: "sameKeys a b \<Longrightarrow> compareOverrideables a b = 0"
  by (cases a; cases b)
     (auto simp: sameKeys_def compareOverrideables_def intervalForceCompare_def Let_def)

lemma EndpointInRangeIndex_compare_ok:
  "hasId a \<Longrightarrow> hasId b \<Longrightarrow> \<exists>c. EndpointInRangeIndex_compare h a b = Inr c"
  by (auto simp: EndpointInRangeIndex_compare_def Let_def dest!: hasId_getIntervalId)

lemma EndpointInRangeIndex_compare_same:
  "knownHelpers q h \<Longrightarrow> sameKeys a b \<Longrightarrow> hasId a \<Longrightarrow> EndpointInRangeIndex_compare h a b = Inr 0"
  using sameKeys_getIntervalId [of a b] hasId_getIntervalId [of a]
  by (auto simp: EndpointInRangeIndex_compare_def Let_def compareEnds_same compareOverrideables_same)

lemma StartpointInRangeIndex_compare_ok:
  "compareStarts h \<noteq> None \<Longrightarrow> hasId a \<Longrightarrow> hasId b \<Longrightarrow> \<exists>c. StartpointInRangeIndex_compare h a b = Inr c"
  by (auto simp: StartpointInRangeIndex_compare_def Let_def dest!: hasId_getIntervalId)

lemma StartpointInRangeIndex_compare_same:
  "knownHelpers q h \<Longrightarrow> compareStarts h \<noteq> None \<Longrightarrow> sameKeys a b \<Longrightarrow> hasId a \<Longrightarrow>
   StartpointInRangeIndex_compare h a b = Inr 0"
  using sameKeys_getIntervalId [of a b] hasId_getIntervalId [of a]
  by (auto simp: StartpointInRangeIndex_compare_def Let_def compareStarts_same compareOverrideables_same)


section \<open>Entries of a tree: lemmas\<close>

lemma once_replace:
  "once zs w \<Longrightarrow> sameKeys w w' \<Longrightarrow> once (replaceObject w w' zs) w'"
  unfolding once_def count_replaceObject
  by (auto dest: sameKeys_sym sameKeys_trans)

lemma once_put:
  assumes "rbPut cmp k xs = Inr ys" "\<forall>x\<in>set xs. \<exists>c. cmp k x = Inr c"
    and "\<And>v. sameKeys k v \<Longrightarrow> cmp k v = Inr 0"
  shows "once ys k"
proof -
  from rbPut_ok [where cmp=cmp and k=k and xs=xs, OF assms(2)] assms(1)
  have "\<forall>y. count_list ys y = (if y = k then 1 else 0)
                     + (if cmp k y \<noteq> Inr 0 then count_list xs y else 0)"
    by auto
  with assms(3) show ?thesis by (auto simp: once_def)
qed

lemma mapE_ok:
  assumes "\<forall>x\<in>set xs. \<exists>y. f x = Inr y \<and> P x y"
  shows "\<exists>ys. mapE f xs = Inr ys \<and> list_all2 P xs ys"
  using assms
proof (induction xs)
  case Nil
  then show ?case by simp
next
  case (Cons x xs)
  then obtain y where y: "f x = Inr y" "P x y" by auto
  from Cons obtain ys where "mapE f xs = Inr ys" "list_all2 P xs ys" by auto
  with y show ?case by auto
qed

lemma markKeys [simp]: "sameKeys a (withIdNonWritable a)"
  by (cases a) (auto simp: sameKeys_def withIdNonWritable_def setIntervalProperties_def
      intervalProperties_def defineNonWritable_def)

lemma treeRemove_ofClass:
  assumes "\<forall>x\<in>set xs. ofClass q x" "ofClass q iv"
    and ok: "\<And>x. ofClass q x \<Longrightarrow> \<exists>c. cmp iv x = Inr c"
    and same: "\<And>v. sameKeys iv v \<Longrightarrow> cmp iv v = Inr 0"
  shows "\<exists>ys. rbRemove cmp iv xs = Inr ys \<and> set ys \<subseteq> set xs
           \<and> (\<forall>v. sameKeys iv v \<longrightarrow> v \<notin> set ys)"
proof -
  have "\<forall>x\<in>set xs. \<exists>c. cmp iv x = Inr c" using assms(1) ok by blast
  from rbRemove_ok [where cmp=cmp and k=iv and xs=xs, OF this] same
  show ?thesis by auto
qed

lemma treePut_ofClass:
  assumes "\<forall>x\<in>set xs. ofClass q x" "ofClass q iv"
    and ok: "\<And>x. ofClass q x \<Longrightarrow> \<exists>c. cmp iv x = Inr c"
    and same: "\<And>v. sameKeys iv v \<Longrightarrow> cmp iv v = Inr 0"
  shows "\<exists>ys. rbPut cmp iv xs = Inr ys \<and> set ys \<subseteq> insert iv (set xs) \<and> once ys iv"
proof -
  have a: "\<forall>x\<in>set xs. \<exists>c. cmp iv x = Inr c" using assms(1) ok by blast
  from rbPut_ok [where cmp=cmp and k=iv and xs=xs, OF a]
  obtain ys where ys: "rbPut cmp iv xs = Inr ys" "set ys = insert iv {x \<in> set xs. cmp iv x \<noteq> Inr 0}"
    by blast
  have "once ys iv" using ys(1) a same by (rule once_put)
  with ys show ?thesis by auto
qed

lemma AttachedIndex_remove_ok:
  assumes "knownHelpers q h" "ofClass q iv" "\<forall>x\<in>set (AttachedIndex_entries idx). ofClass q x"
    and "compareStarts h = None \<longrightarrow> \<not> isStartpointIndex idx"
  shows "\<exists>idx'. AttachedIndex_remove h iv idx = Inr idx'
           \<and> set (AttachedIndex_entries idx') \<subseteq> set (AttachedIndex_entries idx)
           \<and> (\<forall>v. sameKeys iv v \<longrightarrow> v \<notin> set (AttachedIndex_entries idx'))
           \<and> isStartpointIndex idx' = isStartpointIndex idx"
proof (cases idx)
  case (EndpointInRangeIndex t)
  with assms have t: "\<forall>x\<in>set t. ofClass q x" by (simp add: AttachedIndex_entries_def)
  from treeRemove_ofClass [where cmp="EndpointInRangeIndex_compare h", OF t assms(2)]
  obtain ys where "rbRemove (EndpointInRangeIndex_compare h) iv t = Inr ys" "set ys \<subseteq> set t"
    "\<forall>v. sameKeys iv v \<longrightarrow> v \<notin> set ys"
    using assms(1,2) EndpointInRangeIndex_compare_ok EndpointInRangeIndex_compare_same
    by (metis ofClass_def)
  with EndpointInRangeIndex show ?thesis
    by (auto simp: AttachedIndex_remove_def AttachedIndex_entries_def isStartpointIndex_def)
next
  case (StartpointInRangeIndex t)
  with assms have t: "\<forall>x\<in>set t. ofClass q x" and cs: "compareStarts h \<noteq> None"
    by (auto simp: AttachedIndex_entries_def isStartpointIndex_def)
  from treeRemove_ofClass [where cmp="StartpointInRangeIndex_compare h", OF t assms(2)]
  obtain ys where "rbRemove (StartpointInRangeIndex_compare h) iv t = Inr ys" "set ys \<subseteq> set t"
    "\<forall>v. sameKeys iv v \<longrightarrow> v \<notin> set ys"
    using assms(1,2) cs StartpointInRangeIndex_compare_ok StartpointInRangeIndex_compare_same
    by (metis ofClass_def)
  with StartpointInRangeIndex show ?thesis
    by (auto simp: AttachedIndex_remove_def AttachedIndex_entries_def isStartpointIndex_def)
qed

lemma AttachedIndex_add_ok:
  assumes "knownHelpers q h" "ofClass q iv" "\<forall>x\<in>set (AttachedIndex_entries idx). ofClass q x"
    and "compareStarts h = None \<longrightarrow> \<not> isStartpointIndex idx"
  shows "\<exists>idx'. AttachedIndex_add h iv idx = Inr idx'
           \<and> set (AttachedIndex_entries idx') \<subseteq> insert iv (set (AttachedIndex_entries idx))
           \<and> once (AttachedIndex_entries idx') iv
           \<and> isStartpointIndex idx' = isStartpointIndex idx"
proof (cases idx)
  case (EndpointInRangeIndex t)
  with assms have t: "\<forall>x\<in>set t. ofClass q x" by (simp add: AttachedIndex_entries_def)
  from treePut_ofClass [where cmp="EndpointInRangeIndex_compare h", OF t assms(2)]
  obtain ys where "rbPut (EndpointInRangeIndex_compare h) iv t = Inr ys" "set ys \<subseteq> insert iv (set t)"
    "once ys iv"
    using assms(1,2) EndpointInRangeIndex_compare_ok EndpointInRangeIndex_compare_same
    by (metis ofClass_def)
  with EndpointInRangeIndex show ?thesis
    by (auto simp: AttachedIndex_add_def AttachedIndex_entries_def isStartpointIndex_def)
next
  case (StartpointInRangeIndex t)
  with assms have t: "\<forall>x\<in>set t. ofClass q x" and cs: "compareStarts h \<noteq> None"
    by (auto simp: AttachedIndex_entries_def isStartpointIndex_def)
  from treePut_ofClass [where cmp="StartpointInRangeIndex_compare h", OF t assms(2)]
  obtain ys where "rbPut (StartpointInRangeIndex_compare h) iv t = Inr ys" "set ys \<subseteq> insert iv (set t)"
    "once ys iv"
    using assms(1,2) cs StartpointInRangeIndex_compare_ok StartpointInRangeIndex_compare_same
    by (metis ofClass_def)
  with StartpointInRangeIndex show ?thesis
    by (auto simp: AttachedIndex_add_def AttachedIndex_entries_def isStartpointIndex_def)
qed

lemma list_all2_set2: "list_all2 P xs ys \<Longrightarrow> y \<in> set ys \<Longrightarrow> \<exists>x\<in>set xs. P x y"
  by (induction rule: list_all2_induct) auto

lemma collectionOf_entries:
  "collectionOf q lc \<Longrightarrow> x \<in> set (treeEntries lc) \<Longrightarrow> ofClass q x"
  by (simp add: collectionOf_def)

lemma treeEntries_set:
  "set (treeEntries lc) = set (lc_overlappingIntervalsIndex lc) \<union> set (lc_endIntervalIndex lc)
     \<union> (\<Union>idx\<in>set (lc_attachedIndexes lc). set (AttachedIndex_entries idx))"
  by (auto simp: treeEntries_def)

lemma removeIntervalFromIndexes_ok:
  assumes wf: "collectionOf q lc" and iv: "ofClass q iv"
  shows "\<exists>lc1 k. removeIntervalFromIndexes lc iv = Inr lc1 \<and> getIntervalId iv = Inr k
     \<and> collectionOf q lc1
     \<and> set (treeEntries lc1) \<subseteq> set (treeEntries lc)
     \<and> (\<forall>v. sameKeys iv v \<longrightarrow> v \<notin> set (treeEntries lc1))
     \<and> lc_idIntervalIndex lc1 = (lc_idIntervalIndex lc)(k := None)
     \<and> lc_label lc1 = lc_label lc \<and> lc_helpers lc1 = lc_helpers lc
     \<and> lc_onPositionChange lc1 = lc_onPositionChange lc
     \<and> lc_positionChanges lc1 = lc_positionChanges lc"
proof -
  let ?h = "lc_helpers lc"
  have kh: "knownHelpers q ?h" using wf by (simp add: collectionOf_def)
  have hid: "hasId iv" using iv by (simp add: ofClass_def)
  have e_ov: "\<forall>x\<in>set (lc_overlappingIntervalsIndex lc). ofClass q x"
    and e_en: "\<forall>x\<in>set (lc_endIntervalIndex lc). ofClass q x"
    and e_att: "\<forall>idx\<in>set (lc_attachedIndexes lc). \<forall>x\<in>set (AttachedIndex_entries idx). ofClass q x"
    using wf by (auto simp: collectionOf_def treeEntries_set)
  have sp: "\<forall>idx\<in>set (lc_attachedIndexes lc). compareStarts ?h = None \<longrightarrow> \<not> isStartpointIndex idx"
    using wf by (auto simp: collectionOf_def)
  from treeRemove_ofClass [where cmp=intervalCompare, OF e_ov iv]
  obtain ov where ov: "OverlappingIntervalsIndex_remove iv (lc_overlappingIntervalsIndex lc) = Inr ov"
      "set ov \<subseteq> set (lc_overlappingIntervalsIndex lc)" "\<forall>v. sameKeys iv v \<longrightarrow> v \<notin> set ov"
    unfolding OverlappingIntervalsIndex_remove_def
    using iv hid intervalCompare_ok intervalCompare_same by metis
  from hasId_getIntervalId [OF hid] obtain k where k: "getIntervalId iv = Inr k" by blast
  from treeRemove_ofClass [where cmp="\<lambda>a b. Inr (compareEnds ?h a b)", OF e_en iv]
  obtain en where en: "EndpointIndex_remove ?h iv (lc_endIntervalIndex lc) = Inr en"
      "set en \<subseteq> set (lc_endIntervalIndex lc)" "\<forall>v. sameKeys iv v \<longrightarrow> v \<notin> set en"
    unfolding EndpointIndex_remove_def
    using kh compareEnds_same by (metis (no_types, lifting))
  let ?P = "\<lambda>idx idx'. set (AttachedIndex_entries idx') \<subseteq> set (AttachedIndex_entries idx)
           \<and> (\<forall>v. sameKeys iv v \<longrightarrow> v \<notin> set (AttachedIndex_entries idx'))
           \<and> isStartpointIndex idx' = isStartpointIndex idx"
  have "\<forall>idx\<in>set (lc_attachedIndexes lc). \<exists>idx'. AttachedIndex_remove ?h iv idx = Inr idx' \<and> ?P idx idx'"
    using AttachedIndex_remove_ok [OF kh iv] e_att sp by blast
  from mapE_ok [where f="AttachedIndex_remove ?h iv" and P="?P", OF this]
  obtain att where att: "mapE (AttachedIndex_remove ?h iv) (lc_attachedIndexes lc) = Inr att"
      "list_all2 ?P (lc_attachedIndexes lc) att"
    by blast
  let ?lc1 = "lc\<lparr> lc_overlappingIntervalsIndex := ov, lc_idIntervalIndex := (lc_idIntervalIndex lc)(k := None),
                 lc_endIntervalIndex := en, lc_attachedIndexes := att \<rparr>"
  have r: "removeIntervalFromIndexes lc iv = Inr ?lc1"
    using ov(1) k en(1) att(1) by (simp add: removeIntervalFromIndexes_def IdIntervalIndex_remove_def)
  have attP: "\<And>idx'. idx' \<in> set att \<Longrightarrow> \<exists>idx\<in>set (lc_attachedIndexes lc). ?P idx idx'"
    using list_all2_set2 [OF att(2)] by blast
  have sub: "set (treeEntries ?lc1) \<subseteq> set (treeEntries lc)"
    using ov(2) en(2) attP by (fastforce simp: treeEntries_set)
  have gone: "\<forall>v. sameKeys iv v \<longrightarrow> v \<notin> set (treeEntries ?lc1)"
    using ov(3) en(3) attP by (fastforce simp: treeEntries_set)
  have idx_keyed: "\<forall>k' v. lc_idIntervalIndex ?lc1 k' = Some v \<longrightarrow>
      getIntervalId v = Inr k' \<and> isSequenceInterval v = q"
    using wf by (auto simp: collectionOf_def split: if_splits)
  have sp1: "compareStarts ?h = None \<longrightarrow> (\<forall>idx\<in>set att. \<not> isStartpointIndex idx)"
    using attP sp by metis
  have wf1: "collectionOf q ?lc1"
    unfolding collectionOf_def
    using kh sub collectionOf_entries [OF wf] idx_keyed sp1 by (auto simp del: fun_upd_apply)
  show ?thesis
    using r k wf1 sub gone by (intro exI [of _ ?lc1] exI [of _ k]) simp
qed


lemma set_replaceObject2: "set (replaceObject a b xs) \<subseteq> insert b (set xs - {a})"
  by (auto simp: replaceObject_def)

lemma addIntervalToIndexes_ok:
  assumes wf: "collectionOf q lc" and iv: "ofClass q iv"
  shows "\<exists>lc1 k. addIntervalToIndexes lc iv = Inr (withIdNonWritable iv, lc1) \<and> getIntervalId iv = Inr k
     \<and> collectionOf q lc1
     \<and> set (treeEntries lc1) \<subseteq> insert (withIdNonWritable iv) (set (treeEntries lc))
     \<and> allTrees (\<lambda>zs. once zs (withIdNonWritable iv)) lc1
     \<and> lc_idIntervalIndex lc1 = (lc_idIntervalIndex lc)(k \<mapsto> withIdNonWritable iv)
     \<and> lc_label lc1 = lc_label lc \<and> lc_helpers lc1 = lc_helpers lc
     \<and> lc_onPositionChange lc1 = lc_onPositionChange lc
     \<and> lc_positionChanges lc1 = lc_positionChanges lc"
proof -
  let ?h = "lc_helpers lc"
  let ?iv' = "withIdNonWritable iv"
  have kh: "knownHelpers q ?h" using wf by (simp add: collectionOf_def)
  have hid: "hasId iv" using iv by (simp add: ofClass_def)
  have iv': "ofClass q ?iv'" using iv sameKeys_ofClass [OF markKeys, of q iv] by simp
  have hid': "hasId ?iv'" using iv' by (simp add: ofClass_def)
  have e_ov: "\<forall>x\<in>set (lc_overlappingIntervalsIndex lc). ofClass q x"
    and e_en: "\<forall>x\<in>set (lc_endIntervalIndex lc). ofClass q x"
    and e_att: "\<forall>idx\<in>set (lc_attachedIndexes lc). \<forall>x\<in>set (AttachedIndex_entries idx). ofClass q x"
    using wf by (auto simp: collectionOf_def treeEntries_set)
  have sp: "\<forall>idx\<in>set (lc_attachedIndexes lc). compareStarts ?h = None \<longrightarrow> \<not> isStartpointIndex idx"
    using wf by (auto simp: collectionOf_def)
  from treePut_ofClass [where cmp=intervalCompare, OF e_ov iv]
  obtain ov where ov: "OverlappingIntervalsIndex_add iv (lc_overlappingIntervalsIndex lc) = Inr ov"
      "set ov \<subseteq> insert iv (set (lc_overlappingIntervalsIndex lc))" "once ov iv"
    unfolding OverlappingIntervalsIndex_add_def
    using iv hid intervalCompare_ok intervalCompare_same by metis
  let ?ov' = "replaceObject iv ?iv' ov"
  have ov'1: "once ?ov' ?iv'" using ov(3) by (rule once_replace) simp
  have ov'2: "set ?ov' \<subseteq> insert ?iv' (set (lc_overlappingIntervalsIndex lc))"
    using set_replaceObject2 [of iv ?iv' ov] ov(2) by auto
  from hasId_getIntervalId [OF hid] obtain k where k: "getIntervalId iv = Inr k" by blast
  from treePut_ofClass [where cmp="\<lambda>a b. Inr (compareEnds ?h a b)", OF e_en iv']
  obtain en where en: "EndpointIndex_add ?h ?iv' (lc_endIntervalIndex lc) = Inr en"
      "set en \<subseteq> insert ?iv' (set (lc_endIntervalIndex lc))" "once en ?iv'"
    unfolding EndpointIndex_add_def
    using kh compareEnds_same by (metis (no_types, lifting))
  let ?P = "\<lambda>idx idx'. set (AttachedIndex_entries idx') \<subseteq> insert ?iv' (set (AttachedIndex_entries idx))
           \<and> once (AttachedIndex_entries idx') ?iv'
           \<and> isStartpointIndex idx' = isStartpointIndex idx"
  have "\<forall>idx\<in>set (lc_attachedIndexes lc). \<exists>idx'. AttachedIndex_add ?h ?iv' idx = Inr idx' \<and> ?P idx idx'"
    using AttachedIndex_add_ok [OF kh iv'] e_att sp by blast
  from mapE_ok [where f="AttachedIndex_add ?h ?iv'" and P="?P", OF this]
  obtain att where att: "mapE (AttachedIndex_add ?h ?iv') (lc_attachedIndexes lc) = Inr att"
      "list_all2 ?P (lc_attachedIndexes lc) att"
    by blast
  let ?lc1 = "lc\<lparr> lc_overlappingIntervalsIndex := ?ov',
                 lc_idIntervalIndex := (lc_idIntervalIndex lc)(k \<mapsto> ?iv'),
                 lc_endIntervalIndex := en, lc_attachedIndexes := att \<rparr>"
  have r: "addIntervalToIndexes lc iv = Inr (?iv', ?lc1)"
    using ov(1) k en(1) att(1)
    by (simp add: addIntervalToIndexes_def IdIntervalIndex_add_def withIdNonWritable_def Let_def)
  have attP: "\<And>idx'. idx' \<in> set att \<Longrightarrow> \<exists>idx\<in>set (lc_attachedIndexes lc). ?P idx idx'"
    using list_all2_set2 [OF att(2)] by blast
  have sub: "set (treeEntries ?lc1) \<subseteq> insert ?iv' (set (treeEntries lc))"
    using ov'2 en(2) attP by (fastforce simp: treeEntries_set)
  have onceAll: "allTrees (\<lambda>zs. once zs ?iv') ?lc1"
    using ov'1 en(3) attP by (fastforce simp: allTrees_def)
  have k': "getIntervalId ?iv' = Inr k"
    using k sameKeys_getIntervalId [OF markKeys, of iv] by simp
  have idx_keyed: "\<forall>k' v. lc_idIntervalIndex ?lc1 k' = Some v \<longrightarrow>
      getIntervalId v = Inr k' \<and> isSequenceInterval v = q"
    using wf k' iv' by (auto simp: collectionOf_def ofClass_def split: if_splits)
  have sp1: "compareStarts ?h = None \<longrightarrow> (\<forall>idx\<in>set att. \<not> isStartpointIndex idx)"
    using attP sp by metis
  have ent: "\<forall>x\<in>set (treeEntries ?lc1). ofClass q x"
    using sub collectionOf_entries [OF wf] iv' by blast
  have wf1: "collectionOf q ?lc1"
    unfolding collectionOf_def
    using kh ent idx_keyed sp1 by (simp del: fun_upd_apply)
  show ?thesis
    using r k wf1 sub onceAll by (intro exI [of _ ?lc1] exI [of _ k]) simp
qed

lemma AttachedIndex_writeBack_entries [simp]:
  "AttachedIndex_entries (AttachedIndex_writeBack w w' idx) = replaceObject w w' (AttachedIndex_entries idx)"
  by (cases idx) (auto simp: AttachedIndex_writeBack_def AttachedIndex_entries_def)

lemma AttachedIndex_writeBack_startpoint [simp]:
  "isStartpointIndex (AttachedIndex_writeBack w w' idx) = isStartpointIndex idx"
  by (cases idx) (auto simp: AttachedIndex_writeBack_def isStartpointIndex_def)

lemma writeBack_fields [simp]:
  "lc_label (writeBack w w' lc) = lc_label lc"
  "lc_helpers (writeBack w w' lc) = lc_helpers lc"
  "lc_onPositionChange (writeBack w w' lc) = lc_onPositionChange lc"
  "lc_positionChanges (writeBack w w' lc) = lc_positionChanges lc"
  "lc_overlappingIntervalsIndex (writeBack w w' lc) = replaceObject w w' (lc_overlappingIntervalsIndex lc)"
  "lc_endIntervalIndex (writeBack w w' lc) = replaceObject w w' (lc_endIntervalIndex lc)"
  "lc_attachedIndexes (writeBack w w' lc) = map (AttachedIndex_writeBack w w') (lc_attachedIndexes lc)"
  "lc_idIntervalIndex (writeBack w w' lc) k = map_option (\<lambda>e. if e = w then w' else e) (lc_idIntervalIndex lc k)"
  by (simp_all add: writeBack_def)

lemma writeBack_entries:
  "set (treeEntries (writeBack w w' lc)) \<subseteq> insert w' (set (treeEntries lc))"
  using set_replaceObject2 [of w w']
  by (fastforce simp: treeEntries_set)

lemma writeBack_ok:
  assumes wf: "collectionOf q lc" and sk: "sameKeys w w'" and w: "ofClass q w"
    and all: "allTrees (\<lambda>zs. once zs w) lc"
    and stored: "lc_idIntervalIndex lc k = Some w"
  shows "collectionOf q (writeBack w w' lc)"
    and "allTrees (\<lambda>zs. once zs w') (writeBack w w' lc)"
    and "lc_idIntervalIndex (writeBack w w' lc) k = Some w'"
    and "{k'. lc_idIntervalIndex (writeBack w w' lc) k' = Some w'} = {k}"
    and "\<forall>k'. k' \<noteq> k \<longrightarrow> lc_idIntervalIndex (writeBack w w' lc) k' = lc_idIntervalIndex lc k'"
proof -
  have w': "ofClass q w'" using w sameKeys_ofClass [OF sk, of q] by simp
  have keyed: "\<And>k' v. lc_idIntervalIndex lc k' = Some v \<Longrightarrow> getIntervalId v = Inr k'"
    and classed: "\<And>k' v. lc_idIntervalIndex lc k' = Some v \<Longrightarrow> isSequenceInterval v = q"
    using wf by (simp_all add: collectionOf_def)
  have kw: "getIntervalId w = Inr k" using keyed stored by blast
  have kw': "getIntervalId w' = Inr k" using kw sameKeys_getIntervalId [OF sk] by simp
  have ent: "\<forall>x\<in>set (treeEntries (writeBack w w' lc)). ofClass q x"
    using writeBack_entries [of w w' lc] collectionOf_entries [OF wf] w' by blast
  have keyed': "\<forall>k' v. lc_idIntervalIndex (writeBack w w' lc) k' = Some v \<longrightarrow>
      getIntervalId v = Inr k' \<and> isSequenceInterval v = q"
  proof (intro allI impI)
    fix k' v assume "lc_idIntervalIndex (writeBack w w' lc) k' = Some v"
    then obtain e where e: "lc_idIntervalIndex lc k' = Some e" "v = (if e = w then w' else e)"
      by auto
    show "getIntervalId v = Inr k' \<and> isSequenceInterval v = q"
    proof (cases "e = w")
      case True
      with e keyed [of k' w] kw kw' w' show ?thesis by (simp add: ofClass_def)
    next
      case False
      with e keyed [of k' e] classed [of k' e] show ?thesis by simp
    qed
  qed
  show "collectionOf q (writeBack w w' lc)"
    unfolding collectionOf_def using wf ent keyed' by (auto simp: collectionOf_def)
  show "allTrees (\<lambda>zs. once zs w') (writeBack w w' lc)"
    using all once_replace [OF _ sk] by (auto simp: allTrees_def)
  show s: "lc_idIntervalIndex (writeBack w w' lc) k = Some w'"
    using stored by simp
  show "{k'. lc_idIntervalIndex (writeBack w w' lc) k' = Some w'} = {k}"
  proof (rule set_eqI, rule iffI)
    fix k' assume "k' \<in> {k'. lc_idIntervalIndex (writeBack w w' lc) k' = Some w'}"
    then have "getIntervalId w' = Inr k'" using keyed' by blast
    with kw' show "k' \<in> {k}" by simp
  next
    fix k' assume "k' \<in> {k}" with s show "k' \<in> {k'. lc_idIntervalIndex (writeBack w w' lc) k' = Some w'}"
      by simp
  qed
  show "\<forall>k'. k' \<noteq> k \<longrightarrow> lc_idIntervalIndex (writeBack w w' lc) k' = lc_idIntervalIndex lc k'"
  proof (intro allI impI)
    fix k' assume ne: "k' \<noteq> k"
    show "lc_idIntervalIndex (writeBack w w' lc) k' = lc_idIntervalIndex lc k'"
    proof (cases "lc_idIntervalIndex lc k'")
      case None
      then show ?thesis by simp
    next
      case (Some e)
      with keyed [of k' e] kw ne have "e \<noteq> w" by auto
      with Some show ?thesis by simp
    qed
  qed
qed

lemma linkKeys [simp]: "sameKeys a (linkEndpointsToInterval a)"
  by (cases a) (auto simp: sameKeys_def linkEndpointsToInterval_def refAddProperties_def Let_def)

lemma listenKeys [simp]: "sameKeys a (addIntervalListeners a)"
  by (cases a) (auto simp: sameKeys_def addIntervalListeners_def addPositionChangeListeners_def)

lemma unlistenKeys [simp]: "sameKeys a (removeIntervalListeners a)"
  by (cases a) (auto simp: sameKeys_def removeIntervalListeners_def removePositionChangeListeners_def)

lemma asAdded_alt: "asAdded a = addIntervalListeners (withIdNonWritable (linkEndpointsToInterval a))"
  by (simp add: asAdded_def withIdNonWritable_def Let_def)

lemma asAddedKeys [simp]: "sameKeys a (asAdded a)"
  unfolding asAdded_alt
  by (rule sameKeys_trans [OF linkKeys]) (rule sameKeys_trans [OF markKeys listenKeys])

lemma once_count: "once zs w \<Longrightarrow> count_list zs w = 1"
  by (simp add: once_def)

lemma allTrees_mono: "allTrees P lc \<Longrightarrow> (\<And>zs. P zs \<Longrightarrow> Q zs) \<Longrightarrow> allTrees Q lc"
  by (auto simp: allTrees_def)

lemma LocalIntervalCollection_add_ok:
  assumes wf: "collectionOf q lc" and iv: "ofClass q iv"
  shows "\<exists>lc2 k. LocalIntervalCollection_add lc iv = Inr (asAdded iv, lc2) \<and> getIntervalId iv = Inr k
     \<and> collectionOf q lc2
     \<and> inEveryIndexOnce lc2 (asAdded iv)
     \<and> lc_idIntervalIndex lc2 k = Some (asAdded iv)
     \<and> (\<forall>k'. k' \<noteq> k \<longrightarrow> lc_idIntervalIndex lc2 k' = lc_idIntervalIndex lc k')
     \<and> set (treeEntries lc2) \<subseteq> insert (asAdded iv) (set (treeEntries lc))
     \<and> lc_label lc2 = lc_label lc \<and> lc_helpers lc2 = lc_helpers lc
     \<and> lc_onPositionChange lc2 = lc_onPositionChange lc
     \<and> lc_positionChanges lc2 = lc_positionChanges lc"
proof -
  let ?linked = "linkEndpointsToInterval iv"
  let ?indexed = "withIdNonWritable ?linked"
  let ?listened = "addIntervalListeners ?indexed"
  have linked: "ofClass q ?linked" using iv sameKeys_ofClass [OF linkKeys, of q iv] by simp
  have indexed: "ofClass q ?indexed" using linked sameKeys_ofClass [OF markKeys, of q ?linked] by simp
  from addIntervalToIndexes_ok [OF wf linked]
  obtain lc1 k where lc1: "addIntervalToIndexes lc ?linked = Inr (?indexed, lc1)"
      "getIntervalId ?linked = Inr k" "collectionOf q lc1"
      "set (treeEntries lc1) \<subseteq> insert ?indexed (set (treeEntries lc))"
      "allTrees (\<lambda>zs. once zs ?indexed) lc1"
      "lc_idIntervalIndex lc1 = (lc_idIntervalIndex lc)(k \<mapsto> ?indexed)"
      "lc_label lc1 = lc_label lc" "lc_helpers lc1 = lc_helpers lc"
      "lc_onPositionChange lc1 = lc_onPositionChange lc"
      "lc_positionChanges lc1 = lc_positionChanges lc"
    by blast
  let ?lc2 = "writeBack ?indexed ?listened lc1"
  have r: "LocalIntervalCollection_add lc iv = Inr (asAdded iv, ?lc2)"
    using lc1(1) by (simp add: LocalIntervalCollection_add_def Let_def asAdded_alt)
  have k: "getIntervalId iv = Inr k"
    using lc1(2) sameKeys_getIntervalId [OF linkKeys, of iv] by simp
  have stored: "lc_idIntervalIndex lc1 k = Some ?indexed" using lc1(6) by simp
  note wb = writeBack_ok [OF lc1(3) listenKeys indexed lc1(5) stored]
  have once2: "inEveryIndexOnce ?lc2 (asAdded iv)"
    unfolding inEveryIndexOnce_def asAdded_alt
  proof (intro conjI)
    show "allTrees (\<lambda>entries. count_list entries ?listened = 1) ?lc2"
      using wb(2) by (rule allTrees_mono) (rule once_count)
    have "getIntervalId ?listened = Inr k"
      using k sameKeys_getIntervalId [OF asAddedKeys, of iv] by (simp add: asAdded_alt)
    with wb(4) show "\<exists>k. getIntervalId ?listened = Inr k
        \<and> {k'. lc_idIntervalIndex ?lc2 k' = Some ?listened} = {k}"
      by blast
  qed
  have others: "\<forall>k'. k' \<noteq> k \<longrightarrow> lc_idIntervalIndex ?lc2 k' = lc_idIntervalIndex lc k'"
    using wb(5) lc1(6) by simp
  have sub: "set (treeEntries ?lc2) \<subseteq> insert (asAdded iv) (set (treeEntries lc))"
  proof
    fix x assume "x \<in> set (treeEntries ?lc2)"
    then have "x = ?listened \<or> x \<in> set (treeEntries lc1)"
      using writeBack_entries [of ?indexed ?listened lc1] by blast
    moreover have "x \<in> set (treeEntries ?lc2) \<Longrightarrow> x = ?indexed \<Longrightarrow> x = ?listened"
      using set_replaceObject2 [of ?indexed ?listened]
      by (fastforce simp: treeEntries_set)
    ultimately show "x \<in> insert (asAdded iv) (set (treeEntries lc))"
      using lc1(4) \<open>x \<in> set (treeEntries ?lc2)\<close> by (auto simp: asAdded_alt)
  qed
  show ?thesis
    using r k wb(1) once2 wb(3) others sub lc1(7-10)
    by (intro exI [of _ ?lc2] exI [of _ k]) (simp add: asAdded_alt)
qed

lemma removeExistingInterval_ok:
  assumes wf: "collectionOf q lc" and iv: "ofClass q iv"
  shows "\<exists>lc1 k. removeExistingInterval lc iv = Inr (removeIntervalListeners iv, lc1)
     \<and> getIntervalId iv = Inr k
     \<and> collectionOf q lc1
     \<and> set (treeEntries lc1) \<subseteq> set (treeEntries lc)
     \<and> (\<forall>v. sameKeys iv v \<longrightarrow> v \<notin> set (treeEntries lc1))
     \<and> lc_idIntervalIndex lc1 = (lc_idIntervalIndex lc)(k := None)
     \<and> lc_label lc1 = lc_label lc \<and> lc_helpers lc1 = lc_helpers lc
     \<and> lc_onPositionChange lc1 = lc_onPositionChange lc
     \<and> lc_positionChanges lc1 = lc_positionChanges lc"
  using removeIntervalFromIndexes_ok [OF wf iv]
  by (auto simp: removeExistingInterval_def)

lemma inNoIndex_after_remove:
  assumes wf: "collectionOf q lc" 
    and gone: "\<forall>v. sameKeys iv v \<longrightarrow> v \<notin> set (treeEntries lc1)"
    and k: "getIntervalId iv = Inr k"
    and idx: "lc_idIntervalIndex lc1 = (lc_idIntervalIndex lc)(k := None)"
  shows "inNoIndex lc1 iv"
  unfolding inNoIndex_def
proof (intro conjI allI impI)
  show "iv \<notin> set (treeEntries lc1)" using gone sameKeys_refl by blast
next
  fix k' show "lc_idIntervalIndex lc1 k' \<noteq> Some iv"
  proof
    assume a: "lc_idIntervalIndex lc1 k' = Some iv"
    then have "k' \<noteq> k" "lc_idIntervalIndex lc k' = Some iv" using idx by (auto split: if_splits)
    then show False using wf k by (auto simp: collectionOf_def)
  qed
next
  fix k' assume "getIntervalId iv = Inr k'"
  with k idx show "lc_idIntervalIndex lc1 k' = None" by simp
qed

lemmas value_defs =
  IntervalType_Simple_def IntervalType_Nest_def IntervalType_SlideOnRemove_def IntervalType_Transient_def
  reservedIntervalIdKey_def reservedRangeLabelsKey_def emptyProps_def getProp_def spreadWith_def
  defineNonWritable_def addProperties_def newPropertiesManager_def pmAddProperties_def pmCopyTo_def
  ackPendingProperties_def UnassignedSequenceNumber_def DetachedReferencePosition_def
  startReferenceSlidingPreference_def endReferenceSlidingPreference_def
  refTypeIncludesFlag_def createLocalReferencePosition_def createDetachedLocalReferencePosition_def
  refAddProperties_def compareReferencePositions_def falsyNumber_def
  createPositionReferenceFromSegoff_def createPositionReference_def

lemmas interval_defs =
  Interval_addProperties_def Interval_new_def Interval_getIntervalId_def asDelta_def Interval_serialize_def
  Interval_clone_def Interval_compareStart_def Interval_compareEnd_def compareIds_def
  Interval_compare_def Interval_modify_def createInterval_def
  SequenceInterval_addProperties_def SequenceInterval_new_def addPositionChangeListeners_def
  removePositionChangeListeners_def SequenceInterval_serialize_def SequenceInterval_clone_def
  SequenceInterval_compareStart_def SequenceInterval_compareEnd_def SequenceInterval_getIntervalId_def
  SequenceInterval_compare_def getRefType_def SequenceInterval_modify_def createSequenceInterval_def
  getIntervalId_def intervalProperties_def setIntervalProperties_def intervalPropertyManager_def
  setIntervalPropertyManager_def intervalAddProperties_def intervalCompare_def intervalSerialize_def
  intervalModify_def compareSequenceIntervalEnds_def compareSequenceIntervalStarts_def
  compareIntervalEnds_def compareIntervalStarts_def sequenceIntervalHelpers_def intervalHelpers_def
  intervalFactoryHelpers_def

lemmas index_defs =
  rbPut_def IdIntervalIndex_add_def IdIntervalIndex_remove_def IdIntervalIndex_getIntervalById_def
  EndpointIndex_add_def EndpointIndex_remove_def OverlappingIntervalsIndex_add_def
  OverlappingIntervalsIndex_remove_def intervalForceCompare_def setForceCompare_def
  compareOverrideables_def localeCompare_def EndpointInRangeIndex_compare_def
  StartpointInRangeIndex_compare_def AttachedIndex_entries_def AttachedIndex_add_def
  AttachedIndex_remove_def

lemmas collection_defs =
  newLocalIntervalCollection_def replaceObject_def AttachedIndex_writeBack_def writeBack_def
  removeIntervalFromIndexes_def appendIndex_def removeIntervalListeners_def removeExistingInterval_def
  LocalIntervalCollection_createInterval_def linkEndpointsToInterval_def addIntervalToIndexes_def
  addIntervalListeners_def LocalIntervalCollection_add_def jsIndex0_def
  LocalIntervalCollection_addInterval_def changeInterval_def newSlideListener_def cloneRef_def
  beforePositionChange_def afterPositionChange_def assignSegment_def
  getNextLocalSeq_def emitChange_def IntervalCollection_getIntervalById_def IntervalCollection_add_def
  addPendingChangeHelper_def addPendingChange_def removePendingChangeHelper_def removePendingChange_def
  hasPendingChangeStart_def hasPendingChangeEnd_def IntervalCollection_change_def

lemmas demo_defs =
  demoSegment_def demoClient_def removedTextClient_def emptySequenceCollection_def
  stickyCollection_def emptyNumericCollection_def startStickyCollection_def
  sequenceAdded_def demoInterval_def demoLocal_def numericAdded_def numericInterval_def numericLocal_def

section \<open>Rejections of add\<close>

text \<open>
  Claim C7: \<open>add\<close> throws for every interval type that includes \<open>Transient\<close>, and for
  every stickiness other than \<open>END\<close> while the option \<open>intervalStickinessEnabled\<close> is
  off; the collection it leaves is the collection it was given: no interval, no op, no
  event.
\<close>

theorem add_rejects:
  "((intervalType AND IntervalType_Transient) \<noteq> 0 \<longrightarrow>
      (\<exists>e. IntervalCollection_add this start end' intervalType props stickiness uuid = (Inl e, this)))
   \<and> (stickiness \<noteq> None \<and> stickiness \<noteq> Some END \<and> ic_intervalStickinessEnabled this \<noteq> Some True \<longrightarrow>
      (\<exists>e. IntervalCollection_add this start end' intervalType props stickiness uuid = (Inl e, this)))
   \<and> (ic_localCollection this \<noteq> None \<and> (intervalType AND IntervalType_Transient) \<noteq> 0 \<longrightarrow>
        IntervalCollection_add this start end' intervalType props stickiness uuid
          = (Inl (LoggingError ''Can not add transient intervals''), this))"
  by (auto simp: IntervalCollection_add_def Let_def split: option.splits)

theorem add_rejects_witness:
  "IntervalCollection_add emptySequenceCollection 1 3 (IntervalType_SlideOnRemove OR IntervalType_Transient)
      None None ''a''
     = (Inl (LoggingError ''Can not add transient intervals''), emptySequenceCollection)
   \<and> (\<exists>e. IntervalCollection_add emptySequenceCollection 1 3 IntervalType_SlideOnRemove
              None (Some FULL) ''a'' = (Inl e, emptySequenceCollection))"
proof -
  have a: "ic_localCollection emptySequenceCollection \<noteq> None
        \<and> ((IntervalType_SlideOnRemove OR IntervalType_Transient) AND IntervalType_Transient) \<noteq> 0"
    by (simp add: emptySequenceCollection_def IntervalType_SlideOnRemove_def IntervalType_Transient_def)
  have b: "Some FULL \<noteq> None \<and> Some FULL \<noteq> Some END
        \<and> ic_intervalStickinessEnabled emptySequenceCollection \<noteq> Some True"
    by (simp add: emptySequenceCollection_def)
  from a add_rejects [of "IntervalType_SlideOnRemove OR IntervalType_Transient" emptySequenceCollection
      1 3 None None "''a''"]
  have 1: "IntervalCollection_add emptySequenceCollection 1 3
      (IntervalType_SlideOnRemove OR IntervalType_Transient) None None ''a''
     = (Inl (LoggingError ''Can not add transient intervals''), emptySequenceCollection)"
    by blast
  from b add_rejects [of IntervalType_SlideOnRemove emptySequenceCollection 1 3 None "Some FULL" "''a''"]
  have 2: "\<exists>e. IntervalCollection_add emptySequenceCollection 1 3 IntervalType_SlideOnRemove
              None (Some FULL) ''a'' = (Inl e, emptySequenceCollection)"
    by blast
  from 1 2 show ?thesis by blast
qed

section \<open>Range queries\<close>

text \<open>
  Claim C9: a range query with \<open>start \<le> 0\<close> or \<open>start > end\<close> returns the empty array
  and makes no traversal of the tree, for the endpoint index and for the startpoint index.
\<close>

theorem range_query_rejects:
  "start \<le> 0 \<or> start > end' \<Longrightarrow>
     findIntervalsWithEndpointInRange helpers client intervalTree start end' = Inr ([], 0)
     \<and> findIntervalsWithStartpointInRange helpers client intervalTree start end' = Inr ([], 0)"
  by (auto simp: findIntervalsWithEndpointInRange_def findIntervalsWithStartpointInRange_def)

theorem range_query_rejects_witness:
  "findIntervalsWithEndpointInRange intervalHelpers None [NumericInterval (createInterval ''l'' 1 2)] 0 5
     = Inr ([], 0)
   \<and> findIntervalsWithStartpointInRange intervalHelpers None [NumericInterval (createInterval ''l'' 1 2)] 4 3
     = Inr ([], 0)"
proof -
  have "(0::int) \<le> 0 \<or> (0::int) > 5" by simp
  from range_query_rejects [OF this] have 1:
    "findIntervalsWithEndpointInRange intervalHelpers None [NumericInterval (createInterval ''l'' 1 2)] 0 5
     = Inr ([], 0)" by blast
  have "(4::int) \<le> 0 \<or> (4::int) > 3" by simp
  from range_query_rejects [OF this] have 2:
    "findIntervalsWithStartpointInRange intervalHelpers None [NumericInterval (createInterval ''l'' 1 2)] 4 3
     = Inr ([], 0)" by blast
  from 1 2 show ?thesis by blast
qed

lemma range_query_traverses:
  "0 < start \<Longrightarrow> start \<le> end' \<Longrightarrow> intervalTree \<noteq> [] \<Longrightarrow>
   findIntervalsWithEndpointInRange helpers client intervalTree start end' = Inr (results, n) \<Longrightarrow> n = 1"
  by (auto simp: findIntervalsWithEndpointInRange_def bindE_Inr_iff)


section \<open>Stickiness across a change\<close>

lemma SequenceInterval_new_stickiness:
  "sq_stickiness (SequenceInterval_new a b t props st) = (case st of None \<Rightarrow> END | Some s \<Rightarrow> s)"
  by (auto simp: SequenceInterval_new_def SequenceInterval_addProperties_def pmAddProperties_def Let_def
      split: option.splits prod.splits)

lemma SequenceInterval_new_start: "sq_start (SequenceInterval_new a b t props st) = a"
  by (auto simp: SequenceInterval_new_def SequenceInterval_addProperties_def pmAddProperties_def Let_def
      split: option.splits prod.splits)

lemma SequenceInterval_new_end: "sq_end (SequenceInterval_new a b t props st) = b"
  by (auto simp: SequenceInterval_new_def SequenceInterval_addProperties_def pmAddProperties_def Let_def
      split: option.splits prod.splits)

lemma createPositionReferenceFromSegoff_pref:
  "createPositionReferenceFromSegoff c so rt op' ls fs (Some p) = Inr r \<Longrightarrow>
   lr_slidingPreference r = p \<or> (so_segment so = None \<and> lr_slidingPreference r = FORWARD)"
  by (auto simp: createPositionReferenceFromSegoff_def createLocalReferencePosition_def
        createDetachedLocalReferencePosition_def split: option.splits if_splits)

lemma createPositionReference_FORWARD:
  "createPositionReference c pos rt op' fs ls (Some FORWARD) = Inr r \<Longrightarrow> lr_slidingPreference r = FORWARD"
  by (auto simp: createPositionReference_def Let_def split: option.splits if_splits
      dest: createPositionReferenceFromSegoff_pref)

lemma refAddProperties_fields [simp]:
  "lr_slidingPreference (refAddProperties r p) = lr_slidingPreference r"
  "lr_segment (refAddProperties r p) = lr_segment r"
  "lr_offset (refAddProperties r p) = lr_offset r"
  "lr_refType (refAddProperties r p) = lr_refType r"
  by (simp_all add: refAddProperties_def)

lemma start_pref_END [simp]: "startReferenceSlidingPreference END = FORWARD"
  by (simp add: startReferenceSlidingPreference_def)

lemma end_pref_END [simp]: "endReferenceSlidingPreference END = FORWARD"
  by (simp add: endReferenceSlidingPreference_def)

lemma modify_stickiness:
  "SequenceInterval_modify c s label start end' op' ls st = Inr n \<Longrightarrow> sq_stickiness n = END"
  by (auto simp: SequenceInterval_modify_def Let_def bindE_Inr_iff pmCopyTo_def
        SequenceInterval_new_stickiness split: option.splits prod.splits)

lemma modify_endpoints:
  assumes "SequenceInterval_modify c s label start end' op' ls None = Inr n"
  shows "start = None \<Longrightarrow> sq_start n = sq_start s"
    and "end' = None \<Longrightarrow> sq_end n = sq_end s"
    and "start \<noteq> None \<Longrightarrow> lr_slidingPreference (sq_start n) = FORWARD"
    and "end' \<noteq> None \<Longrightarrow> lr_slidingPreference (sq_end n) = FORWARD"
  using assms
  by (auto simp: SequenceInterval_modify_def Let_def bindE_Inr_iff pmCopyTo_def
        SequenceInterval_new_start SequenceInterval_new_end
      split: option.splits prod.splits dest: createPositionReference_FORWARD)

lemma addIntervalToIndexes_shape:
  "addIntervalToIndexes lc iv = Inr (iv', lc') \<Longrightarrow> iv' = withIdNonWritable iv"
  by (auto simp: addIntervalToIndexes_def IdIntervalIndex_add_def bindE_Inr_iff Let_def
      withIdNonWritable_def)

lemma LocalIntervalCollection_add_shape:
  "LocalIntervalCollection_add lc iv = Inr (iv', lc') \<Longrightarrow> iv' = asAdded iv"
  by (auto simp: LocalIntervalCollection_add_def bindE_Inr_iff Let_def asAdded_alt
      dest: addIntervalToIndexes_shape)

lemma changeInterval_shape:
  "changeInterval c lc iv st en op' ls = Inr (r, lc') \<Longrightarrow>
   \<exists>m. intervalModify c iv (lc_label lc) st en op' ls = Inr m \<and> r = map_option asAdded m
       \<and> (m = None \<longrightarrow> lc' = lc)"
  by (auto simp: changeInterval_def bindE_Inr_iff split: option.splits
      dest: LocalIntervalCollection_add_shape)

lemma asAdded_seq:
  "\<exists>n'. asAdded (SeqInterval n) = SeqInterval n' \<and> sq_stickiness n' = sq_stickiness n
     \<and> lr_slidingPreference (sq_start n') = lr_slidingPreference (sq_start n)
     \<and> lr_slidingPreference (sq_end n') = lr_slidingPreference (sq_end n)
     \<and> lr_segment (sq_start n') = lr_segment (sq_start n)
     \<and> lr_offset (sq_start n') = lr_offset (sq_start n)
     \<and> lr_segment (sq_end n') = lr_segment (sq_end n)
     \<and> lr_offset (sq_end n') = lr_offset (sq_end n)
     \<and> lr_refType (sq_start n') = lr_refType (sq_start n)
     \<and> lr_refType (sq_end n') = lr_refType (sq_end n)"
  by (auto simp: asAdded_def linkEndpointsToInterval_def Let_def setIntervalProperties_def
      intervalProperties_def addIntervalListeners_def addPositionChangeListeners_def)

lemma intervalModify_seq:
  "intervalModify c (SeqInterval s) label st en op' ls = Inr m \<Longrightarrow>
   \<exists>cl n. c = Some cl \<and> SequenceInterval_modify cl s label st en op' ls None = Inr n \<and> m = Some (SeqInterval n)"
  by (auto simp: intervalModify_def bindE_Inr_iff split: option.splits)

lemma changeInterval_seq:
  assumes "changeInterval c lc (SeqInterval s) st en op' ls = Inr (r, lc')"
  shows "\<exists>cl n0 n. c = Some cl \<and> SequenceInterval_modify cl s (lc_label lc) st en op' ls None = Inr n0
           \<and> r = Some (SeqInterval n) \<and> asAdded (SeqInterval n0) = SeqInterval n"
proof -
  from changeInterval_shape [OF assms] obtain m where
    m: "intervalModify c (SeqInterval s) (lc_label lc) st en op' ls = Inr m" "r = map_option asAdded m"
    by blast
  from intervalModify_seq [OF m(1)] obtain cl n0 where
    n0: "c = Some cl" "SequenceInterval_modify cl s (lc_label lc) st en op' ls None = Inr n0"
        "m = Some (SeqInterval n0)" by blast
  from asAdded_seq [of n0] obtain n where "asAdded (SeqInterval n0) = SeqInterval n" by blast
  with m n0 show ?thesis by auto
qed

lemma change_result:
  assumes "IntervalCollection_change coll (JStr k) st en = (Inr r, coll')"
      and "ic_localCollection coll = Some lc"
      and "lc_idIntervalIndex lc k = Some iv"
  shows "\<exists>lc'. changeInterval (ic_client coll) lc iv st en None None = Inr (r, lc')"
  using assms
  by (auto simp: IntervalCollection_change_def IdIntervalIndex_getIntervalById_def Let_def
      split: option.splits sum.splits prod.splits)

text \<open>
  Claim C10: whatever the stickiness of a sequence interval, the interval that \<open>modify\<close>
  makes for it has stickiness \<open>END\<close>; so has the interval that \<open>changeInterval\<close> and
  \<open>IntervalCollection.change\<close> return, and every endpoint reference they create
  afresh prefers to slide forward, the default.
\<close>

theorem modify_reverts_stickiness:
  "(\<forall>n. SequenceInterval_modify client this label start end' op' localSeq stickinessArg = Inr n
          \<longrightarrow> sq_stickiness n = END)
   \<and> (\<forall>r lc'. changeInterval c lc (SeqInterval this) start end' op' localSeq = Inr (r, lc') \<longrightarrow>
        (\<exists>n. r = Some (SeqInterval n) \<and> sq_stickiness n = END
             \<and> (start \<noteq> None \<longrightarrow> lr_slidingPreference (sq_start n) = FORWARD)
             \<and> (end' \<noteq> None \<longrightarrow> lr_slidingPreference (sq_end n) = FORWARD)))
   \<and> (\<forall>k r coll'. ic_localCollection coll = Some lc \<and> lc_idIntervalIndex lc k = Some (SeqInterval this)
          \<and> IntervalCollection_change coll (JStr k) start end' = (Inr r, coll') \<longrightarrow>
        (\<exists>n. r = Some (SeqInterval n) \<and> sq_stickiness n = END
             \<and> (start \<noteq> None \<longrightarrow> lr_slidingPreference (sq_start n) = FORWARD)
             \<and> (end' \<noteq> None \<longrightarrow> lr_slidingPreference (sq_end n) = FORWARD)))"
proof -
  have A: "\<And>c lc start end' op' localSeq r lc'.
      changeInterval c lc (SeqInterval this) start end' op' localSeq = Inr (r, lc') \<Longrightarrow>
        (\<exists>n. r = Some (SeqInterval n) \<and> sq_stickiness n = END
             \<and> (start \<noteq> None \<longrightarrow> lr_slidingPreference (sq_start n) = FORWARD)
             \<and> (end' \<noteq> None \<longrightarrow> lr_slidingPreference (sq_end n) = FORWARD))"
  proof -
    fix c lc start end' op' localSeq r lc'
    assume "changeInterval c lc (SeqInterval this) start end' op' localSeq = Inr (r, lc')"
    from changeInterval_seq [OF this] obtain cl n0 n where
      n: "SequenceInterval_modify cl this (lc_label lc) start end' op' localSeq None = Inr n0"
         "r = Some (SeqInterval n)" "asAdded (SeqInterval n0) = SeqInterval n"
      by blast
    from asAdded_seq [of n0] n(3) have same: "sq_stickiness n = sq_stickiness n0"
       "lr_slidingPreference (sq_start n) = lr_slidingPreference (sq_start n0)"
       "lr_slidingPreference (sq_end n) = lr_slidingPreference (sq_end n0)"
      by auto
    show "\<exists>n. r = Some (SeqInterval n) \<and> sq_stickiness n = END
             \<and> (start \<noteq> None \<longrightarrow> lr_slidingPreference (sq_start n) = FORWARD)
             \<and> (end' \<noteq> None \<longrightarrow> lr_slidingPreference (sq_end n) = FORWARD)"
      using n(2) same modify_stickiness [OF n(1)] modify_endpoints(3,4) [OF n(1)] by auto
  qed
  show ?thesis
  proof (intro conjI allI impI)
    fix n assume "SequenceInterval_modify client this label start end' op' localSeq stickinessArg = Inr n"
    then show "sq_stickiness n = END" by (rule modify_stickiness)
  next
    fix r lc' assume "changeInterval c lc (SeqInterval this) start end' op' localSeq = Inr (r, lc')"
    then show "\<exists>n. r = Some (SeqInterval n) \<and> sq_stickiness n = END
             \<and> (start \<noteq> None \<longrightarrow> lr_slidingPreference (sq_start n) = FORWARD)
             \<and> (end' \<noteq> None \<longrightarrow> lr_slidingPreference (sq_end n) = FORWARD)"
      by (rule A)
  next
    fix k r coll'
    assume h: "ic_localCollection coll = Some lc \<and> lc_idIntervalIndex lc k = Some (SeqInterval this)
          \<and> IntervalCollection_change coll (JStr k) start end' = (Inr r, coll')"
    then obtain lc' where "changeInterval (ic_client coll) lc (SeqInterval this) start end' None None = Inr (r, lc')"
      using change_result by blast
    then show "\<exists>n. r = Some (SeqInterval n) \<and> sq_stickiness n = END
             \<and> (start \<noteq> None \<longrightarrow> lr_slidingPreference (sq_start n) = FORWARD)
             \<and> (end' \<noteq> None \<longrightarrow> lr_slidingPreference (sq_end n) = FORWARD)"
      by (rule A)
  qed
qed

lemmas all_defs = value_defs interval_defs index_defs collection_defs demo_defs

lemma startStickyCollection_interval:
  "\<exists>lc s. ic_localCollection startStickyCollection = Some lc
      \<and> lc_idIntervalIndex lc ''a'' = Some (SeqInterval s)
      \<and> sq_stickiness s = START
      \<and> lr_slidingPreference (sq_start s) = BACKWARD
      \<and> lr_slidingPreference (sq_end s) = BACKWARD"
  by (simp add: all_defs Let_def)

lemma startStickyCollection_change:
  "\<exists>n c. IntervalCollection_change startStickyCollection (JStr ''a'') None (Some 2)
            = (Inr (Some (SeqInterval n)), c)
      \<and> lr_slidingPreference (sq_start n) = BACKWARD"
  by (simp add: all_defs Let_def)

theorem modify_reverts_stickiness_witness:
  "\<exists>lc s n c. ic_localCollection startStickyCollection = Some lc
      \<and> lc_idIntervalIndex lc ''a'' = Some (SeqInterval s)
      \<and> sq_stickiness s = START
      \<and> IntervalCollection_change startStickyCollection (JStr ''a'') None (Some 2)
            = (Inr (Some (SeqInterval n)), c)
      \<and> sq_stickiness n = END
      \<and> lr_slidingPreference (sq_end n) = FORWARD"
proof -
  from startStickyCollection_interval obtain lc s where
    s: "ic_localCollection startStickyCollection = Some lc"
       "lc_idIntervalIndex lc ''a'' = Some (SeqInterval s)" "sq_stickiness s = START"
    by blast
  from startStickyCollection_change obtain n c where
    n: "IntervalCollection_change startStickyCollection (JStr ''a'') None (Some 2)
            = (Inr (Some (SeqInterval n)), c)"
    by blast
  from modify_reverts_stickiness [where this=s and start=None and end'="Some 2" and lc=lc
      and coll=startStickyCollection] s(1,2) n
  have "sq_stickiness n = END \<and> lr_slidingPreference (sq_end n) = FORWARD"
    by fastforce
  with s n show ?thesis by blast
qed

text \<open>
  Claim C6 does not hold of the code. The interval added with stickiness \<open>START\<close> has the
  sliding preferences its stickiness asks for; after \<open>change(id, undefined, 2)\<close> the new
  interval has stickiness \<open>END\<close>, which asks for a start that slides forward, and keeps the
  old start reference, which slides backward.
\<close>

theorem change_breaks_sliding_preference:
  "\<exists>lc s n c. ic_localCollection startStickyCollection = Some lc
      \<and> lc_idIntervalIndex lc ''a'' = Some (SeqInterval s)
      \<and> slidingPreferencesFollowStickiness s
      \<and> IntervalCollection_change startStickyCollection (JStr ''a'') None (Some 2)
            = (Inr (Some (SeqInterval n)), c)
      \<and> \<not> slidingPreferencesFollowStickiness n"
proof -
  from startStickyCollection_interval obtain lc s where
    s: "ic_localCollection startStickyCollection = Some lc"
       "lc_idIntervalIndex lc ''a'' = Some (SeqInterval s)" "sq_stickiness s = START"
       "lr_slidingPreference (sq_start s) = BACKWARD" "lr_slidingPreference (sq_end s) = BACKWARD"
    by blast
  from startStickyCollection_change obtain n c where
    n: "IntervalCollection_change startStickyCollection (JStr ''a'') None (Some 2)
            = (Inr (Some (SeqInterval n)), c)" "lr_slidingPreference (sq_start n) = BACKWARD"
    by blast
  from change_result [OF n(1) s(1,2)] obtain lc' where
    "changeInterval (ic_client startStickyCollection) lc (SeqInterval s) None (Some 2) None None
       = Inr (Some (SeqInterval n), lc')"
    by blast
  from changeInterval_seq [OF this] obtain cl n0 where
    n0: "SequenceInterval_modify cl s (lc_label lc) None (Some 2) None None None = Inr n0"
        "asAdded (SeqInterval n0) = SeqInterval n"
    by auto
  have "sq_stickiness n = END"
    using modify_stickiness [OF n0(1)] asAdded_seq [of n0] n0(2) by auto
  then have "\<not> slidingPreferencesFollowStickiness n"
    using n(2) by (simp add: slidingPreferencesFollowStickiness_def)
  moreover have "slidingPreferencesFollowStickiness s"
    using s(3-5) by (simp add: slidingPreferencesFollowStickiness_def
        startReferenceSlidingPreference_def endReferenceSlidingPreference_def)
  ultimately show ?thesis using s(1,2) n(1) by blast
qed

section \<open>Changing an interval\<close>

lemmas observation_defs =
  collectionOf_def ofClass_def knownHelpers_def treeEntries_def hasId_def isSequenceInterval_def
  isStartpointIndex_def startPosition_def endPosition_def startRefType_def endRefType_def

lemma collectionOf_lookup:
  "collectionOf q lc \<Longrightarrow> lc_idIntervalIndex lc k = Some iv \<Longrightarrow> ofClass q iv \<and> getIntervalId iv = Inr k"
proof -
  assume wf: "collectionOf q lc" and st: "lc_idIntervalIndex lc k = Some iv"
  then have a: "getIntervalId iv = Inr k" "isSequenceInterval iv = q"
    by (simp_all add: collectionOf_def)
  from a(1) have "hasId iv" by (rule getIntervalId_hasId)
  with a show ?thesis by (simp add: ofClass_def)
qed

lemma Interval_new_fields [simp]:
  "iv_start (Interval_new a b None) = a" "iv_end (Interval_new a b None) = b"
  "iv_properties (Interval_new a b None) = emptyProps"
  "iv_forceCompare (Interval_new a b None) = None"
  by (simp_all add: Interval_new_def Interval_addProperties_def)

lemma Interval_modify_None_iff:
  "Interval_modify i label st en op' = None \<longleftrightarrow>
     (st = None \<or> st = Some (iv_start i)) \<and> (en = None \<or> en = Some (iv_end i))"
  by (auto simp: Interval_modify_def Let_def pmCopyTo_def split: option.splits)

lemma Interval_modify_Some:
  "Interval_modify i label st en op' = Some n \<Longrightarrow>
     iv_start n = (case st of None \<Rightarrow> iv_start i | Some v \<Rightarrow> v)
     \<and> iv_end n = (case en of None \<Rightarrow> iv_end i | Some v \<Rightarrow> v)
     \<and> vals (iv_properties n) = vals (iv_properties i)"
  by (auto simp: Interval_modify_def Let_def pmCopyTo_def emptyProps_def split: option.splits if_splits)

lemma SequenceInterval_new_props [simp]:
  "sq_properties (SequenceInterval_new a b t None st) = emptyProps"
  by (simp add: SequenceInterval_new_def)

lemma SequenceInterval_modify_props:
  "SequenceInterval_modify c s label st en op' ls sa = Inr n \<Longrightarrow>
     vals (sq_properties n) = vals (sq_properties s)"
  by (auto simp: SequenceInterval_modify_def Let_def bindE_Inr_iff pmCopyTo_def emptyProps_def
      split: option.splits)

lemma intervalModify_ofClass:
  assumes "intervalModify c iv label st en op' ls = Inr (Some n)" "ofClass q iv"
  shows "ofClass q n \<and> getIntervalId n = getIntervalId iv"
proof (cases iv)
  case (NumericInterval i)
  with assms(1) obtain n' where n': "Interval_modify i label st en op' = Some n'" "n = NumericInterval n'"
    by (auto simp: intervalModify_def)
  from Interval_modify_Some [OF n'(1)] have "vals (iv_properties n') = vals (iv_properties i)" by simp
  with assms(2) NumericInterval n'(2) show ?thesis
    by (simp add: ofClass_def hasId_def isSequenceInterval_def intervalProperties_def getProp_def
        getIntervalId_def Interval_getIntervalId_def)
next
  case (SeqInterval s)
  with assms(1) obtain cl n' where n': "SequenceInterval_modify cl s label st en op' ls None = Inr n'"
      "n = SeqInterval n'"
    using intervalModify_seq by blast
  from SequenceInterval_modify_props [OF n'(1)] have "vals (sq_properties n') = vals (sq_properties s)" .
  with assms(2) SeqInterval n'(2) show ?thesis
    by (simp add: ofClass_def hasId_def isSequenceInterval_def intervalProperties_def getProp_def
        getIntervalId_def SequenceInterval_getIntervalId_def)
qed

lemma changeInterval_changed:
  assumes wf: "collectionOf q lc" and iv: "ofClass q iv"
    and m: "intervalModify c iv (lc_label lc) st en op' ls = Inr (Some n)"
  shows "\<exists>lc1 lc' k. removeExistingInterval lc iv = Inr (removeIntervalListeners iv, lc1)
           \<and> inNoIndex lc1 iv
           \<and> LocalIntervalCollection_add lc1 n = Inr (asAdded n, lc')
           \<and> inEveryIndexOnce lc' (asAdded n)
           \<and> changeInterval c lc iv st en op' ls = Inr (Some (asAdded n), lc')
           \<and> collectionOf q lc'
           \<and> getIntervalId iv = Inr k \<and> lc_idIntervalIndex lc' k = Some (asAdded n)
           \<and> (\<forall>k'. k' \<noteq> k \<longrightarrow> lc_idIntervalIndex lc' k' = lc_idIntervalIndex lc k')
           \<and> lc_label lc' = lc_label lc \<and> lc_helpers lc' = lc_helpers lc
           \<and> lc_onPositionChange lc' = lc_onPositionChange lc
           \<and> lc_positionChanges lc' = lc_positionChanges lc"
proof -
  from removeExistingInterval_ok [OF wf iv] obtain lc1 k where
    r: "removeExistingInterval lc iv = Inr (removeIntervalListeners iv, lc1)"
       "getIntervalId iv = Inr k" "collectionOf q lc1"
       "\<forall>v. sameKeys iv v \<longrightarrow> v \<notin> set (treeEntries lc1)"
       "lc_idIntervalIndex lc1 = (lc_idIntervalIndex lc)(k := None)"
       "lc_label lc1 = lc_label lc" "lc_helpers lc1 = lc_helpers lc"
       "lc_onPositionChange lc1 = lc_onPositionChange lc"
       "lc_positionChanges lc1 = lc_positionChanges lc"
    by blast
  have gone: "inNoIndex lc1 iv" using wf r(4) r(2) r(5) by (rule inNoIndex_after_remove)
  from intervalModify_ofClass [OF m iv] have n: "ofClass q n" "getIntervalId n = Inr k"
    using r(2) by simp_all
  from LocalIntervalCollection_add_ok [OF r(3) n(1)] n(2) obtain lc' where
    a: "LocalIntervalCollection_add lc1 n = Inr (asAdded n, lc')" "collectionOf q lc'"
       "inEveryIndexOnce lc' (asAdded n)" "lc_idIntervalIndex lc' k = Some (asAdded n)"
       "\<forall>k'. k' \<noteq> k \<longrightarrow> lc_idIntervalIndex lc' k' = lc_idIntervalIndex lc1 k'"
       "lc_label lc' = lc_label lc1" "lc_helpers lc' = lc_helpers lc1"
       "lc_onPositionChange lc' = lc_onPositionChange lc1"
       "lc_positionChanges lc' = lc_positionChanges lc1"
    by auto
  have c: "changeInterval c lc iv st en op' ls = Inr (Some (asAdded n), lc')"
    using m r(1) a(1) by (simp add: changeInterval_def)
  have others: "\<forall>k'. k' \<noteq> k \<longrightarrow> lc_idIntervalIndex lc' k' = lc_idIntervalIndex lc k'"
    using a(5) r(5) by simp
  show ?thesis
    using r(1,2,6-9) gone a(1-4,6-9) c others by auto
qed

lemma changeInterval_unchanged:
  "intervalModify c iv (lc_label lc) st en op' ls = Inr None \<Longrightarrow>
   changeInterval c lc iv st en op' ls = Inr (None, lc)"
  by (simp add: changeInterval_def)

lemma changeInterval_throws:
  "intervalModify c iv (lc_label lc) st en op' ls = Inl e \<Longrightarrow>
   changeInterval c lc iv st en op' ls = Inl e"
  by (simp add: changeInterval_def)

lemma intervalModify_seq_never_None:
  "intervalModify c (SeqInterval s) label st en op' ls \<noteq> Inr None"
  by (auto simp: intervalModify_def bindE_def split: option.splits sum.splits)

lemma intervalModify_numeric:
  "intervalModify c (NumericInterval i) label st en op' ls
     = Inr (map_option NumericInterval (Interval_modify i label st en op'))"
  by (simp add: intervalModify_def)

text \<open>
  Claim C5, amended. In a well-formed collection \<open>changeInterval\<close> calls \<open>modify\<close>. When
  \<open>modify\<close> returns \<^verbatim>\<open>undefined\<close> the result is \<^verbatim>\<open>undefined\<close> and the collection is the one
  given. When it returns a new interval, the old interval is removed from every index, the
  new one is added to every index, once in each, and returned. A numeric interval is
  unchanged, and \<open>modify\<close> returns \<^verbatim>\<open>undefined\<close>, exactly when each requested position is
  absent or equal to the current one. For a sequence interval \<open>modify\<close> never returns
  \<^verbatim>\<open>undefined\<close>, so \<open>changeInterval\<close> never reports it unchanged.
\<close>

theorem changeInterval_spec:
  assumes "collectionOf sequence lc" and "ofClass sequence interval"
  shows "(intervalModify client interval (lc_label lc) start end' op' localSeq = Inr None \<longrightarrow>
            changeInterval client lc interval start end' op' localSeq = Inr (None, lc))
     \<and> (\<forall>n. intervalModify client interval (lc_label lc) start end' op' localSeq = Inr (Some n) \<longrightarrow>
            (\<exists>lc1 lc'. removeExistingInterval lc interval = Inr (removeIntervalListeners interval, lc1)
               \<and> inNoIndex lc1 interval
               \<and> LocalIntervalCollection_add lc1 n = Inr (asAdded n, lc')
               \<and> inEveryIndexOnce lc' (asAdded n)
               \<and> changeInterval client lc interval start end' op' localSeq = Inr (Some (asAdded n), lc')))
     \<and> (\<forall>i. interval = NumericInterval i \<longrightarrow>
            (\<exists>m. intervalModify client interval (lc_label lc) start end' op' localSeq = Inr m
               \<and> (m = None \<longleftrightarrow> (start = None \<or> start = Some (iv_start i))
                                \<and> (end' = None \<or> end' = Some (iv_end i)))
               \<and> (\<forall>n. m = Some n \<longrightarrow>
                     startPosition n = (None, case start of None \<Rightarrow> iv_start i | Some v \<Rightarrow> v)
                     \<and> endPosition n = (None, case end' of None \<Rightarrow> iv_end i | Some v \<Rightarrow> v))))
     \<and> (\<forall>s. interval = SeqInterval s \<longrightarrow>
            intervalModify client interval (lc_label lc) start end' op' localSeq \<noteq> Inr None
            \<and> changeInterval client lc interval start end' op' localSeq \<noteq> Inr (None, lc))"
proof (intro conjI allI impI)
  assume "intervalModify client interval (lc_label lc) start end' op' localSeq = Inr None"
  then show "changeInterval client lc interval start end' op' localSeq = Inr (None, lc)"
    by (rule changeInterval_unchanged)
next
  fix n assume "intervalModify client interval (lc_label lc) start end' op' localSeq = Inr (Some n)"
  from changeInterval_changed [OF assms this]
  show "\<exists>lc1 lc'. removeExistingInterval lc interval = Inr (removeIntervalListeners interval, lc1)
               \<and> inNoIndex lc1 interval
               \<and> LocalIntervalCollection_add lc1 n = Inr (asAdded n, lc')
               \<and> inEveryIndexOnce lc' (asAdded n)
               \<and> changeInterval client lc interval start end' op' localSeq = Inr (Some (asAdded n), lc')"
    by blast
next
  fix i assume i: "interval = NumericInterval i"
  let ?m = "map_option NumericInterval (Interval_modify i (lc_label lc) start end' op')"
  have 1: "intervalModify client interval (lc_label lc) start end' op' localSeq = Inr ?m"
    using i by (simp add: intervalModify_numeric)
  have 2: "?m = None \<longleftrightarrow> (start = None \<or> start = Some (iv_start i))
                                \<and> (end' = None \<or> end' = Some (iv_end i))"
    using Interval_modify_None_iff [of i "lc_label lc" start end' op'] by simp
  have 3: "\<forall>n. ?m = Some n \<longrightarrow>
                     startPosition n = (None, case start of None \<Rightarrow> iv_start i | Some v \<Rightarrow> v)
                     \<and> endPosition n = (None, case end' of None \<Rightarrow> iv_end i | Some v \<Rightarrow> v)"
    by (auto simp: startPosition_def endPosition_def dest!: Interval_modify_Some)
  from 1 2 3 have "intervalModify client interval (lc_label lc) start end' op' localSeq = Inr ?m
               \<and> (?m = None \<longleftrightarrow> (start = None \<or> start = Some (iv_start i))
                                \<and> (end' = None \<or> end' = Some (iv_end i)))
               \<and> (\<forall>n. ?m = Some n \<longrightarrow>
                     startPosition n = (None, case start of None \<Rightarrow> iv_start i | Some v \<Rightarrow> v)
                     \<and> endPosition n = (None, case end' of None \<Rightarrow> iv_end i | Some v \<Rightarrow> v))"
    by - (intro conjI; assumption)
  then show "\<exists>m. intervalModify client interval (lc_label lc) start end' op' localSeq = Inr m
               \<and> (m = None \<longleftrightarrow> (start = None \<or> start = Some (iv_start i))
                                \<and> (end' = None \<or> end' = Some (iv_end i)))
               \<and> (\<forall>n. m = Some n \<longrightarrow>
                     startPosition n = (None, case start of None \<Rightarrow> iv_start i | Some v \<Rightarrow> v)
                     \<and> endPosition n = (None, case end' of None \<Rightarrow> iv_end i | Some v \<Rightarrow> v))"
    by (rule exI)
next
  fix s assume s: "interval = SeqInterval s"
  then show "intervalModify client interval (lc_label lc) start end' op' localSeq \<noteq> Inr None"
    by (simp add: intervalModify_seq_never_None)
next
  fix s assume s: "interval = SeqInterval s"
  show "changeInterval client lc interval start end' op' localSeq \<noteq> Inr (None, lc)"
  proof
    assume "changeInterval client lc interval start end' op' localSeq = Inr (None, lc)"
    from changeInterval_shape [OF this] s intervalModify_seq_never_None [of client s]
    show False by auto
  qed
qed

lemma numericLocal_ok: "collectionOf False numericLocal \<and> ofClass False numericInterval"
  by (simp add: all_defs observation_defs Let_def)

lemma numericInterval_value:
  "\<exists>i. numericInterval = NumericInterval i \<and> iv_start i = 1 \<and> iv_end i = 3"
  by (simp add: all_defs Let_def)

theorem changeInterval_spec_witness:
  "collectionOf False numericLocal \<and> ofClass False numericInterval
   \<and> changeInterval None numericLocal numericInterval (Some 1) (Some 3) None None
       = Inr (None, numericLocal)
   \<and> (\<exists>n lc'. changeInterval None numericLocal numericInterval (Some 2) None None None
                  = Inr (Some (asAdded n), lc')
        \<and> inEveryIndexOnce lc' (asAdded n)
        \<and> startPosition n = (None, 2) \<and> endPosition n = (None, 3))"
proof -
  from numericLocal_ok have wf: "collectionOf False numericLocal"
    and iv: "ofClass False numericInterval" by simp_all
  from numericInterval_value obtain i where
    i: "numericInterval = NumericInterval i" "iv_start i = 1" "iv_end i = 3" by blast
  note same = changeInterval_spec [OF wf iv, of None "Some 1" "Some 3" None None]
  from same i obtain m where
    m: "intervalModify None numericInterval (lc_label numericLocal) (Some 1) (Some 3) None None = Inr m"
       "m = None" by auto
  with same have unchanged:
    "changeInterval None numericLocal numericInterval (Some 1) (Some 3) None None
       = Inr (None, numericLocal)" by simp
  note other = changeInterval_spec [OF wf iv, of None "Some 2" None None None]
  from other i obtain n where
    n: "intervalModify None numericInterval (lc_label numericLocal) (Some 2) None None None
          = Inr (Some n)"
       "startPosition n = (None, 2)" "endPosition n = (None, 3)" by auto
  with other obtain lc' where
    "changeInterval None numericLocal numericInterval (Some 2) None None None
       = Inr (Some (asAdded n), lc')" "inEveryIndexOnce lc' (asAdded n)" by auto
  with wf iv unchanged n(2,3) show ?thesis by blast
qed

text \<open>
  The sequence interval at positions 1 and 3 of the document, changed to the positions 1
  and 3 it already has: \<open>changeInterval\<close> does not return \<^verbatim>\<open>undefined\<close> but a new interval.
\<close>

theorem changeInterval_unchanged_counterexample:
  "startPosition demoInterval = (Some demoSegment, 1)
   \<and> endPosition demoInterval = (Some demoSegment, 3)
   \<and> \<not> isl (changeInterval (Some demoClient) demoLocal demoInterval (Some 1) (Some 3) None None)
   \<and> fst (projr (changeInterval (Some demoClient) demoLocal demoInterval (Some 1) (Some 3) None None))
       \<noteq> None
   \<and> changeInterval (Some demoClient) demoLocal demoInterval (Some 1) (Some 3) None None
       \<noteq> Inr (None, demoLocal)"
proof -
  have pos: "startPosition demoInterval = (Some demoSegment, 1)
             \<and> endPosition demoInterval = (Some demoSegment, 3)"
    by (simp add: all_defs observation_defs Let_def)
  have run: "\<not> isl (changeInterval (Some demoClient) demoLocal demoInterval (Some 1) (Some 3) None None)
     \<and> fst (projr (changeInterval (Some demoClient) demoLocal demoInterval (Some 1) (Some 3) None None))
         \<noteq> None"
    by (simp add: all_defs Let_def)
  then have "changeInterval (Some demoClient) demoLocal demoInterval (Some 1) (Some 3) None None
          \<noteq> Inr (None, demoLocal)"
    by auto
  with pos run show ?thesis by simp
qed

section \<open>Slide bursts\<close>

lemma addIntervalToIndexes_every:
  assumes wf: "collectionOf q lc" and iv: "ofClass q iv"
  shows "\<exists>lc1. addIntervalToIndexes lc iv = Inr (withIdNonWritable iv, lc1)
     \<and> collectionOf q lc1 \<and> inEveryIndexOnce lc1 (withIdNonWritable iv)
     \<and> lc_onPositionChange lc1 = lc_onPositionChange lc
     \<and> lc_positionChanges lc1 = lc_positionChanges lc"
proof -
  let ?w = "withIdNonWritable iv"
  from addIntervalToIndexes_ok [OF wf iv] obtain lc1 k where
    a: "addIntervalToIndexes lc iv = Inr (?w, lc1)" "getIntervalId iv = Inr k"
       "collectionOf q lc1" "allTrees (\<lambda>zs. once zs ?w) lc1"
       "lc_idIntervalIndex lc1 = (lc_idIntervalIndex lc)(k \<mapsto> ?w)"
       "lc_onPositionChange lc1 = lc_onPositionChange lc"
       "lc_positionChanges lc1 = lc_positionChanges lc"
    by blast
  have k': "getIntervalId ?w = Inr k"
    using a(2) sameKeys_getIntervalId [OF markKeys, of iv] by simp
  have trees: "allTrees (\<lambda>zs. count_list zs ?w = 1) lc1"
    using a(4) by (rule allTrees_mono) (rule once_count)
  have keyed: "\<And>k' v. lc_idIntervalIndex lc1 k' = Some v \<Longrightarrow> getIntervalId v = Inr k'"
    using a(3) by (simp add: collectionOf_def)
  have only: "\<And>k'. lc_idIntervalIndex lc1 k' = Some ?w \<Longrightarrow> k' = k"
    using keyed k' by fastforce
  have there: "lc_idIntervalIndex lc1 k = Some ?w" using a(5) by simp
  have "{k'. lc_idIntervalIndex lc1 k' = Some ?w} = {k}"
    using only there by blast
  with trees k' have "inEveryIndexOnce lc1 ?w" by (simp add: inEveryIndexOnce_def)
  with a(1,3,6,7) show ?thesis by blast
qed

lemma withIdNonWritable_seq:
  "withIdNonWritable (SeqInterval x)
     = SeqInterval (x\<lparr> sq_properties := defineNonWritable (sq_properties x) reservedIntervalIdKey \<rparr>)"
  by (simp add: withIdNonWritable_def setIntervalProperties_def intervalProperties_def)

lemma assign_ofClass:
  "ofClass True (SeqInterval x) \<Longrightarrow>
   ofClass True (SeqInterval (x\<lparr> sq_start := a \<rparr>)) \<and> ofClass True (SeqInterval (x\<lparr> sq_end := b \<rparr>))"
  by (simp add: ofClass_def hasId_def isSequenceInterval_def intervalProperties_def)

lemma afterPositionChange_last:
  assumes wf: "collectionOf True lc" and cls: "ofClass True (SeqInterval (ls_interval ls))"
    and prev: "ls_previousInterval ls = Some p" and pend: "ls_pendingChanges ls = 1"
  shows "\<exists>lc' s'. afterPositionChange lc ls = Inr (lc', newSlideListener s')
     \<and> SeqInterval s' = withIdNonWritable (SeqInterval (ls_interval ls))
     \<and> inEveryIndexOnce lc' (SeqInterval s') \<and> collectionOf True lc'
     \<and> lc_onPositionChange lc' = lc_onPositionChange lc
     \<and> lc_positionChanges lc'
         = lc_positionChanges lc
             @ (if lc_onPositionChange lc then [(SeqInterval s', SeqInterval p)] else [])"
proof -
  let ?x = "ls_interval ls"
  let ?s' = "?x\<lparr> sq_properties := defineNonWritable (sq_properties ?x) reservedIntervalIdKey \<rparr>"
  have w: "withIdNonWritable (SeqInterval ?x) = SeqInterval ?s'" by (rule withIdNonWritable_seq)
  from addIntervalToIndexes_every [OF wf cls] w obtain lc1 where
    a: "addIntervalToIndexes lc (SeqInterval ?x) = Inr (SeqInterval ?s', lc1)"
       "collectionOf True lc1" "inEveryIndexOnce lc1 (SeqInterval ?s')"
       "lc_onPositionChange lc1 = lc_onPositionChange lc"
       "lc_positionChanges lc1 = lc_positionChanges lc"
    by auto
  let ?lc2 = "if lc_onPositionChange lc1
              then lc1\<lparr> lc_positionChanges := lc_positionChanges lc1 @ [(SeqInterval ?s', SeqInterval p)] \<rparr>
              else lc1"
  have run: "afterPositionChange lc ls = Inr (?lc2, newSlideListener ?s')"
    using prev pend a(1) by (simp add: afterPositionChange_def Let_def newSlideListener_def)
  have every: "inEveryIndexOnce ?lc2 (SeqInterval ?s')"
    using a(3) by (simp add: inEveryIndexOnce_def allTrees_def)
  have wf2: "collectionOf True ?lc2"
    using a(2) by (simp add: collectionOf_def treeEntries_def)
  have cb: "lc_onPositionChange ?lc2 = lc_onPositionChange lc" using a(4) by simp
  have pc: "lc_positionChanges ?lc2
         = lc_positionChanges lc
             @ (if lc_onPositionChange lc then [(SeqInterval ?s', SeqInterval p)] else [])"
    using a(4,5) by simp
  from run w every wf2 cb pc show ?thesis by metis
qed

lemma burst_run:
  assumes wf: "collectionOf True lc"
  shows "ofClass True (SeqInterval (ls_interval ls)) \<Longrightarrow> ls_previousInterval ls = Some p \<Longrightarrow>
     ls_pendingChanges ls = int (Suc n) \<Longrightarrow> burstFrom (Suc n) steps \<Longrightarrow>
     \<exists>lc' s'. runSlide lc ls steps = Inr (lc', newSlideListener s')
       \<and> SeqInterval s' = withIdNonWritable (SeqInterval (slidInterval (ls_interval ls) steps))
       \<and> inEveryIndexOnce lc' (SeqInterval s') \<and> collectionOf True lc'
       \<and> lc_onPositionChange lc' = lc_onPositionChange lc
       \<and> lc_positionChanges lc'
           = lc_positionChanges lc
               @ (if lc_onPositionChange lc then [(SeqInterval s', SeqInterval p)] else [])"
proof (induction steps arbitrary: ls n)
  case Nil
  then show ?case by simp
next
  case (Cons step steps)
  show ?case
  proof (cases step)
    case BeforeSlide
    let ?ls = "ls\<lparr> ls_pendingChanges := ls_pendingChanges ls + 1 \<rparr>"
    have step: "slideStep lc ls step = Inr (lc, ?ls)"
      using BeforeSlide Cons.prems(2) by (simp add: beforePositionChange_def Let_def)
    have "\<exists>lc' s'. runSlide lc ?ls steps = Inr (lc', newSlideListener s')
       \<and> SeqInterval s' = withIdNonWritable (SeqInterval (slidInterval (ls_interval ?ls) steps))
       \<and> inEveryIndexOnce lc' (SeqInterval s') \<and> collectionOf True lc'
       \<and> lc_onPositionChange lc' = lc_onPositionChange lc
       \<and> lc_positionChanges lc'
           = lc_positionChanges lc
               @ (if lc_onPositionChange lc then [(SeqInterval s', SeqInterval p)] else [])"
      using Cons.prems BeforeSlide by (intro Cons.IH [of ?ls "Suc n"]) simp_all
    then show ?thesis using step BeforeSlide by simp
  next
    case AfterSlide
    show ?thesis
    proof (cases n)
      case 0
      with Cons.prems(4) AfterSlide have last: "steps = []" by simp
      have pend: "ls_pendingChanges ls = 1" using Cons.prems(3) 0 by simp
      from afterPositionChange_last [OF wf Cons.prems(1) Cons.prems(2) pend] obtain lc' s' where
        l: "afterPositionChange lc ls = Inr (lc', newSlideListener s')"
           "SeqInterval s' = withIdNonWritable (SeqInterval (ls_interval ls))"
           "inEveryIndexOnce lc' (SeqInterval s')" "collectionOf True lc'"
           "lc_onPositionChange lc' = lc_onPositionChange lc"
           "lc_positionChanges lc'
              = lc_positionChanges lc
                  @ (if lc_onPositionChange lc then [(SeqInterval s', SeqInterval p)] else [])"
        by blast
      have run: "runSlide lc ls (step # steps) = Inr (lc', newSlideListener s')"
        using l(1) AfterSlide last by simp
      have sl: "slidInterval (ls_interval ls) (step # steps) = ls_interval ls"
        using AfterSlide last by simp
      show ?thesis
        unfolding sl
        by (rule exI [of _ lc'], rule exI [of _ s']) (intro conjI; fact)
    next
      case (Suc m)
      let ?ls = "ls\<lparr> ls_pendingChanges := ls_pendingChanges ls - 1 \<rparr>"
      have step: "slideStep lc ls step = Inr (lc, ?ls)"
        using AfterSlide Cons.prems(2,3) Suc by (simp add: afterPositionChange_def Let_def)
      have "\<exists>lc' s'. runSlide lc ?ls steps = Inr (lc', newSlideListener s')
         \<and> SeqInterval s' = withIdNonWritable (SeqInterval (slidInterval (ls_interval ?ls) steps))
         \<and> inEveryIndexOnce lc' (SeqInterval s') \<and> collectionOf True lc'
         \<and> lc_onPositionChange lc' = lc_onPositionChange lc
         \<and> lc_positionChanges lc'
             = lc_positionChanges lc
                 @ (if lc_onPositionChange lc then [(SeqInterval s', SeqInterval p)] else [])"
        using Cons.prems AfterSlide Suc by (intro Cons.IH [of ?ls m]) simp_all
      then show ?thesis using step AfterSlide by simp
    qed
  next
    case (AssignStart seg off)
    let ?ls = "ls\<lparr> ls_interval := (ls_interval ls)
                     \<lparr> sq_start := assignSegment (sq_start (ls_interval ls)) seg off \<rparr> \<rparr>"
    have step: "slideStep lc ls step = Inr (lc, ?ls)" using AssignStart by simp
    have cls: "ofClass True (SeqInterval (ls_interval ?ls))"
      using assign_ofClass [OF Cons.prems(1)] by simp
    have "\<exists>lc' s'. runSlide lc ?ls steps = Inr (lc', newSlideListener s')
       \<and> SeqInterval s' = withIdNonWritable (SeqInterval (slidInterval (ls_interval ?ls) steps))
       \<and> inEveryIndexOnce lc' (SeqInterval s') \<and> collectionOf True lc'
       \<and> lc_onPositionChange lc' = lc_onPositionChange lc
       \<and> lc_positionChanges lc'
           = lc_positionChanges lc
               @ (if lc_onPositionChange lc then [(SeqInterval s', SeqInterval p)] else [])"
      using Cons.prems AssignStart cls by (intro Cons.IH [of ?ls n]) simp_all
    then show ?thesis using step AssignStart by simp
  next
    case (AssignEnd seg off)
    let ?ls = "ls\<lparr> ls_interval := (ls_interval ls)
                     \<lparr> sq_end := assignSegment (sq_end (ls_interval ls)) seg off \<rparr> \<rparr>"
    have step: "slideStep lc ls step = Inr (lc, ?ls)" using AssignEnd by simp
    have cls: "ofClass True (SeqInterval (ls_interval ?ls))"
      using assign_ofClass [OF Cons.prems(1)] by simp
    have "\<exists>lc' s'. runSlide lc ?ls steps = Inr (lc', newSlideListener s')
       \<and> SeqInterval s' = withIdNonWritable (SeqInterval (slidInterval (ls_interval ?ls) steps))
       \<and> inEveryIndexOnce lc' (SeqInterval s') \<and> collectionOf True lc'
       \<and> lc_onPositionChange lc' = lc_onPositionChange lc
       \<and> lc_positionChanges lc'
           = lc_positionChanges lc
               @ (if lc_onPositionChange lc then [(SeqInterval s', SeqInterval p)] else [])"
      using Cons.prems AssignEnd cls by (intro Cons.IH [of ?ls n]) simp_all
    then show ?thesis using step AssignEnd by simp
  qed
qed

lemma slideBurst_first:
  "slideBurst steps \<Longrightarrow> \<exists>rest. steps = BeforeSlide # rest \<and> burstFrom (Suc 0) rest"
proof (cases steps)
  case Nil
  assume "slideBurst steps" with Nil show ?thesis by (simp add: slideBurst_def)
next
  case (Cons step rest)
  assume "slideBurst steps" with Cons show ?thesis
    by (cases step) (simp_all add: slideBurst_def)
qed

lemma beforePositionChange_first:
  assumes wf: "collectionOf True lc" and cls: "ofClass True (SeqInterval s)"
  shows "\<exists>lc1 ls1. beforePositionChange lc (newSlideListener s) = Inr (lc1, ls1)
     \<and> inNoIndex lc1 (SeqInterval s) \<and> collectionOf True lc1
     \<and> ls_interval ls1 = s \<and> ls_pendingChanges ls1 = 1
     \<and> ls_previousInterval ls1 = Some (previousIntervalOf s)
     \<and> lc_onPositionChange lc1 = lc_onPositionChange lc
     \<and> lc_positionChanges lc1 = lc_positionChanges lc"
proof -
  from removeIntervalFromIndexes_ok [OF wf cls] obtain lc1 k where
    r: "removeIntervalFromIndexes lc (SeqInterval s) = Inr lc1" "getIntervalId (SeqInterval s) = Inr k"
       "collectionOf True lc1"
       "\<forall>v. sameKeys (SeqInterval s) v \<longrightarrow> v \<notin> set (treeEntries lc1)"
       "lc_idIntervalIndex lc1 = (lc_idIntervalIndex lc)(k := None)"
       "lc_onPositionChange lc1 = lc_onPositionChange lc"
       "lc_positionChanges lc1 = lc_positionChanges lc"
    by blast
  have gone: "inNoIndex lc1 (SeqInterval s)" using wf r(4) r(2) r(5) by (rule inNoIndex_after_remove)
  have "beforePositionChange lc (newSlideListener s)
          = Inr (lc1, \<lparr> ls_interval = s, ls_previousInterval = Some (previousIntervalOf s),
                        ls_pendingChanges = 1 \<rparr>)"
    using r(1) by (simp add: beforePositionChange_def newSlideListener_def previousIntervalOf_def Let_def)
  with gone r(3,6,7) show ?thesis by simp
qed

text \<open>
  Claim C2: for a sequence interval of a well-formed collection and a burst of slide
  callbacks, the first \<open>beforeSlide\<close> takes the interval out of every index; the run of the
  whole burst succeeds, leaves the listener as it was before the burst, and leaves the
  interval, at the positions the burst assigned, in every index exactly once; the
  position-change callback, when the collection has one, is called exactly once, with the
  interval and the clone taken at the first \<open>beforeSlide\<close>. An \<open>afterSlide\<close> that no
  \<open>beforeSlide\<close> precedes fails the assertion \<open>0x3fa\<close>.
\<close>

theorem slide_burst:
  assumes "collectionOf True lc" and "ofClass True (SeqInterval s)" and "slideBurst steps"
  shows "(\<exists>lc1 ls1. beforePositionChange lc (newSlideListener s) = Inr (lc1, ls1)
            \<and> inNoIndex lc1 (SeqInterval s))
     \<and> (\<exists>lc' s'. runSlide lc (newSlideListener s) steps = Inr (lc', newSlideListener s')
            \<and> SeqInterval s' = withIdNonWritable (SeqInterval (slidInterval s steps))
            \<and> inEveryIndexOnce lc' (SeqInterval s')
            \<and> lc_positionChanges lc'
                = lc_positionChanges lc
                    @ (if lc_onPositionChange lc
                       then [(SeqInterval s', SeqInterval (previousIntervalOf s))] else []))
     \<and> runSlide lc (newSlideListener s) (AfterSlide # others) = Inl (AssertionError ''0x3fa'')"
proof (intro conjI)
  from beforePositionChange_first [OF assms(1,2)]
  show "\<exists>lc1 ls1. beforePositionChange lc (newSlideListener s) = Inr (lc1, ls1)
            \<and> inNoIndex lc1 (SeqInterval s)"
    by blast
next
  from slideBurst_first [OF assms(3)] obtain rest where
    rest: "steps = BeforeSlide # rest" "burstFrom (Suc 0) rest" by blast
  from beforePositionChange_first [OF assms(1,2)] obtain lc1 ls1 where
    b: "beforePositionChange lc (newSlideListener s) = Inr (lc1, ls1)" "collectionOf True lc1"
       "ls_interval ls1 = s" "ls_pendingChanges ls1 = 1"
       "ls_previousInterval ls1 = Some (previousIntervalOf s)"
       "lc_onPositionChange lc1 = lc_onPositionChange lc"
       "lc_positionChanges lc1 = lc_positionChanges lc"
    by blast
  have cls: "ofClass True (SeqInterval (ls_interval ls1))" using assms(2) b(3) by simp
  have pend: "ls_pendingChanges ls1 = int (Suc 0)" using b(4) by simp
  from burst_run [OF b(2) cls b(5) pend rest(2)] obtain lc' s' where
    r: "runSlide lc1 ls1 rest = Inr (lc', newSlideListener s')"
       "SeqInterval s' = withIdNonWritable (SeqInterval (slidInterval (ls_interval ls1) rest))"
       "inEveryIndexOnce lc' (SeqInterval s')"
       "lc_positionChanges lc'
           = lc_positionChanges lc1
               @ (if lc_onPositionChange lc1
                  then [(SeqInterval s', SeqInterval (previousIntervalOf s))] else [])"
    by blast
  have run: "runSlide lc (newSlideListener s) steps = Inr (lc', newSlideListener s')"
    using rest(1) b(1) r(1) by simp
  have same: "SeqInterval s' = withIdNonWritable (SeqInterval (slidInterval s steps))"
    using r(2) b(3) rest(1) by simp
  have pc: "lc_positionChanges lc'
                = lc_positionChanges lc
                    @ (if lc_onPositionChange lc
                       then [(SeqInterval s', SeqInterval (previousIntervalOf s))] else [])"
    using r(4) b(6,7) by simp
  from run same r(3) pc
  show "\<exists>lc' s'. runSlide lc (newSlideListener s) steps = Inr (lc', newSlideListener s')
            \<and> SeqInterval s' = withIdNonWritable (SeqInterval (slidInterval s steps))
            \<and> inEveryIndexOnce lc' (SeqInterval s')
            \<and> lc_positionChanges lc'
                = lc_positionChanges lc
                    @ (if lc_onPositionChange lc
                       then [(SeqInterval s', SeqInterval (previousIntervalOf s))] else [])"
    by blast
next
  show "runSlide lc (newSlideListener s) (AfterSlide # others) = Inl (AssertionError ''0x3fa'')"
    by (simp add: afterPositionChange_def newSlideListener_def)
qed

lemma ofClass_seq: "ofClass True iv \<Longrightarrow> \<exists>s. iv = SeqInterval s"
  by (cases iv) (simp_all add: ofClass_def isSequenceInterval_def)

lemma demoLocal_ok:
  "collectionOf True demoLocal \<and> ofClass True demoInterval
   \<and> lc_onPositionChange demoLocal \<and> lc_positionChanges demoLocal = []"
  by (simp add: all_defs observation_defs Let_def)

theorem slide_burst_witness:
  "\<exists>s lc' s'. demoInterval = SeqInterval s
     \<and> collectionOf True demoLocal \<and> ofClass True (SeqInterval s)
     \<and> slideBurst [BeforeSlide, BeforeSlide, AssignStart (Some demoSegment) 2, AfterSlide,
                    AssignEnd (Some demoSegment) 4, AfterSlide]
     \<and> runSlide demoLocal (newSlideListener s)
          [BeforeSlide, BeforeSlide, AssignStart (Some demoSegment) 2, AfterSlide,
           AssignEnd (Some demoSegment) 4, AfterSlide]
         = Inr (lc', newSlideListener s')
     \<and> inEveryIndexOnce lc' (SeqInterval s')
     \<and> startPosition (SeqInterval s') = (Some demoSegment, 2)
     \<and> endPosition (SeqInterval s') = (Some demoSegment, 4)
     \<and> lc_positionChanges lc' = [(SeqInterval s', SeqInterval (previousIntervalOf s))]"
proof -
  let ?steps = "[BeforeSlide, BeforeSlide, AssignStart (Some demoSegment) 2, AfterSlide,
                 AssignEnd (Some demoSegment) 4, AfterSlide]"
  from demoLocal_ok have wf: "collectionOf True demoLocal" and cls: "ofClass True demoInterval"
    and cb: "lc_onPositionChange demoLocal" "lc_positionChanges demoLocal = []" by simp_all
  from ofClass_seq [OF cls] obtain s where s: "demoInterval = SeqInterval s" by blast
  have cls':"ofClass True (SeqInterval s)" using cls s by simp
  have burst: "slideBurst ?steps" by (simp add: slideBurst_def)
  from slide_burst [OF wf cls' burst] obtain lc' s' where
    r: "runSlide demoLocal (newSlideListener s) ?steps = Inr (lc', newSlideListener s')"
       "SeqInterval s' = withIdNonWritable (SeqInterval (slidInterval s ?steps))"
       "inEveryIndexOnce lc' (SeqInterval s')"
       "lc_positionChanges lc'
          = lc_positionChanges demoLocal
              @ (if lc_onPositionChange demoLocal
                 then [(SeqInterval s', SeqInterval (previousIntervalOf s))] else [])"
    by blast
  have pos: "startPosition (SeqInterval s') = (Some demoSegment, 2)"
       "endPosition (SeqInterval s') = (Some demoSegment, 4)"
    unfolding r(2)
    by (simp_all add: withIdNonWritable_seq startPosition_def endPosition_def assignSegment_def)
  have pc: "lc_positionChanges lc' = [(SeqInterval s', SeqInterval (previousIntervalOf s))]"
    using r(4) cb by simp
  show ?thesis
    by (rule exI [of _ s], rule exI [of _ lc'], rule exI [of _ s']) (intro conjI; fact)
qed

section \<open>Remote changes and pending local changes\<close>

lemma asAdded_positions [simp]:
  "startPosition (asAdded a) = startPosition a" "endPosition (asAdded a) = endPosition a"
  by (cases a; simp add: asAdded_def linkEndpointsToInterval_def Let_def setIntervalProperties_def
      intervalProperties_def addIntervalListeners_def addPositionChangeListeners_def
      startPosition_def endPosition_def refAddProperties_def)+

lemma addProperties_positions [simp]:
  "startPosition (fst (intervalAddProperties a p c s)) = startPosition a"
  "endPosition (fst (intervalAddProperties a p c s)) = endPosition a"
  by (cases a; simp add: intervalAddProperties_def Interval_addProperties_def
      SequenceInterval_addProperties_def startPosition_def endPosition_def split: prod.splits)+

lemma modify_positions:
  assumes m: "intervalModify c iv label st en (Some op') None = Inr (Some n)"
  shows "(st = None \<longrightarrow> startPosition n = startPosition iv)
     \<and> (en = None \<longrightarrow> endPosition n = endPosition iv)
     \<and> (\<forall>v. st = Some v \<longrightarrow>
           appliedPosition c (isSequenceInterval iv) (startRefType iv) op' v (startPosition n))
     \<and> (\<forall>v. en = Some v \<longrightarrow>
           appliedPosition c (isSequenceInterval iv) (endRefType iv) op' v (endPosition n))"
proof (cases iv)
  case (NumericInterval i)
  with m obtain n' where n': "Interval_modify i label st en (Some op') = Some n'" "n = NumericInterval n'"
    by (auto simp: intervalModify_def)
  from Interval_modify_Some [OF n'(1)] n'(2) NumericInterval show ?thesis
    by (auto simp: startPosition_def endPosition_def appliedPosition_def isSequenceInterval_def)
next
  case (SeqInterval s)
  with m obtain cl n0 where n0: "c = Some cl"
      "SequenceInterval_modify cl s label st en (Some op') None None = Inr n0" "n = SeqInterval n0"
    using intervalModify_seq by blast
  from n0(2) have
    "(st = None \<longrightarrow> sq_start n0 = sq_start s) \<and> (en = None \<longrightarrow> sq_end n0 = sq_end s)
     \<and> (\<forall>v. st = Some v \<longrightarrow>
          (\<exists>ref. createPositionReference cl v (lr_refType (sq_start s)) (Some op') None None (Some FORWARD)
                   = Inr ref
                 \<and> lr_segment (sq_start n0) = lr_segment ref \<and> lr_offset (sq_start n0) = lr_offset ref))
     \<and> (\<forall>v. en = Some v \<longrightarrow>
          (\<exists>ref. createPositionReference cl v (lr_refType (sq_end s)) (Some op') None None (Some FORWARD)
                   = Inr ref
                 \<and> lr_segment (sq_end n0) = lr_segment ref \<and> lr_offset (sq_end n0) = lr_offset ref))"
    by (auto simp: SequenceInterval_modify_def Let_def bindE_Inr_iff pmCopyTo_def getRefType_def
          SequenceInterval_new_start SequenceInterval_new_end split: option.splits)
  with n0(1,3) SeqInterval show ?thesis
    by (auto simp: startPosition_def endPosition_def appliedPosition_def isSequenceInterval_def
          startRefType_def endRefType_def)
qed

lemma getProp_serialized:
  "getProp (Some (case ps of None \<Rightarrow> emptyProps | Some p \<Rightarrow> p)) key = getProp ps key"
  by (simp add: getProp_def emptyProps_def split: option.splits)

lemma ackChange_remote_result:
  assumes att: "ic_localCollection this = Some lc"
    and idp: "getProp (sd_properties si) reservedIntervalIdKey = JStr k"
    and stored: "lc_idIntervalIndex lc k = Some interval"
    and ch: "(if (if \<not> hasPendingChangeStart this (JStr k) then sd_start si else None) \<noteq> None
                 \<or> (if \<not> hasPendingChangeEnd this (JStr k) then sd_end si else None) \<noteq> None
              then changeInterval (ic_client this) lc interval
                     (if \<not> hasPendingChangeStart this (JStr k) then sd_start si else None)
                     (if \<not> hasPendingChangeEnd this (JStr k) then sd_end si else None) (Some op') None
              else Inr (None, lc)) = Inr (changed, lc1)"
    and new: "new = (case changed of None \<Rightarrow> interval | Some n \<Rightarrow> n)"
  shows "fst (ackChange this si False op' md) = Inr ()"
    and "\<exists>n'. ic_localCollection (snd (ackChange this si False op' md)) = Some (writeBack new n' lc1)
         \<and> startPosition n' = startPosition new \<and> endPosition n' = endPosition new"
    and "ic_pendingChangesStart (snd (ackChange this si False op' md)) = ic_pendingChangesStart this"
    and "ic_pendingChangesEnd (snd (ackChange this si False op' md)) = ic_pendingChangesEnd this"
proof -
  let ?props = "case sd_properties si of None \<Rightarrow> emptyProps | Some p \<Rightarrow> p"
  let ?newProps = "\<lparr> vals = (vals ?props)(reservedIntervalIdKey := None), nonWritable = {} \<rparr>"
  let ?n = "case changed of None \<Rightarrow> interval | Some n \<Rightarrow> n"
  let ?r = "intervalAddProperties ?n ?newProps True (Some (sequenceNumber op'))"
  have id: "getProp (Some ?props) reservedIntervalIdKey = JStr k"
    using idp by (simp add: getProp_serialized)
  obtain n' deltas where r: "?r = (n', deltas)" by (cases ?r)
  have pos: "startPosition n' = startPosition ?n" "endPosition n' = endPosition ?n"
    using addProperties_positions [of ?n ?newProps True "Some (sequenceNumber op')"] r by simp_all
  show "fst (ackChange this si False op' md) = Inr ()"
    using att id stored ch r
    by (simp add: ackChange_def IdIntervalIndex_getIntervalById_def Let_def)
  have "ic_localCollection (snd (ackChange this si False op' md)) = Some (writeBack ?n n' lc1)"
    using att id stored ch r
    by (simp add: ackChange_def IdIntervalIndex_getIntervalById_def Let_def emitChange_def)
  with pos show "\<exists>n'. ic_localCollection (snd (ackChange this si False op' md)) = Some (writeBack new n' lc1)
         \<and> startPosition n' = startPosition new \<and> endPosition n' = endPosition new"
    unfolding new by blast
  show "ic_pendingChangesStart (snd (ackChange this si False op' md)) = ic_pendingChangesStart this"
    using att id stored ch r
    by (simp add: ackChange_def IdIntervalIndex_getIntervalById_def Let_def emitChange_def)
  show "ic_pendingChangesEnd (snd (ackChange this si False op' md)) = ic_pendingChangesEnd this"
    using att id stored ch r
    by (simp add: ackChange_def IdIntervalIndex_getIntervalById_def Let_def emitChange_def)
qed

lemma remote_ack_by_test:
  assumes att: "ic_localCollection this = Some lc"
    and wf: "collectionOf sequence lc"
    and idp: "getProp (sd_properties serializedInterval) reservedIntervalIdKey = JStr k"
    and stored: "lc_idIntervalIndex lc k = Some interval"
    and modify: "intervalModify (ic_client this) interval (lc_label lc)
                   (if \<not> hasPendingChangeStart this (JStr k) then sd_start serializedInterval else None)
                   (if \<not> hasPendingChangeEnd this (JStr k) then sd_end serializedInterval else None)
                   (Some op') None = Inr m"
  shows "\<exists>this' lc' interval'.
       ackChange this serializedInterval False op' localOpMetadata = (Inr (), this')
     \<and> ic_localCollection this' = Some lc' \<and> lc_idIntervalIndex lc' k = Some interval'
     \<and> (hasPendingChangeStart this (JStr k) \<longrightarrow> startPosition interval' = startPosition interval)
     \<and> (hasPendingChangeEnd this (JStr k) \<longrightarrow> endPosition interval' = endPosition interval)
     \<and> (\<not> hasPendingChangeStart this (JStr k) \<longrightarrow>
          (\<forall>v. sd_start serializedInterval = Some v \<longrightarrow>
             appliedPosition (ic_client this) sequence (startRefType interval) op' v
               (startPosition interval')))
     \<and> (\<not> hasPendingChangeEnd this (JStr k) \<longrightarrow>
          (\<forall>v. sd_end serializedInterval = Some v \<longrightarrow>
             appliedPosition (ic_client this) sequence (endRefType interval) op' v
               (endPosition interval')))
     \<and> ic_pendingChangesStart this' = ic_pendingChangesStart this
     \<and> ic_pendingChangesEnd this' = ic_pendingChangesEnd this"
proof -
  let ?st = "if \<not> hasPendingChangeStart this (JStr k) then sd_start serializedInterval else None"
  let ?en = "if \<not> hasPendingChangeEnd this (JStr k) then sd_end serializedInterval else None"
  let ?ack = "ackChange this serializedInterval False op' localOpMetadata"
  from collectionOf_lookup [OF wf stored] have cls: "ofClass sequence interval"
    and key: "getIntervalId interval = Inr k" by simp_all
  have q: "isSequenceInterval interval = sequence" using cls by (simp add: ofClass_def)
  define applied where "applied = (\<lambda>changed lc1 n.
          (if ?st \<noteq> None \<or> ?en \<noteq> None
           then changeInterval (ic_client this) lc interval ?st ?en (Some op') None
           else Inr (None, lc)) = Inr (changed, lc1)
        \<and> n = (case changed of None \<Rightarrow> interval | Some n \<Rightarrow> n)
        \<and> lc_idIntervalIndex lc1 k = Some n
        \<and> (?st = None \<longrightarrow> startPosition n = startPosition interval)
        \<and> (?en = None \<longrightarrow> endPosition n = endPosition interval)
        \<and> (\<forall>v. ?st = Some v \<longrightarrow>
              appliedPosition (ic_client this) sequence (startRefType interval) op' v (startPosition n))
        \<and> (\<forall>v. ?en = Some v \<longrightarrow>
              appliedPosition (ic_client this) sequence (endRefType interval) op' v (endPosition n)))"
  have "\<exists>changed lc1 n. applied changed lc1 n"
  proof (cases "?st \<noteq> None \<or> ?en \<noteq> None")
    case False
    then show ?thesis unfolding applied_def using stored by simp
  next
    case True
    show ?thesis
    proof (cases m)
      case None
      with modify have un: "changeInterval (ic_client this) lc interval ?st ?en (Some op') None
                              = Inr (None, lc)"
        by (simp add: changeInterval_unchanged)
      from None modify obtain i where i: "interval = NumericInterval i"
        by (cases interval) (auto simp: intervalModify_seq_never_None)
      from None modify i have same: "(?st = None \<or> ?st = Some (iv_start i))
                                     \<and> (?en = None \<or> ?en = Some (iv_end i))"
        using Interval_modify_None_iff [of i "lc_label lc" ?st ?en "Some op'"]
        by (simp add: intervalModify_numeric)
      have nq: "\<not> sequence" using q i by (simp add: isSequenceInterval_def)
      have applied: "(\<forall>v. ?st = Some v \<longrightarrow>
              appliedPosition (ic_client this) sequence (startRefType interval) op' v
                (startPosition interval))
            \<and> (\<forall>v. ?en = Some v \<longrightarrow>
              appliedPosition (ic_client this) sequence (endRefType interval) op' v
                (endPosition interval))"
        using same nq i by (auto simp: appliedPosition_def startPosition_def endPosition_def)
      show ?thesis
        unfolding applied_def
        using True un stored applied
        by (intro exI [of _ None] exI [of _ lc] exI [of _ interval]) simp
    next
      case (Some n)
      from changeInterval_changed [OF wf cls] modify Some obtain lc1 k0 where
        c: "changeInterval (ic_client this) lc interval ?st ?en (Some op') None
              = Inr (Some (asAdded n), lc1)"
           "getIntervalId interval = Inr k0" "lc_idIntervalIndex lc1 k0 = Some (asAdded n)"
        by blast
      have k0: "k0 = k" using c(2) key by simp
      from modify_positions [of "ic_client this" interval "lc_label lc" ?st ?en op' n] modify Some q
      have p: "?st = None \<longrightarrow> startPosition n = startPosition interval"
          "?en = None \<longrightarrow> endPosition n = endPosition interval"
          "\<forall>v. ?st = Some v \<longrightarrow>
             appliedPosition (ic_client this) sequence (startRefType interval) op' v (startPosition n)"
          "\<forall>v. ?en = Some v \<longrightarrow>
             appliedPosition (ic_client this) sequence (endRefType interval) op' v (endPosition n)"
        by simp_all
      show ?thesis
        unfolding applied_def
        using True c(1,3) k0 p
        by (intro exI [of _ "Some (asAdded n)"] exI [of _ lc1] exI [of _ "asAdded n"]) simp
    qed
  qed
  then obtain changed lc1 n where "applied changed lc1 n" by blast
  then have ch: "(if ?st \<noteq> None \<or> ?en \<noteq> None
           then changeInterval (ic_client this) lc interval ?st ?en (Some op') None
           else Inr (None, lc)) = Inr (changed, lc1)"
    and n: "n = (case changed of None \<Rightarrow> interval | Some n \<Rightarrow> n)"
           "lc_idIntervalIndex lc1 k = Some n"
    and p: "?st = None \<longrightarrow> startPosition n = startPosition interval"
           "?en = None \<longrightarrow> endPosition n = endPosition interval"
           "\<forall>v. ?st = Some v \<longrightarrow>
              appliedPosition (ic_client this) sequence (startRefType interval) op' v (startPosition n)"
           "\<forall>v. ?en = Some v \<longrightarrow>
              appliedPosition (ic_client this) sequence (endRefType interval) op' v (endPosition n)"
    unfolding applied_def by - (elim conjE, assumption)+
  note res = ackChange_remote_result [OF att idp stored ch n(1), of localOpMetadata]
  from res(2) obtain n' where
    n': "ic_localCollection (snd ?ack) = Some (writeBack n n' lc1)"
        "startPosition n' = startPosition n" "endPosition n' = endPosition n"
    by blast
  have run: "?ack = (Inr (), snd ?ack)" using res(1) by (cases ?ack) simp
  have look: "lc_idIntervalIndex (writeBack n n' lc1) k = Some n'" using n(2) by simp
  have 1: "hasPendingChangeStart this (JStr k) \<longrightarrow> startPosition n' = startPosition interval"
    using p(1) n'(2) by simp
  have 2: "hasPendingChangeEnd this (JStr k) \<longrightarrow> endPosition n' = endPosition interval"
    using p(2) n'(3) by simp
  have 3: "\<not> hasPendingChangeStart this (JStr k) \<longrightarrow>
          (\<forall>v. sd_start serializedInterval = Some v \<longrightarrow>
             appliedPosition (ic_client this) sequence (startRefType interval) op' v (startPosition n'))"
    using p(3) n'(2) by simp
  have 4: "\<not> hasPendingChangeEnd this (JStr k) \<longrightarrow>
          (\<forall>v. sd_end serializedInterval = Some v \<longrightarrow>
             appliedPosition (ic_client this) sequence (endRefType interval) op' v (endPosition n'))"
    using p(4) n'(3) by simp
  show ?thesis
    by (rule exI [of _ "snd ?ack"], rule exI [of _ "writeBack n n' lc1"], rule exI [of _ n'])
       (intro conjI; fact run n'(1) look 1 2 3 4 res(3) res(4))
qed

lemma hasPendingChangeStart_iff:
  "hasPendingChangeStart this i
     \<longleftrightarrow> \<not> (ic_pendingChangesStart this i = None \<or> ic_pendingChangesStart this i = Some [])"
  by (simp add: hasPendingChangeStart_def split: option.splits)

lemma hasPendingChangeEnd_iff:
  "hasPendingChangeEnd this i
     \<longleftrightarrow> \<not> (ic_pendingChangesEnd this i = None \<or> ic_pendingChangesEnd this i = Some [])"
  by (simp add: hasPendingChangeEnd_def split: option.splits)

lemma queue_cases: "(\<exists>d ds. q = Some (d # ds)) \<longleftrightarrow> \<not> (q = None \<or> q = Some [])"
proof (cases q)
  case None
  then show ?thesis by simp
next
  case (Some entries)
  then show ?thesis by (cases entries) simp_all
qed

text \<open>
  Claim C1: a remote change op for an interval that the attached, well-formed collection
  holds under the id of the op (\<open>modify\<close> not failing) is acknowledged without exception.
  A local change of an endpoint is pending when the queue \<open>pendingChangesStart\<close>
  (\<open>pendingChangesEnd\<close>) of the id is not empty. The interval then stored under the id has
  its old start when a local change of the start is pending, and its old end when a local
  change of the end is pending, each endpoint on its own; an endpoint whose queue is absent
  or empty is where the remote value puts it: the number for a numeric interval, the place
  of the reference \<open>createPositionReference\<close> makes at the op for a sequence interval (the
  result of \<open>changeInterval\<close>). The queues themselves are left as they are.
\<close>

theorem ackChange_remote:
  assumes att: "ic_localCollection this = Some lc"
    and wf: "collectionOf sequence lc"
    and idp: "getProp (sd_properties serializedInterval) reservedIntervalIdKey = JStr k"
    and stored: "lc_idIntervalIndex lc k = Some interval"
    and modify: "intervalModify (ic_client this) interval (lc_label lc)
                   (if ic_pendingChangesStart this (JStr k) = None
                       \<or> ic_pendingChangesStart this (JStr k) = Some []
                    then sd_start serializedInterval else None)
                   (if ic_pendingChangesEnd this (JStr k) = None
                       \<or> ic_pendingChangesEnd this (JStr k) = Some []
                    then sd_end serializedInterval else None)
                   (Some op') None = Inr m"
  shows "\<exists>this' lc' interval'.
       ackChange this serializedInterval False op' localOpMetadata = (Inr (), this')
     \<and> ic_localCollection this' = Some lc' \<and> lc_idIntervalIndex lc' k = Some interval'
     \<and> ((\<exists>d ds. ic_pendingChangesStart this (JStr k) = Some (d # ds)) \<longrightarrow>
          startPosition interval' = startPosition interval)
     \<and> ((\<exists>d ds. ic_pendingChangesEnd this (JStr k) = Some (d # ds)) \<longrightarrow>
          endPosition interval' = endPosition interval)
     \<and> (ic_pendingChangesStart this (JStr k) = None \<or> ic_pendingChangesStart this (JStr k) = Some [] \<longrightarrow>
          (\<forall>v. sd_start serializedInterval = Some v \<longrightarrow>
             appliedPosition (ic_client this) sequence (startRefType interval) op' v
               (startPosition interval')))
     \<and> (ic_pendingChangesEnd this (JStr k) = None \<or> ic_pendingChangesEnd this (JStr k) = Some [] \<longrightarrow>
          (\<forall>v. sd_end serializedInterval = Some v \<longrightarrow>
             appliedPosition (ic_client this) sequence (endRefType interval) op' v
               (endPosition interval')))
     \<and> ic_pendingChangesStart this' = ic_pendingChangesStart this
     \<and> ic_pendingChangesEnd this' = ic_pendingChangesEnd this"
proof -
  have modify': "intervalModify (ic_client this) interval (lc_label lc)
                   (if \<not> hasPendingChangeStart this (JStr k) then sd_start serializedInterval else None)
                   (if \<not> hasPendingChangeEnd this (JStr k) then sd_end serializedInterval else None)
                   (Some op') None = Inr m"
    using modify by (simp add: hasPendingChangeStart_iff hasPendingChangeEnd_iff)
  from remote_ack_by_test [OF att wf idp stored modify', of localOpMetadata]
  obtain this' lc' interval' where
    r: "ackChange this serializedInterval False op' localOpMetadata = (Inr (), this')"
       "ic_localCollection this' = Some lc'" "lc_idIntervalIndex lc' k = Some interval'"
       "hasPendingChangeStart this (JStr k) \<longrightarrow> startPosition interval' = startPosition interval"
       "hasPendingChangeEnd this (JStr k) \<longrightarrow> endPosition interval' = endPosition interval"
       "\<not> hasPendingChangeStart this (JStr k) \<longrightarrow>
          (\<forall>v. sd_start serializedInterval = Some v \<longrightarrow>
             appliedPosition (ic_client this) sequence (startRefType interval) op' v
               (startPosition interval'))"
       "\<not> hasPendingChangeEnd this (JStr k) \<longrightarrow>
          (\<forall>v. sd_end serializedInterval = Some v \<longrightarrow>
             appliedPosition (ic_client this) sequence (endRefType interval) op' v
               (endPosition interval'))"
       "ic_pendingChangesStart this' = ic_pendingChangesStart this"
       "ic_pendingChangesEnd this' = ic_pendingChangesEnd this"
    by blast
  have 1: "(\<exists>d ds. ic_pendingChangesStart this (JStr k) = Some (d # ds)) \<longrightarrow>
          startPosition interval' = startPosition interval"
    using r(4) unfolding queue_cases hasPendingChangeStart_iff .
  have 2: "(\<exists>d ds. ic_pendingChangesEnd this (JStr k) = Some (d # ds)) \<longrightarrow>
          endPosition interval' = endPosition interval"
    using r(5) unfolding queue_cases hasPendingChangeEnd_iff .
  have 3: "ic_pendingChangesStart this (JStr k) = None \<or> ic_pendingChangesStart this (JStr k) = Some [] \<longrightarrow>
          (\<forall>v. sd_start serializedInterval = Some v \<longrightarrow>
             appliedPosition (ic_client this) sequence (startRefType interval) op' v
               (startPosition interval'))"
    using r(6) by (simp add: hasPendingChangeStart_iff)
  have 4: "ic_pendingChangesEnd this (JStr k) = None \<or> ic_pendingChangesEnd this (JStr k) = Some [] \<longrightarrow>
          (\<forall>v. sd_end serializedInterval = Some v \<longrightarrow>
             appliedPosition (ic_client this) sequence (endRefType interval) op' v
               (endPosition interval'))"
    using r(7) by (simp add: hasPendingChangeEnd_iff)
  show ?thesis
    by (rule exI [of _ this'], rule exI [of _ lc'], rule exI [of _ interval'])
       (intro conjI; fact r(1) r(2) r(3) 1 2 3 4 r(8) r(9))
qed

lemma pendingStartCollection_facts:
  "\<exists>lc interval d. ic_localCollection pendingStartCollection = Some lc
     \<and> collectionOf False lc
     \<and> lc_idIntervalIndex lc ''n'' = Some interval
     \<and> startPosition interval = (None, 2) \<and> endPosition interval = (None, 3)
     \<and> ic_pendingChangesStart pendingStartCollection (JStr ''n'') = Some [d]
     \<and> sd_start d = Some 2
     \<and> ic_pendingChangesEnd pendingStartCollection (JStr ''n'') = None"
  by (simp add: all_defs observation_defs numericCollection_def pendingStartCollection_def Let_def)

theorem ackChange_remote_witness:
  "\<exists>lc interval d this' lc' interval'.
       ic_localCollection pendingStartCollection = Some lc \<and> collectionOf False lc
     \<and> lc_idIntervalIndex lc ''n'' = Some interval
     \<and> startPosition interval = (None, 2) \<and> endPosition interval = (None, 3)
     \<and> ic_pendingChangesStart pendingStartCollection (JStr ''n'') = Some [d]
     \<and> ic_pendingChangesEnd pendingStartCollection (JStr ''n'') = None
     \<and> sd_start remoteChange = Some 7 \<and> sd_end remoteChange = Some 9
     \<and> ackChange pendingStartCollection remoteChange False remoteMessage None = (Inr (), this')
     \<and> ic_localCollection this' = Some lc' \<and> lc_idIntervalIndex lc' ''n'' = Some interval'
     \<and> startPosition interval' = (None, 2) \<and> endPosition interval' = (None, 9)"
proof -
  from pendingStartCollection_facts obtain lc interval d where
    f: "ic_localCollection pendingStartCollection = Some lc" "collectionOf False lc"
       "lc_idIntervalIndex lc ''n'' = Some interval"
       "startPosition interval = (None, 2)" "endPosition interval = (None, 3)"
       "ic_pendingChangesStart pendingStartCollection (JStr ''n'') = Some [d]"
       "ic_pendingChangesEnd pendingStartCollection (JStr ''n'') = None"
    by blast
  have op: "sd_start remoteChange = Some 7" "sd_end remoteChange = Some 9"
    by (simp_all add: remoteChange_def)
  have idp: "getProp (sd_properties remoteChange) reservedIntervalIdKey = JStr ''n''"
    by (simp add: remoteChange_def getProp_def)
  from collectionOf_lookup [OF f(2,3)] obtain i where i: "interval = NumericInterval i"
    by (cases interval) (auto simp: ofClass_def isSequenceInterval_def)
  have modify: "intervalModify (ic_client pendingStartCollection) interval (lc_label lc)
                   (if ic_pendingChangesStart pendingStartCollection (JStr ''n'') = None
                       \<or> ic_pendingChangesStart pendingStartCollection (JStr ''n'') = Some []
                    then sd_start remoteChange else None)
                   (if ic_pendingChangesEnd pendingStartCollection (JStr ''n'') = None
                       \<or> ic_pendingChangesEnd pendingStartCollection (JStr ''n'') = Some []
                    then sd_end remoteChange else None)
                   (Some remoteMessage) None
                 = Inr (map_option NumericInterval
                          (Interval_modify i (lc_label lc)
                             (if ic_pendingChangesStart pendingStartCollection (JStr ''n'') = None
                                 \<or> ic_pendingChangesStart pendingStartCollection (JStr ''n'') = Some []
                              then sd_start remoteChange else None)
                             (if ic_pendingChangesEnd pendingStartCollection (JStr ''n'') = None
                                 \<or> ic_pendingChangesEnd pendingStartCollection (JStr ''n'') = Some []
                              then sd_end remoteChange else None)
                             (Some remoteMessage)))"
    unfolding i by (rule intervalModify_numeric)
  from ackChange_remote [OF f(1) f(2) idp f(3) modify, of None] obtain this' lc' interval' where
    r: "ackChange pendingStartCollection remoteChange False remoteMessage None = (Inr (), this')"
       "ic_localCollection this' = Some lc'" "lc_idIntervalIndex lc' ''n'' = Some interval'"
       "(\<exists>d ds. ic_pendingChangesStart pendingStartCollection (JStr ''n'') = Some (d # ds)) \<longrightarrow>
          startPosition interval' = startPosition interval"
       "ic_pendingChangesEnd pendingStartCollection (JStr ''n'') = None
          \<or> ic_pendingChangesEnd pendingStartCollection (JStr ''n'') = Some [] \<longrightarrow>
          (\<forall>v. sd_end remoteChange = Some v \<longrightarrow>
             appliedPosition (ic_client pendingStartCollection) False (endRefType interval)
               remoteMessage v (endPosition interval'))"
    by blast
  have s: "startPosition interval' = (None, 2)" using r(4) f(4,6) by simp
  have "appliedPosition (ic_client pendingStartCollection) False (endRefType interval)
          remoteMessage 9 (endPosition interval')"
    using r(5) f(7) op(2) by simp
  then have e: "endPosition interval' = (None, 9)" by (simp add: appliedPosition_def)
  show ?thesis
    by (rule exI [of _ lc], rule exI [of _ interval], rule exI [of _ d], rule exI [of _ this'],
        rule exI [of _ lc'], rule exI [of _ interval'])
       (intro conjI; fact f op r(1) r(2) r(3) s e)
qed

section \<open>Rebasing a pending op\<close>

lemma addPendingChangeHelper_fields [simp]:
  "ic_client (addPendingChange t i d) = ic_client t"
  "ic_localCollection (addPendingChange t i d) = ic_localCollection t"
  by (simp_all add: addPendingChange_def Let_def)

lemma removePendingChange_fields [simp]:
  "ic_client (snd (removePendingChange t d)) = ic_client t"
  "ic_localCollection (snd (removePendingChange t d)) = ic_localCollection t"
  by (simp_all add: removePendingChange_def Let_def split: prod.splits)

lemma rebaseLocalInterval_unfold:
  assumes cl: "ic_client this = Some c"
    and att: "ic_localCollection this = Some lc"
    and positions: "(case ic_localSeqToRebasedInterval this localSeq of
                       Some r \<Rightarrow> Inr r
                     | None \<Rightarrow> computeRebasedPositions this localSeq) = Inr positions"
    and pending: "opName = ''change''
                    \<and> (hasPendingChangeStart this (getProp (sd_properties serializedInterval) reservedIntervalIdKey)
                       \<or> hasPendingChangeEnd this (getProp (sd_properties serializedInterval) reservedIntervalIdKey))
                  \<longrightarrow> fst (removePendingChange this serializedInterval) = None"
  shows "\<exists>this1. ic_client this1 = Some c \<and> ic_localCollection this1 = Some lc
     \<and> rebaseLocalInterval this opName serializedInterval localSeq =
        (if sd_start positions = Some DetachedReferencePosition
            \<or> sd_end positions = Some DetachedReferencePosition
         then
           (case IdIntervalIndex_getIntervalById (lc_idIntervalIndex lc)
                   (getProp (sd_properties serializedInterval) reservedIntervalIdKey) of
              None \<Rightarrow> (Inr None, this1)
            | Some interval \<Rightarrow>
                (case removeExistingInterval lc interval of
                   Inl e \<Rightarrow> (Inl e, this1)
                 | Inr (removed, lc') \<Rightarrow> (Inr None, this1\<lparr> ic_localCollection := Some lc' \<rparr>)))
         else
           (case IdIntervalIndex_getIntervalById (lc_idIntervalIndex lc)
                   (getProp (sd_properties serializedInterval) reservedIntervalIdKey) of
              None \<Rightarrow> (Inr (Some (rebasedOp c serializedInterval positions)), this1)
            | Some interval \<Rightarrow>
                (case interval of
                   NumericInterval i \<Rightarrow> (Inl (AssertionError ''0x3a0''), this1)
                 | SeqInterval s \<Rightarrow>
                     (case changeInterval (Some c) lc interval (sd_start positions) (sd_end positions)
                             None (Some localSeq) of
                        Inl e \<Rightarrow> (Inl e, this1)
                      | Inr (changed, lc') \<Rightarrow>
                          (Inr (Some (rebasedOp c serializedInterval positions)),
                           this1\<lparr> ic_localCollection := Some lc' \<rparr>)))))"
proof (cases "opName = ''change''
                \<and> (hasPendingChangeStart this (getProp (sd_properties serializedInterval) reservedIntervalIdKey)
                   \<or> hasPendingChangeEnd this (getProp (sd_properties serializedInterval) reservedIntervalIdKey))")
  case False
  then have no: "(opName = ''change''
                \<and> (hasPendingChangeStart this (getProp (sd_properties serializedInterval) reservedIntervalIdKey)
                   \<or> hasPendingChangeEnd this (getProp (sd_properties serializedInterval) reservedIntervalIdKey)))
               = False" by simp
  show ?thesis
    by (rule exI [of _ this])
       (use cl att positions in \<open>auto simp: rebaseLocalInterval_def rebasedOp_def Let_def no
          split: option.splits TInterval.splits sum.splits\<close>)
next
  case True
  let ?id = "getProp (sd_properties serializedInterval) reservedIntervalIdKey"
  obtain e t where r: "removePendingChange this serializedInterval = (e, t)"
    by (cases "removePendingChange this serializedInterval")
  with True pending have e: "e = None" by simp
  have t: "ic_client t = Some c" "ic_localCollection t = Some lc"
    using removePendingChange_fields [of this serializedInterval] r cl att by simp_all
  from True have yes: "(opName = ''change''
                \<and> (hasPendingChangeStart this (getProp (sd_properties serializedInterval) reservedIntervalIdKey)
                   \<or> hasPendingChangeEnd this (getProp (sd_properties serializedInterval) reservedIntervalIdKey)))
               = True" by simp
  show ?thesis
    by (rule exI [of _ "addPendingChange t ?id (rebasedOp c serializedInterval positions)"])
       (use cl att positions r e t in \<open>auto simp: rebaseLocalInterval_def rebasedOp_def Let_def yes
          split: option.splits TInterval.splits sum.splits\<close>)
qed

lemma getIntervalById_Some:
  "IdIntervalIndex_getIntervalById idx id' = Some interval \<Longrightarrow> \<exists>k. id' = JStr k \<and> idx k = Some interval"
  by (cases id') (simp_all add: IdIntervalIndex_getIntervalById_def)

text \<open>
  Claim C4: \<open>rebaseLocalInterval\<close> on a collection with a client and a well-formed local
  collection, when the rebased positions are there (cached or computed) and the pending
  changes match. If the rebased start or end is the detached position, the call returns
  \<^verbatim>\<open>undefined\<close>, and the interval that the local collection holds under the id of the op, if
  any, is in no index afterwards; without such an interval the local collection is the one
  given. Otherwise, \<open>modify\<close> not failing on a local interval, the call returns the rebased
  op: the recomputed start and end, with the interval type and the properties of the op
  and the current sequence number.
\<close>

theorem rebaseLocalInterval_spec:
  assumes cl: "ic_client this = Some c"
    and att: "ic_localCollection this = Some lc"
    and wf: "collectionOf True lc"
    and positions: "(case ic_localSeqToRebasedInterval this localSeq of
                       Some r \<Rightarrow> Inr r
                     | None \<Rightarrow> computeRebasedPositions this localSeq) = Inr positions"
    and pending: "opName = ''change''
                    \<and> (hasPendingChangeStart this (getProp (sd_properties serializedInterval) reservedIntervalIdKey)
                       \<or> hasPendingChangeEnd this (getProp (sd_properties serializedInterval) reservedIntervalIdKey))
                  \<longrightarrow> fst (removePendingChange this serializedInterval) = None"
  shows "(sd_start positions = Some DetachedReferencePosition
            \<or> sd_end positions = Some DetachedReferencePosition \<longrightarrow>
          (\<exists>this' lc'. rebaseLocalInterval this opName serializedInterval localSeq = (Inr None, this')
              \<and> ic_localCollection this' = Some lc'
              \<and> (\<forall>interval. IdIntervalIndex_getIntervalById (lc_idIntervalIndex lc)
                                (getProp (sd_properties serializedInterval) reservedIntervalIdKey)
                              = Some interval \<longrightarrow> inNoIndex lc' interval)
              \<and> (IdIntervalIndex_getIntervalById (lc_idIntervalIndex lc)
                    (getProp (sd_properties serializedInterval) reservedIntervalIdKey) = None
                  \<longrightarrow> lc' = lc)))
     \<and> (sd_start positions \<noteq> Some DetachedReferencePosition
          \<and> sd_end positions \<noteq> Some DetachedReferencePosition
          \<and> (\<forall>interval. IdIntervalIndex_getIntervalById (lc_idIntervalIndex lc)
                            (getProp (sd_properties serializedInterval) reservedIntervalIdKey)
                          = Some interval \<longrightarrow>
                 (\<exists>m. intervalModify (Some c) interval (lc_label lc) (sd_start positions)
                        (sd_end positions) None (Some localSeq) = Inr m)) \<longrightarrow>
          (\<exists>rebased this'.
              rebaseLocalInterval this opName serializedInterval localSeq = (Inr (Some rebased), this')
              \<and> sd_start rebased = sd_start positions \<and> sd_end rebased = sd_end positions
              \<and> sd_intervalType rebased = sd_intervalType serializedInterval
              \<and> sd_properties rebased = sd_properties serializedInterval
              \<and> sd_sequenceNumber rebased = getCurrentSeq c))"
proof -
  let ?look = "IdIntervalIndex_getIntervalById (lc_idIntervalIndex lc)
                 (getProp (sd_properties serializedInterval) reservedIntervalIdKey)"
  let ?detached = "sd_start positions = Some DetachedReferencePosition
                     \<or> sd_end positions = Some DetachedReferencePosition"
  let ?run = "rebaseLocalInterval this opName serializedInterval localSeq"
  let ?rebased = "rebasedOp c serializedInterval positions"
  define unfolded where "unfolded = (\<lambda>this1. ic_client this1 = Some c \<and> ic_localCollection this1 = Some lc
     \<and> ?run =
        (if ?detached
         then
           (case ?look of
              None \<Rightarrow> (Inr None, this1)
            | Some interval \<Rightarrow>
                (case removeExistingInterval lc interval of
                   Inl e \<Rightarrow> (Inl e, this1)
                 | Inr (removed, lc') \<Rightarrow> (Inr None, this1\<lparr> ic_localCollection := Some lc' \<rparr>)))
         else
           (case ?look of
              None \<Rightarrow> (Inr (Some ?rebased), this1)
            | Some interval \<Rightarrow>
                (case interval of
                   NumericInterval i \<Rightarrow> (Inl (AssertionError ''0x3a0''), this1)
                 | SeqInterval s \<Rightarrow>
                     (case changeInterval (Some c) lc interval (sd_start positions) (sd_end positions)
                             None (Some localSeq) of
                        Inl e \<Rightarrow> (Inl e, this1)
                      | Inr (changed, lc') \<Rightarrow>
                          (Inr (Some ?rebased), this1\<lparr> ic_localCollection := Some lc' \<rparr>))))))"
  have "\<exists>this1. unfolded this1"
    unfolding unfolded_def by (rule rebaseLocalInterval_unfold [OF cl att positions pending])
  then obtain this1 where "unfolded this1" by blast
  then have u: "ic_localCollection this1 = Some lc"
    and run: "?run =
        (if ?detached
         then
           (case ?look of
              None \<Rightarrow> (Inr None, this1)
            | Some interval \<Rightarrow>
                (case removeExistingInterval lc interval of
                   Inl e \<Rightarrow> (Inl e, this1)
                 | Inr (removed, lc') \<Rightarrow> (Inr None, this1\<lparr> ic_localCollection := Some lc' \<rparr>)))
         else
           (case ?look of
              None \<Rightarrow> (Inr (Some ?rebased), this1)
            | Some interval \<Rightarrow>
                (case interval of
                   NumericInterval i \<Rightarrow> (Inl (AssertionError ''0x3a0''), this1)
                 | SeqInterval s \<Rightarrow>
                     (case changeInterval (Some c) lc interval (sd_start positions) (sd_end positions)
                             None (Some localSeq) of
                        Inl e \<Rightarrow> (Inl e, this1)
                      | Inr (changed, lc') \<Rightarrow>
                          (Inr (Some ?rebased), this1\<lparr> ic_localCollection := Some lc' \<rparr>)))))"
    unfolding unfolded_def by - (elim conjE, assumption)+
  have fields: "sd_start ?rebased = sd_start positions \<and> sd_end ?rebased = sd_end positions
              \<and> sd_intervalType ?rebased = sd_intervalType serializedInterval
              \<and> sd_properties ?rebased = sd_properties serializedInterval
              \<and> sd_sequenceNumber ?rebased = getCurrentSeq c"
    by (simp add: rebasedOp_def)
  show ?thesis
  proof (intro conjI impI)
    assume d: ?detached
    show "\<exists>this' lc'. ?run = (Inr None, this') \<and> ic_localCollection this' = Some lc'
              \<and> (\<forall>interval. ?look = Some interval \<longrightarrow> inNoIndex lc' interval)
              \<and> (?look = None \<longrightarrow> lc' = lc)"
    proof (cases ?look)
      case None
      with run d have "?run = (Inr None, this1)" by simp
      with u None show ?thesis by simp
    next
      case (Some interval)
      from getIntervalById_Some [OF Some] obtain k where
        k: "lc_idIntervalIndex lc k = Some interval" by blast
      from collectionOf_lookup [OF wf k] have cls: "ofClass True interval"
        and key: "getIntervalId interval = Inr k" by simp_all
      from removeExistingInterval_ok [OF wf cls] key obtain lc1 where
        r: "removeExistingInterval lc interval = Inr (removeIntervalListeners interval, lc1)"
           "\<forall>v. sameKeys interval v \<longrightarrow> v \<notin> set (treeEntries lc1)"
           "lc_idIntervalIndex lc1 = (lc_idIntervalIndex lc)(k := None)"
        by auto
      have gone: "inNoIndex lc1 interval" using wf r(2) key r(3) by (rule inNoIndex_after_remove)
      from run d Some r(1) have "?run = (Inr None, this1\<lparr> ic_localCollection := Some lc1 \<rparr>)"
        by simp
      with gone Some show ?thesis by simp
    qed
  next
    assume n: "sd_start positions \<noteq> Some DetachedReferencePosition
          \<and> sd_end positions \<noteq> Some DetachedReferencePosition
          \<and> (\<forall>interval. ?look = Some interval \<longrightarrow>
                 (\<exists>m. intervalModify (Some c) interval (lc_label lc) (sd_start positions)
                        (sd_end positions) None (Some localSeq) = Inr m))"
    then have nd: "\<not> ?detached" by simp
    have "\<exists>this'. ?run = (Inr (Some ?rebased), this')"
    proof (cases ?look)
      case None
      with run nd show ?thesis by simp
    next
      case (Some interval)
      from getIntervalById_Some [OF Some] obtain k where
        k: "lc_idIntervalIndex lc k = Some interval" by blast
      from collectionOf_lookup [OF wf k] have cls: "ofClass True interval" by simp
      from ofClass_seq [OF cls] obtain s where s: "interval = SeqInterval s" by blast
      from n Some obtain m where
        m: "intervalModify (Some c) interval (lc_label lc) (sd_start positions)
              (sd_end positions) None (Some localSeq) = Inr m" by blast
      from m s obtain new where new: "m = Some new"
        using intervalModify_seq_never_None [of "Some c" s] by (cases m) auto
      from changeInterval_changed [OF wf cls] m new obtain lc' where
        "changeInterval (Some c) lc interval (sd_start positions) (sd_end positions)
           None (Some localSeq) = Inr (Some (asAdded new), lc')"
        by blast
      with run nd Some s show ?thesis by simp
    qed
    with fields
    show "\<exists>rebased this'. ?run = (Inr (Some rebased), this')
              \<and> sd_start rebased = sd_start positions \<and> sd_end rebased = sd_end positions
              \<and> sd_intervalType rebased = sd_intervalType serializedInterval
              \<and> sd_properties rebased = sd_properties serializedInterval
              \<and> sd_sequenceNumber rebased = getCurrentSeq c"
      by blast
  qed
qed

lemma detachedCollection_facts:
  "\<exists>c lc interval positions.
       ic_client detachedCollection = Some c \<and> ic_localCollection detachedCollection = Some lc
     \<and> collectionOf True lc \<and> lc_idIntervalIndex lc ''a'' = Some interval
     \<and> ic_localSeqToRebasedInterval detachedCollection 1 = None
     \<and> computeRebasedPositions detachedCollection 1 = Inr positions
     \<and> sd_start positions = Some DetachedReferencePosition
     \<and> getProp (sd_properties addedOp) reservedIntervalIdKey = JStr ''a''"
  by (simp add: all_defs observation_defs detachedCollection_def addedOp_def
        computeRebasedPositions_def rebasePositionWithSegmentSlide_def Let_def)

theorem rebaseLocalInterval_spec_witness:
  "\<exists>c lc interval positions this' lc'.
       ic_client detachedCollection = Some c \<and> ic_localCollection detachedCollection = Some lc
     \<and> collectionOf True lc \<and> lc_idIntervalIndex lc ''a'' = Some interval
     \<and> computeRebasedPositions detachedCollection 1 = Inr positions
     \<and> sd_start positions = Some DetachedReferencePosition
     \<and> rebaseLocalInterval detachedCollection ''add'' addedOp 1 = (Inr None, this')
     \<and> ic_localCollection this' = Some lc' \<and> inNoIndex lc' interval"
proof -
  from detachedCollection_facts obtain c lc interval positions where
    f: "ic_client detachedCollection = Some c" "ic_localCollection detachedCollection = Some lc"
       "collectionOf True lc" "lc_idIntervalIndex lc ''a'' = Some interval"
       "ic_localSeqToRebasedInterval detachedCollection 1 = None"
       "computeRebasedPositions detachedCollection 1 = Inr positions"
       "sd_start positions = Some DetachedReferencePosition"
       "getProp (sd_properties addedOp) reservedIntervalIdKey = JStr ''a''"
    by blast
  have pos: "(case ic_localSeqToRebasedInterval detachedCollection 1 of
                Some r \<Rightarrow> Inr r
              | None \<Rightarrow> computeRebasedPositions detachedCollection 1) = Inr positions"
    using f(5,6) by simp
  have pend: "''add'' = ''change''
                \<and> (hasPendingChangeStart detachedCollection
                      (getProp (sd_properties addedOp) reservedIntervalIdKey)
                   \<or> hasPendingChangeEnd detachedCollection
                      (getProp (sd_properties addedOp) reservedIntervalIdKey))
              \<longrightarrow> fst (removePendingChange detachedCollection addedOp) = None"
    by simp
  have look: "IdIntervalIndex_getIntervalById (lc_idIntervalIndex lc)
                (getProp (sd_properties addedOp) reservedIntervalIdKey) = Some interval"
    using f(4,8) by (simp add: IdIntervalIndex_getIntervalById_def)
  have d: "sd_start positions = Some DetachedReferencePosition
             \<or> sd_end positions = Some DetachedReferencePosition"
    using f(7) by simp
  from rebaseLocalInterval_spec [OF f(1) f(2) f(3) pos pend] d obtain this' lc' where
    r: "rebaseLocalInterval detachedCollection ''add'' addedOp 1 = (Inr None, this')"
       "ic_localCollection this' = Some lc'"
       "\<forall>interval. IdIntervalIndex_getIntervalById (lc_idIntervalIndex lc)
                       (getProp (sd_properties addedOp) reservedIntervalIdKey)
                     = Some interval \<longrightarrow> inNoIndex lc' interval"
    by blast
  from r(3) look have gone: "inNoIndex lc' interval" by blast
  show ?thesis
    by (rule exI [of _ c], rule exI [of _ lc], rule exI [of _ interval], rule exI [of _ positions],
        rule exI [of _ this'], rule exI [of _ lc'])
       (intro conjI; fact f(1) f(2) f(3) f(4) f(6) f(7) r(1) r(2) gone)
qed

section \<open>Serialized forms: results\<close>

lemma decompress_compress_general:
  "decompressInterval (compressInterval c) label =
     c\<lparr> si_stickiness := (if si_stickiness c = Some END then None else si_stickiness c),
        si_properties := Some \<lparr> vals = (case si_properties c of None \<Rightarrow> Map.empty | Some p \<Rightarrow> vals p)
                                          (reservedRangeLabelsKey \<mapsto> labelArray label),
                                 nonWritable = {} \<rparr> \<rparr>"
  by (cases "si_properties c") (simp_all add: decompressInterval_def compressInterval_def spreadWith_def)

lemma plain_object_iff:
  "\<lparr> vals = (vals p)(k \<mapsto> v), nonWritable = {} \<rparr> = p \<longleftrightarrow> nonWritable p = {} \<and> vals p k = Some v"
  by (cases p) (auto simp: fun_upd_idem_iff)

lemma serialize_never_END:
  "si_stickiness (SequenceInterval_serialize client s) \<noteq> Some END"
  "si_stickiness (Interval_serialize i) \<noteq> Some END"
  by (simp_all add: SequenceInterval_serialize_def Interval_serialize_def)

text \<open>
  Claim C3, amended. For every serialized interval record \<open>c\<close> and label, decompressing
  the compressed \<open>c\<close> gives the start, end, sequence number and interval type of \<open>c\<close>;
  every property other than the range labels has the value it has in \<open>c\<close>; the range labels
  are \<open>[label]\<close>, whatever \<open>c\<close> held; the property object is a fresh plain object, so no key
  of it is non-writable; a stickiness \<open>END\<close> is dropped on store and stays absent on load,
  any other stickiness is kept. The result is \<open>c\<close> itself exactly when the stickiness of \<open>c\<close>
  is not \<open>END\<close>, its range labels are \<open>[label]\<close> and its property object has no non-writable
  key. The records the program compresses are those of \<^verbatim>\<open>serialize()\<close>, which never carry
  \<open>END\<close>: for them the stickiness always comes back as it was.
\<close>

theorem compress_roundtrip:
  "decompressInterval (compressInterval c) label =
     c\<lparr> si_stickiness := (if si_stickiness c = Some END then None else si_stickiness c),
        si_properties := Some \<lparr> vals = (case si_properties c of None \<Rightarrow> Map.empty | Some p \<Rightarrow> vals p)
                                          (reservedRangeLabelsKey \<mapsto> labelArray label),
                                 nonWritable = {} \<rparr> \<rparr>
   \<and> (decompressInterval (compressInterval c) label = c \<longleftrightarrow>
        si_stickiness c \<noteq> Some END
        \<and> (\<exists>p. si_properties c = Some p \<and> nonWritable p = {}
                \<and> vals p reservedRangeLabelsKey = Some (labelArray label)))
   \<and> ((\<exists>client s. c = SequenceInterval_serialize client s) \<or> (\<exists>i. c = Interval_serialize i) \<longrightarrow>
        si_stickiness c \<noteq> Some END
        \<and> si_stickiness (decompressInterval (compressInterval c) label) = si_stickiness c
        \<and> si_start (decompressInterval (compressInterval c) label) = si_start c
        \<and> si_end (decompressInterval (compressInterval c) label) = si_end c
        \<and> si_sequenceNumber (decompressInterval (compressInterval c) label) = si_sequenceNumber c
        \<and> si_intervalType (decompressInterval (compressInterval c) label) = si_intervalType c
        \<and> (\<forall>k. k \<noteq> reservedRangeLabelsKey \<longrightarrow>
              getProp (si_properties (decompressInterval (compressInterval c) label)) k
                = getProp (si_properties c) k)
        \<and> getProp (si_properties (decompressInterval (compressInterval c) label)) reservedRangeLabelsKey
            = labelArray label
        \<and> (\<exists>p. si_properties (decompressInterval (compressInterval c) label) = Some p
                \<and> nonWritable p = {}))"
proof (intro conjI impI)
  show g: "decompressInterval (compressInterval c) label =
     c\<lparr> si_stickiness := (if si_stickiness c = Some END then None else si_stickiness c),
        si_properties := Some \<lparr> vals = (case si_properties c of None \<Rightarrow> Map.empty | Some p \<Rightarrow> vals p)
                                          (reservedRangeLabelsKey \<mapsto> labelArray label),
                                 nonWritable = {} \<rparr> \<rparr>"
    by (rule decompress_compress_general)
  show "decompressInterval (compressInterval c) label = c \<longleftrightarrow>
        si_stickiness c \<noteq> Some END
        \<and> (\<exists>p. si_properties c = Some p \<and> nonWritable p = {}
                \<and> vals p reservedRangeLabelsKey = Some (labelArray label))"
  proof (cases "si_properties c")
    case None
    then show ?thesis unfolding g by (cases c) auto
  next
    case (Some p)
    then show ?thesis unfolding g
      using plain_object_iff [of p reservedRangeLabelsKey "labelArray label"]
      by (cases c) auto
  qed
next
  assume "(\<exists>client s. c = SequenceInterval_serialize client s) \<or> (\<exists>i. c = Interval_serialize i)"
  then have ne: "si_stickiness c \<noteq> Some END" using serialize_never_END by auto
  show "si_stickiness c \<noteq> Some END" by (rule ne)
  show "si_stickiness (decompressInterval (compressInterval c) label) = si_stickiness c"
    using ne by (simp add: decompress_compress_general)
  show "si_start (decompressInterval (compressInterval c) label) = si_start c"
    by (simp add: decompress_compress_general)
  show "si_end (decompressInterval (compressInterval c) label) = si_end c"
    by (simp add: decompress_compress_general)
  show "si_sequenceNumber (decompressInterval (compressInterval c) label) = si_sequenceNumber c"
    by (simp add: decompress_compress_general)
  show "si_intervalType (decompressInterval (compressInterval c) label) = si_intervalType c"
    by (simp add: decompress_compress_general)
  show "\<forall>k. k \<noteq> reservedRangeLabelsKey \<longrightarrow>
              getProp (si_properties (decompressInterval (compressInterval c) label)) k
                = getProp (si_properties c) k"
    by (simp add: decompress_compress_general getProp_def split: option.splits)
  show "getProp (si_properties (decompressInterval (compressInterval c) label)) reservedRangeLabelsKey
            = labelArray label"
    by (simp add: decompress_compress_general getProp_def)
  show "\<exists>p. si_properties (decompressInterval (compressInterval c) label) = Some p
                \<and> nonWritable p = {}"
    by (simp add: decompress_compress_general)
qed

lemma demoInterval_record:
  "\<exists>s. demoInterval = SeqInterval s \<and> sq_stickiness s = START
     \<and> vals (sq_properties s) reservedRangeLabelsKey = Some (JArr [JStr ''comments''])
     \<and> reservedIntervalIdKey \<in> nonWritable (sq_properties s)"
  by (simp add: all_defs observation_defs Let_def)

theorem compress_roundtrip_witness:
  "\<exists>s. demoInterval = SeqInterval s
     \<and> si_stickiness (SequenceInterval_serialize demoClient s) = Some START
     \<and> si_stickiness (decompressInterval (compressInterval (SequenceInterval_serialize demoClient s))
                        (Some ''comments'')) = Some START
     \<and> (\<forall>k. getProp (si_properties (decompressInterval
                 (compressInterval (SequenceInterval_serialize demoClient s)) (Some ''comments''))) k
            = getProp (si_properties (SequenceInterval_serialize demoClient s)) k)
     \<and> decompressInterval (compressInterval (SequenceInterval_serialize demoClient s)) (Some ''comments'')
         \<noteq> SequenceInterval_serialize demoClient s"
proof -
  from demoInterval_record obtain s where
    s: "demoInterval = SeqInterval s" "sq_stickiness s = START"
       "vals (sq_properties s) reservedRangeLabelsKey = Some (JArr [JStr ''comments''])"
       "reservedIntervalIdKey \<in> nonWritable (sq_properties s)"
    by blast
  let ?c = "SequenceInterval_serialize demoClient s"
  let ?r = "decompressInterval (compressInterval ?c) (Some ''comments'')"
  note t = compress_roundtrip [of ?c "Some ''comments''"]
  have made: "(\<exists>client s'. ?c = SequenceInterval_serialize client s') \<or> (\<exists>i. ?c = Interval_serialize i)"
    by blast
  have props: "si_properties ?c = Some (sq_properties s)" "si_stickiness ?c = Some START"
    using s(2) by (simp_all add: SequenceInterval_serialize_def)
  from t made have st: "si_stickiness ?r = si_stickiness ?c"
    and others: "\<forall>k. k \<noteq> reservedRangeLabelsKey \<longrightarrow> getProp (si_properties ?r) k = getProp (si_properties ?c) k"
    and labels: "getProp (si_properties ?r) reservedRangeLabelsKey = labelArray (Some ''comments'')"
    by blast+
  have same: "getProp (si_properties ?c) reservedRangeLabelsKey = labelArray (Some ''comments'')"
    using props(1) s(3) by (simp add: getProp_def labelArray_def)
  have all: "\<forall>k. getProp (si_properties ?r) k = getProp (si_properties ?c) k"
  proof
    fix k show "getProp (si_properties ?r) k = getProp (si_properties ?c) k"
      using others labels same by (cases "k = reservedRangeLabelsKey") simp_all
  qed
  from t have "?r = ?c \<longleftrightarrow>
        si_stickiness ?c \<noteq> Some END
        \<and> (\<exists>p. si_properties ?c = Some p \<and> nonWritable p = {}
                \<and> vals p reservedRangeLabelsKey = Some (labelArray (Some ''comments'')))"
    by blast
  with props(1) s(4) have ne: "?r \<noteq> ?c" by auto
  from st props(2) have st': "si_stickiness ?r = Some START" by simp
  show ?thesis
    by (rule exI [of _ s]) (intro conjI; fact s(1) props(2) st' all ne)
qed

lemma labelledRecord_labels:
  "getProp (si_properties labelledRecord) reservedRangeLabelsKey
     = JArr [JStr ''comments'', JStr ''other'']"
  by (simp add: all_defs labelledAdded_def labelledRecord_def Let_def)

text \<open>
  Claim C3, as stated, fails at a record the program stores: the interval added with the
  range labels \<open>["comments", "other"]\<close> to the collection \<open>comments\<close> is serialized with
  both labels, and comes back from the round trip with the label of the collection only.
\<close>

theorem compress_roundtrip_counterexample:
  "getProp (si_properties labelledRecord) reservedRangeLabelsKey
     = JArr [JStr ''comments'', JStr ''other'']
   \<and> getProp (si_properties (decompressInterval (compressInterval labelledRecord) (Some ''comments'')))
       reservedRangeLabelsKey
     = JArr [JStr ''comments'']
   \<and> decompressInterval (compressInterval labelledRecord) (Some ''comments'') \<noteq> labelledRecord"
proof -
  have a: "getProp (si_properties labelledRecord) reservedRangeLabelsKey
             = JArr [JStr ''comments'', JStr ''other'']"
    by (rule labelledRecord_labels)
  have b: "getProp (si_properties (decompressInterval (compressInterval labelledRecord) (Some ''comments'')))
             reservedRangeLabelsKey = JArr [JStr ''comments'']"
    by (simp add: decompress_compress_general getProp_def labelArray_def)
  from a b have "decompressInterval (compressInterval labelledRecord) (Some ''comments'') \<noteq> labelledRecord"
    by auto
  with a b show ?thesis by simp
qed

end
